(* ===== verification/Go_Prelude.thy ===== *)
theory Go_Prelude
  imports Main "HOL-Library.Word"
begin

unbundle bit_operations_syntax

section \<open>What the program uses of Go\<close>

text \<open>
  The part of the Go language and of its standard library that every package of the
  repository relies on, and the generic lemmas about it:
  \<^item> the unsigned integer types, as words of their width (conversions truncate);
  \<^item> slices as lists, the built-in \<^verbatim>\<open>copy\<close> into a window of a slice;
  \<^item> \<^verbatim>\<open>encoding/binary.LittleEndian\<close> on 16-bit values;
  \<^item> buffered channels with the non-blocking \<^verbatim>\<open>select\<close> forms the code uses;
  \<^item> \<^verbatim>\<open>error\<close> values with \<^verbatim>\<open>errors.Is\<close>;
  \<^item> \<^verbatim>\<open>context.Context\<close> as a deadline and an instant of cancellation.
  Times and durations are integers (nanoseconds).
\<close>

named_theorems chan_simps \<open>characteristic equations of the channel operations\<close>
named_theorems pci_simps \<open>packing and unpacking of the protocol control byte\<close>

subsection \<open>Integers\<close>

type_synonym byte = "8 word"
type_synonym u16 = "16 word"
type_synonym u32 = "32 word"
type_synonym u64 = "64 word"

abbreviation (input) Millisecond :: int where "Millisecond \<equiv> 1000000"
abbreviation (input) Second :: int where "Second \<equiv> 1000000000"

lemma byte_of_nat_small: "n < 256 \<Longrightarrow> unat (of_nat n :: byte) = n"
  by (simp add: unat_of_nat take_bit_nat_eq_self)

lemma unat_byte_less [simp]: "unat (b :: byte) < 256"
  using unsigned_less [of b] by simp

subsection \<open>Slices\<close>

text \<open>\<open>copy(dst[k:], src)\<close>: as many bytes of \<open>src\<close> as fit behind index \<open>k\<close>.\<close>

definition copy_at :: "nat \<Rightarrow> 'a list \<Rightarrow> 'a list \<Rightarrow> 'a list" where
  "copy_at k src dst = take k dst @ take (length dst - k) src @ drop (k + length src) dst"

lemma length_copy_at [simp]: "k \<le> length dst \<Longrightarrow> length (copy_at k src dst) = length dst"
  by (simp add: copy_at_def)

lemma take_copy_at: "k \<le> length dst \<Longrightarrow> take k (copy_at k src dst) = take k dst"
  by (simp add: copy_at_def)

lemma copy_at_read:
  "k + length src \<le> length dst \<Longrightarrow> take (length src) (drop k (copy_at k src dst)) = src"
  by (simp add: copy_at_def)

subsection \<open>Little-endian 16-bit values\<close>

definition PutUint16 :: "u16 \<Rightarrow> byte list" where
  "PutUint16 v = [ucast v, ucast (drop_bit 8 v)]"

definition Uint16 :: "byte list \<Rightarrow> u16" where
  "Uint16 bs = ucast (bs ! 0) OR push_bit 8 (ucast (bs ! 1))"

lemma length_PutUint16 [simp]: "length (PutUint16 v) = 2"
  by (simp add: PutUint16_def)

lemma Uint16_PutUint16 [simp]: "Uint16 (PutUint16 v @ xs) = v"
  by (rule bit_word_eqI) (auto simp: Uint16_def PutUint16_def bit_simps)

lemma Uint16_PutUint16_Nil [simp]: "Uint16 (PutUint16 v) = v"
  using Uint16_PutUint16 [of v "[]"] by simp

subsection \<open>Errors\<close>

text \<open>
  Error values. The named constructors are the sentinels the packages declare with
  \<^verbatim>\<open>errors.New\<close> at package level (compared by identity, so distinct constructors are
  distinct errors) and the error types they declare. \<open>ErrorText f as\<close> is an error built in
  place from the format \<open>f\<close> and the numbers \<open>as\<close> it prints; \<open>Wrapped f as e\<close> is a
  \<^verbatim>\<open>fmt.Errorf\<close> whose format has a \<^verbatim>\<open>%w\<close> verb for \<open>e\<close>.
\<close>

datatype error =
    ErrDriverClosed | ErrInvalidChannel
  | ErrTransportClosed | ErrTxQueueFull | ErrRxQueueFull | ErrMessageTooLong
  | ErrTimeout | ErrNegativeResponse | ErrUnsupportedFeature | ErrCanceled | ErrInvalidPayload
  | NegativeResponseError byte byte
  | ErrResponseTimeout | ErrEmptyRequest
  | ErrNilDriver | ErrPresetClosed | ErrInvalidFrameID | ErrPayloadTooLong
  | ErrMasterReadUnsupported
  | ErrNoSlaveResponse
  | DeadlineExceeded | Canceled
  | PCANError u32
  | ErrorText string "int list"
  | Wrapped string "int list" error

fun Unwrap :: "error \<Rightarrow> error option" where
  "Unwrap (NegativeResponseError s n) = Some ErrNegativeResponse"
| "Unwrap (Wrapped f as e) = Some e"
| "Unwrap _ = None"

text \<open>\<^verbatim>\<open>errors.Is\<close> follows the chain of wrapped errors.\<close>

fun errors_Is :: "error \<Rightarrow> error \<Rightarrow> bool" where
  "errors_Is (Wrapped f as e) target \<longleftrightarrow> Wrapped f as e = target \<or> errors_Is e target"
| "errors_Is (NegativeResponseError s n) target \<longleftrightarrow>
     NegativeResponseError s n = target \<or> ErrNegativeResponse = target"
| "errors_Is e target \<longleftrightarrow> e = target"

lemma errors_Is_refl [simp]: "errors_Is e e"
  by (cases e) auto

lemma errors_Is_Unwrap: "errors_Is e t \<longleftrightarrow> e = t \<or> (\<exists>e'. Unwrap e = Some e' \<and> errors_Is e' t)"
  by (cases e) auto

subsection \<open>Buffered channels\<close>

text \<open>
  A channel made with \<^verbatim>\<open>make(chan T, n)\<close>. The code only ever sends in a \<^verbatim>\<open>select\<close> with
  a \<^verbatim>\<open>default\<close> branch or after it has checked for room, and receives in a
  \<^verbatim>\<open>select\<close>. A send on a closed channel panics; a receive from a closed channel drains it
  first and then reports that it is closed.
\<close>

record 'a chan =
  chan_cap :: nat
  chan_buf :: "'a list"
  chan_closed :: bool

datatype sent = Sent | WouldBlock | PanicClosed

datatype 'a received = Received 'a | Empty | Closed

definition make_chan :: "nat \<Rightarrow> 'a chan" where
  "make_chan n = \<lparr>chan_cap = n, chan_buf = [], chan_closed = False\<rparr>"

definition chan_len :: "'a chan \<Rightarrow> nat" where
  "chan_len c = length (chan_buf c)"

definition try_send :: "'a \<Rightarrow> 'a chan \<Rightarrow> 'a chan \<times> sent" where
  "try_send x c =
     (if chan_closed c then (c, PanicClosed)
      else if length (chan_buf c) < chan_cap c then (c\<lparr>chan_buf := chan_buf c @ [x]\<rparr>, Sent)
      else (c, WouldBlock))"

fun try_recv :: "'a chan \<Rightarrow> 'a chan \<times> 'a received" where
  "try_recv c =
     (case chan_buf c of
        x # xs \<Rightarrow> (c\<lparr>chan_buf := xs\<rparr>, Received x)
      | [] \<Rightarrow> (c, if chan_closed c then Closed else Empty))"

definition close_chan :: "'a chan \<Rightarrow> 'a chan" where
  "close_chan c = c\<lparr>chan_closed := True\<rparr>"

declare try_recv.simps [simp del]

text \<open>A channel never holds more than its capacity.\<close>

definition chan_ok :: "'a chan \<Rightarrow> bool" where
  "chan_ok c \<longleftrightarrow> length (chan_buf c) \<le> chan_cap c"

lemma make_chan_sel [simp]:
  "chan_cap (make_chan n) = n" "chan_buf (make_chan n) = []" "\<not> chan_closed (make_chan n)"
  by (simp_all add: make_chan_def)

lemma chan_ok_make [simp]: "chan_ok (make_chan n)"
  by (simp add: chan_ok_def)

lemma try_send_ok [intro]: "chan_ok c \<Longrightarrow> chan_ok (fst (try_send x c))"
  by (auto simp: chan_ok_def try_send_def)

lemma try_recv_ok [intro]: "chan_ok c \<Longrightarrow> chan_ok (fst (try_recv c))"
  by (auto simp: chan_ok_def try_recv.simps split: list.splits)

lemma try_send_cap [simp]: "chan_cap (fst (try_send x c)) = chan_cap c"
  by (simp add: try_send_def)

lemma try_send_closed [simp]: "chan_closed (fst (try_send x c)) = chan_closed c"
  by (simp add: try_send_def)

lemma try_recv_cap [simp]: "chan_cap (fst (try_recv c)) = chan_cap c"
  by (simp add: try_recv.simps split: list.splits)

lemma try_recv_closed [simp]: "chan_closed (fst (try_recv c)) = chan_closed c"
  by (simp add: try_recv.simps split: list.splits)

lemma try_recv_Nil [chan_simps]:
  "chan_buf c = [] \<Longrightarrow> \<not> chan_closed c \<Longrightarrow> try_recv c = (c, Empty)"
  by (simp add: try_recv.simps)

lemma try_recv_Cons [chan_simps]:
  "chan_buf c = x # xs \<Longrightarrow> try_recv c = (c\<lparr>chan_buf := xs\<rparr>, Received x)"
  by (simp add: try_recv.simps)

lemma try_send_room [chan_simps]:
  "\<not> chan_closed c \<Longrightarrow> length (chan_buf c) < chan_cap c \<Longrightarrow>
   try_send x c = (c\<lparr>chan_buf := chan_buf c @ [x]\<rparr>, Sent)"
  by (simp add: try_send_def)

lemma try_recv_Received_iff:
  "try_recv c = (c', Received x) \<longleftrightarrow> (\<exists>xs. chan_buf c = x # xs \<and> c' = c\<lparr>chan_buf := xs\<rparr>)"
  by (auto simp: try_recv.simps split: list.splits)

text \<open>A run of sends that all fit is one append: channels are first-in first-out.\<close>

fun send_all :: "'a list \<Rightarrow> 'a chan \<Rightarrow> 'a chan" where
  "send_all [] c = c"
| "send_all (x # xs) c = send_all xs (fst (try_send x c))"

lemma send_all_room:
  "\<not> chan_closed c \<Longrightarrow> length (chan_buf c) + length xs \<le> chan_cap c \<Longrightarrow>
   send_all xs c = c\<lparr>chan_buf := chan_buf c @ xs\<rparr>"
  by (induction xs arbitrary: c) (simp_all add: try_send_room)

subsection \<open>Contexts\<close>

text \<open>
  A \<^verbatim>\<open>context.Context\<close>: the deadline of \<^verbatim>\<open>WithTimeout\<close> and the instant at which
  somebody cancels it, if either exists. \<^verbatim>\<open>Err\<close> is the error of whichever comes first.
\<close>

record Context =
  ctx_deadline :: "int option"
  ctx_cancel :: "int option"

definition Background :: Context where
  "Background = \<lparr>ctx_deadline = None, ctx_cancel = None\<rparr>"

definition reached :: "int option \<Rightarrow> int \<Rightarrow> bool" where
  "reached i now \<longleftrightarrow> (case i of None \<Rightarrow> False | Some x \<Rightarrow> x \<le> now)"

definition ctx_Err :: "int \<Rightarrow> Context \<Rightarrow> error option" where
  "ctx_Err now c =
     (case (ctx_cancel c, ctx_deadline c) of
        (None, None) \<Rightarrow> None
      | (None, Some d) \<Rightarrow> if d \<le> now then Some DeadlineExceeded else None
      | (Some x, None) \<Rightarrow> if x \<le> now then Some Canceled else None
      | (Some x, Some d) \<Rightarrow>
          if x \<le> now \<and> x < d then Some Canceled
          else if d \<le> now then Some DeadlineExceeded else None)"

definition WithTimeout :: "int \<Rightarrow> Context \<Rightarrow> int \<Rightarrow> Context" where
  "WithTimeout now parent timeout =
     parent\<lparr>ctx_deadline :=
       Some (case ctx_deadline parent of None \<Rightarrow> now + timeout | Some d \<Rightarrow> min d (now + timeout))\<rparr>"

lemma ctx_Err_Background [simp]: "ctx_Err now Background = None"
  by (simp add: ctx_Err_def Background_def)

lemma ctx_Err_cases: "ctx_Err now c = Some e \<Longrightarrow> e = DeadlineExceeded \<or> e = Canceled"
  by (auto simp: ctx_Err_def split: option.splits if_splits)

lemma ctx_Err_deadline:
  "ctx_deadline c = Some d \<Longrightarrow> d \<le> now \<Longrightarrow> ctx_Err now c \<noteq> None"
  by (auto simp: ctx_Err_def split: option.splits)

lemma WithTimeout_deadline:
  "\<exists>d. ctx_deadline (WithTimeout now parent timeout) = Some d \<and> d \<le> now + timeout"
  by (auto simp: WithTimeout_def split: option.splits)

end
