(* ===== verification/Liniface.thy ===== *)
theory Liniface
  imports Go_Prelude
begin

section \<open>The driver interface (\<^verbatim>\<open>liniface/liniface.go\<close>)\<close>

text \<open>
  Events, their constants, and the interface \<^verbatim>\<open>liniface.Driver\<close>: four operations on a
  driver whose state is the type parameter \<open>'d\<close> (for a hardware driver the adapter and the
  bus, for the simulation the network of the theory \<open>Simulation\<close>). An operation takes the
  state and returns it with its result; a nil event pointer is \<open>None\<close>.
\<close>

type_synonym Channel = byte
type_synonym ChecksumType = int
type_synonym Direction = int
type_synonym PCIType = byte

abbreviation (input) ClassicChecksum :: ChecksumType where "ClassicChecksum \<equiv> 0"
abbreviation (input) EnhancedChecksum :: ChecksumType where "EnhancedChecksum \<equiv> 1"

abbreviation (input) RX :: Direction where "RX \<equiv> 0"
abbreviation (input) TX :: Direction where "TX \<equiv> 1"

abbreviation (input) SF :: PCIType where "SF \<equiv> 0"
abbreviation (input) FF :: PCIType where "FF \<equiv> 1"
abbreviation (input) CF :: PCIType where "CF \<equiv> 2"

record LinEvent =
  ev_Channel :: Channel
  EventID :: byte
  EventPayload :: "byte list"
  ev_ChecksumType :: ChecksumType
  ev_Direction :: Direction
  ev_Timestamp :: int

record 'd Driver =
  ReadEvent :: "int \<Rightarrow> Channel \<Rightarrow> 'd \<Rightarrow> ((error + LinEvent option) \<times> 'd) option"
  WriteMessage :: "LinEvent option \<Rightarrow> Channel \<Rightarrow> 'd \<Rightarrow> error option \<times> 'd"
  ScheduleSlaveResponse :: "LinEvent option \<Rightarrow> Channel \<Rightarrow> 'd \<Rightarrow> error option \<times> 'd"
  RequestSlaveResponse :: "byte \<Rightarrow> Channel \<Rightarrow> 'd \<Rightarrow> error option \<times> 'd"

text \<open>
  A read that never returns is \<open>None\<close>. What the transport needs of a driver to finish a read cycle:
  reads return, and there is a number of events waiting on
  each channel that every event read makes smaller and that handing a response to the driver
  does not raise. (A driver that could report events for ever within one cycle would keep the
  transport in its read loop.)
\<close>

locale finite_driver =
  fixes drv :: "'d Driver"
    and waiting :: "Channel \<Rightarrow> 'd \<Rightarrow> nat"
  assumes read_returns: "ReadEvent drv timeout c d \<noteq> None"
    and read_shrinks:
      "ReadEvent drv timeout c d = Some (Inr (Some ev), d') \<Longrightarrow> waiting c d' < waiting c d"
    and schedule_keeps:
      "ScheduleSlaveResponse drv e c d = (r, d') \<Longrightarrow> waiting c d' \<le> waiting c d"

text \<open>A driver of a bus on which nothing happens, and a received diagnostic frame, for examples.\<close>

definition quiet_driver :: "'d Driver" where
  "quiet_driver =
     \<lparr>ReadEvent = \<lambda>timeout c d. Some (Inr None, d), WriteMessage = \<lambda>e c d. (None, d),
      ScheduleSlaveResponse = \<lambda>e c d. (None, d), RequestSlaveResponse = \<lambda>i c d. (None, d)\<rparr>"

lemma quiet_driver_sel [simp]:
  "ReadEvent quiet_driver timeout c d = Some (Inr None, d)"
  "WriteMessage quiet_driver e c d = (None, d)"
  "ScheduleSlaveResponse quiet_driver e c d = (None, d)"
  "RequestSlaveResponse quiet_driver i c d = (None, d)"
  by (simp_all add: quiet_driver_def)

definition rx_event :: "byte \<Rightarrow> byte list \<Rightarrow> LinEvent" where
  "rx_event i payload = \<lparr>ev_Channel = 0, EventID = i, EventPayload = payload,
     ev_ChecksumType = ClassicChecksum, ev_Direction = RX, ev_Timestamp = 0\<rparr>"

end
