(* ===== verification/Transport_Base.thy ===== *)
theory Transport_Base
  imports Liniface
begin

section \<open>Transport data (\<^verbatim>\<open>tplin/adapter.go\<close>, \<^verbatim>\<open>tplin/transport.go\<close>)\<close>

text \<open>
  The constants of the package \<^verbatim>\<open>tplin\<close>, the configuration of the transport with its
  defaults and its normalisation, messages, and the state of a \<^verbatim>\<open>Transport\<close> with its
  constructors. Field names carry the receiver of the Go methods as a prefix (\<open>t_isSlave\<close> for
  \<^verbatim>\<open>t.isSlave\<close>). The driver is not a field here: the operations of a transport take the
  driver's operations and its state. Mutexes are not fields either: an operation that the code
  runs under one mutex is one function (one atomic step).
\<close>

abbreviation (input) MasterDiagnosticFrameID :: byte where "MasterDiagnosticFrameID \<equiv> 0x3C"
abbreviation (input) SlaveDiagnosticFrameID :: byte where "SlaveDiagnosticFrameID \<equiv> 0x3D"
abbreviation (input) BroadcastNAD :: byte where "BroadcastNAD \<equiv> 0x7F"

abbreviation (input) ReadByIdentifierSID :: byte where "ReadByIdentifierSID \<equiv> 0xB2"
abbreviation (input) AssignNadSID :: byte where "AssignNadSID \<equiv> 0xB0"
abbreviation (input) SaveConfigurationSID :: byte where "SaveConfigurationSID \<equiv> 0xB6"

abbreviation (input) DataIdentifierLinProductIdentifier :: byte
  where "DataIdentifierLinProductIdentifier \<equiv> 0"
abbreviation (input) DataIdentifierSerialNumber :: byte where "DataIdentifierSerialNumber \<equiv> 1"

abbreviation (input) BroadcastSupplierID :: u16 where "BroadcastSupplierID \<equiv> 0x7FFF"
abbreviation (input) BroadcastFunctionID :: u16 where "BroadcastFunctionID \<equiv> 0xFFFF"

abbreviation (input) DefaultTxQueueSize :: int where "DefaultTxQueueSize \<equiv> 683"
abbreviation (input) DefaultRxQueueSize :: int where "DefaultRxQueueSize \<equiv> 10"
abbreviation (input) DefaultPollInterval :: int where "DefaultPollInterval \<equiv> 10 * Millisecond"
abbreviation (input) DefaultReadTimeout :: int where "DefaultReadTimeout \<equiv> 10 * Millisecond"
abbreviation (input) DefaultMultiFrameTimeout :: int where "DefaultMultiFrameTimeout \<equiv> 1 * Second"

abbreviation (input) maxTransportDataLength :: nat where "maxTransportDataLength \<equiv> 4094"

record TransportConfig =
  TxQueueSize :: int
  RxQueueSize :: int
  PollInterval :: int
  ReadTimeout :: int
  MultiFrameTimeout :: int
  ContinuousSlavePoll :: bool

definition DefaultTransportConfig :: TransportConfig where
  "DefaultTransportConfig =
     \<lparr>TxQueueSize = DefaultTxQueueSize, RxQueueSize = DefaultRxQueueSize,
      PollInterval = DefaultPollInterval, ReadTimeout = DefaultReadTimeout,
      MultiFrameTimeout = DefaultMultiFrameTimeout, ContinuousSlavePoll = False\<rparr>"

definition normalizeTransportConfig :: "TransportConfig \<Rightarrow> TransportConfig" where
  "normalizeTransportConfig config =
     (let defaults = DefaultTransportConfig;
          config = (if TxQueueSize config \<le> 0
                    then config\<lparr>TxQueueSize := TxQueueSize defaults\<rparr> else config);
          config = (if RxQueueSize config \<le> 0
                    then config\<lparr>RxQueueSize := RxQueueSize defaults\<rparr> else config);
          config = (if PollInterval config \<le> 0
                    then config\<lparr>PollInterval := PollInterval defaults\<rparr> else config);
          config = (if ReadTimeout config < 0
                    then config\<lparr>ReadTimeout := ReadTimeout defaults\<rparr> else config);
          config = (if MultiFrameTimeout config \<le> 0
                    then config\<lparr>MultiFrameTimeout := MultiFrameTimeout defaults\<rparr> else config)
      in config)"

text \<open>What a normalised configuration guarantees the transport.\<close>

definition config_ok :: "TransportConfig \<Rightarrow> bool" where
  "config_ok c \<longleftrightarrow> 0 < TxQueueSize c \<and> 0 < RxQueueSize c \<and> 0 < PollInterval c \<and>
     0 \<le> ReadTimeout c \<and> 0 < MultiFrameTimeout c"

lemma normalizeTransportConfig_ok: "config_ok (normalizeTransportConfig c)"
  by (simp add: normalizeTransportConfig_def config_ok_def DefaultTransportConfig_def Let_def)

lemma normalizeTransportConfig_id: "config_ok c \<Longrightarrow> normalizeTransportConfig c = c"
  by (simp add: normalizeTransportConfig_def config_ok_def Let_def)

lemma DefaultTransportConfig_ok: "config_ok DefaultTransportConfig"
  by (simp add: config_ok_def DefaultTransportConfig_def)

record LinMessage =
  NAD :: byte
  SID :: byte
  Data :: "byte list"

record Transport =
  t_isSlave :: bool
  t_channel :: Channel
  t_txQueue :: "LinEvent chan"
  t_rxQueue :: "LinMessage chan"
  t_config :: TransportConfig
  t_scheduledTxEvent :: "LinEvent option"
  t_awaitingSlaveResponse :: bool
  t_currentFrameData :: "byte list"
  t_currentSID :: byte
  t_currentNAD :: byte
  t_currentFrameCounter :: byte
  t_remainingBytes :: int
  t_multiFrameStartTime :: int
  t_running :: bool
  t_closed :: bool
  t_done :: bool
  t_wake :: "unit chan"
  t_errors :: "error chan"
  t_receiveErrors :: "error chan"

text \<open>
  The optional last argument of the Go constructors is a list whose first element, if any, is
  the channel. \<open>t_done\<close> says whether the channel \<^verbatim>\<open>t.done\<close> is closed.
\<close>

definition NewTransportWithConfig :: "bool \<Rightarrow> TransportConfig \<Rightarrow> Channel list \<Rightarrow> Transport" where
  "NewTransportWithConfig isSlave config channel =
     (let config = normalizeTransportConfig config;
          selectedChannel = (case channel of [] \<Rightarrow> 0 | c # _ \<Rightarrow> c)
      in \<lparr>t_isSlave = isSlave, t_channel = selectedChannel,
          t_txQueue = make_chan (nat (TxQueueSize config)),
          t_rxQueue = make_chan (nat (RxQueueSize config)),
          t_config = config, t_scheduledTxEvent = None, t_awaitingSlaveResponse = False,
          t_currentFrameData = [], t_currentSID = 0, t_currentNAD = 0,
          t_currentFrameCounter = 0, t_remainingBytes = 0, t_multiFrameStartTime = 0,
          t_running = False, t_closed = False, t_done = False,
          t_wake = make_chan 1, t_errors = make_chan 16, t_receiveErrors = make_chan 16\<rparr>)"

definition NewTransport :: "bool \<Rightarrow> Channel list \<Rightarrow> Transport" where
  "NewTransport isSlave channel = NewTransportWithConfig isSlave DefaultTransportConfig channel"

text \<open>The queues of a transport keep their capacity and stay within it.\<close>

definition queues_ok :: "Transport \<Rightarrow> bool" where
  "queues_ok t \<longleftrightarrow> chan_ok (t_txQueue t) \<and> chan_ok (t_rxQueue t) \<and> chan_ok (t_wake t) \<and>
     chan_ok (t_errors t) \<and> chan_ok (t_receiveErrors t) \<and>
     \<not> chan_closed (t_txQueue t) \<and> \<not> chan_closed (t_rxQueue t) \<and> \<not> chan_closed (t_wake t)"

lemma NewTransportWithConfig_sel [simp]:
  "t_isSlave (NewTransportWithConfig s c ch) = s"
  "t_config (NewTransportWithConfig s c ch) = normalizeTransportConfig c"
  "t_txQueue (NewTransportWithConfig s c ch) =
     make_chan (nat (TxQueueSize (normalizeTransportConfig c)))"
  "t_rxQueue (NewTransportWithConfig s c ch) =
     make_chan (nat (RxQueueSize (normalizeTransportConfig c)))"
  "t_channel (NewTransportWithConfig s c ch) = (case ch of [] \<Rightarrow> 0 | x # _ \<Rightarrow> x)"
  "t_scheduledTxEvent (NewTransportWithConfig s c ch) = None"
  "\<not> t_awaitingSlaveResponse (NewTransportWithConfig s c ch)"
  "t_remainingBytes (NewTransportWithConfig s c ch) = 0"
  "t_currentFrameCounter (NewTransportWithConfig s c ch) = 0"
  "\<not> t_closed (NewTransportWithConfig s c ch)"
  "\<not> t_running (NewTransportWithConfig s c ch)"
  "\<not> t_done (NewTransportWithConfig s c ch)"
  by (simp_all add: NewTransportWithConfig_def Let_def)

lemma NewTransportWithConfig_queues_ok: "queues_ok (NewTransportWithConfig s c ch)"
  by (simp add: queues_ok_def NewTransportWithConfig_def Let_def)

end
