(* ===== verification/Transport_Frames.thy ===== *)
theory Transport_Frames
  imports Transport_Base
begin

section \<open>Segmentation (\<^verbatim>\<open>Transport.buildFrames\<close>)\<close>

text \<open>
  \<open>buildFrames\<close> cuts a diagnostic message into the frames the transport queues: one single
  frame (SF) when service identifier and data fit into six bytes, otherwise a first frame (FF)
  with the 12-bit length and consecutive frames (CF) whose four-bit counter starts at 1 and
  wraps. The lemmas of this theory give the shape of every frame, their number, and what each
  one carries; the reassembly of the same frames is in \<open>Transport_Receive\<close>.
\<close>

definition newDiagnosticFramePayload :: "byte list" where
  "newDiagnosticFramePayload = [0xFF, 0xFF, 0xFF, 0xFF, 0xFF, 0xFF, 0xFF, 0xFF]"

definition diagnosticEvent :: "Transport \<Rightarrow> byte \<Rightarrow> byte list \<Rightarrow> LinEvent" where
  "diagnosticEvent t eventID payload =
     \<lparr>ev_Channel = t_channel t, EventID = eventID, EventPayload = payload,
      ev_ChecksumType = ClassicChecksum, ev_Direction = RX, ev_Timestamp = 0\<rparr>"

definition payloadSF :: "byte \<Rightarrow> byte \<Rightarrow> byte list \<Rightarrow> byte list" where
  "payloadSF nad sid data =
     (let dataLen = length data + 1;
          pci = push_bit 4 SF OR of_nat dataLen
      in copy_at 3 data (newDiagnosticFramePayload[0 := nad, 1 := pci, 2 := sid]))"

definition payloadFF :: "byte \<Rightarrow> byte \<Rightarrow> byte list \<Rightarrow> byte list" where
  "payloadFF nad sid data =
     (let dataLen = length data + 1;
          pci = push_bit 4 FF OR of_nat (drop_bit 8 dataLen AND 0x0F)
      in copy_at 4 (take 4 data)
           (newDiagnosticFramePayload[0 := nad, 1 := pci, 2 := of_nat (dataLen AND 0xFF), 3 := sid]))"

definition payloadCF :: "byte \<Rightarrow> nat \<Rightarrow> byte list \<Rightarrow> byte list" where
  "payloadCF nad currentFrame part =
     (let pciCF = push_bit 4 CF OR of_nat currentFrame
      in copy_at 2 part (newDiagnosticFramePayload[0 := nad, 1 := pciCF]))"

text \<open>The loop that cuts the rest of the data into consecutive frames.\<close>

function buildCFs :: "byte \<Rightarrow> byte list \<Rightarrow> nat \<Rightarrow> nat \<Rightarrow> byte list list" where
  "buildCFs nad data currentByte currentFrame =
     (if currentByte < length data then
        (let currentFrame = (currentFrame + 1) mod 16;
             endByte = currentByte + 6;
             endByte = (if endByte > length data then length data else endByte)
         in payloadCF nad currentFrame (take (endByte - currentByte) (drop currentByte data))
              # buildCFs nad data endByte currentFrame)
      else [])"
  by pat_completeness auto
termination
  by (relation "measure (\<lambda>(nad, data, currentByte, currentFrame). length data - currentByte)") auto

declare buildCFs.simps [simp del]

definition buildFrames :: "Transport \<Rightarrow> byte \<Rightarrow> byte \<Rightarrow> byte list \<Rightarrow> error + LinEvent list" where
  "buildFrames t nad sid data =
     (if length data > maxTransportDataLength
      then Inl (Wrapped ''data length'' [int (length data)] ErrMessageTooLong)
      else
        let eventID = (if t_isSlave t then SlaveDiagnosticFrameID else MasterDiagnosticFrameID);
            dataLen = length data + 1
        in if dataLen \<le> 6
           then Inr [diagnosticEvent t eventID (payloadSF nad sid data)]
           else Inr (diagnosticEvent t eventID (payloadFF nad sid data)
                       # map (diagnosticEvent t eventID) (buildCFs nad data 4 0)))"

subsection \<open>Protocol control byte\<close>

lemma nibble_cases:
  assumes "n < (16::nat)"
  obtains "n = 0" | "n = 1" | "n = 2" | "n = 3" | "n = 4" | "n = 5" | "n = 6" | "n = 7"
    | "n = 8" | "n = 9" | "n = 10" | "n = 11" | "n = 12" | "n = 13" | "n = 14" | "n = 15"
  using assms by (auto simp: eval_nat_numeral less_Suc_eq)

lemma pci_SF [pci_simps]:
  assumes "n < 16"
  shows "drop_bit 4 (push_bit 4 SF OR (of_nat n :: byte)) = SF"
    and "(push_bit 4 SF OR (of_nat n :: byte)) AND 0x0F = of_nat n"
  using assms by (cases rule: nibble_cases; simp)+

lemma pci_FF [pci_simps]:
  assumes "n < 16"
  shows "drop_bit 4 (push_bit 4 FF OR (of_nat n :: byte)) = FF"
    and "(push_bit 4 FF OR (of_nat n :: byte)) AND 0x0F = of_nat n"
  using assms by (cases rule: nibble_cases; simp)+

lemma pci_CF [pci_simps]:
  assumes "n < 16"
  shows "drop_bit 4 (push_bit 4 CF OR (of_nat n :: byte)) = CF"
    and "(push_bit 4 CF OR (of_nat n :: byte)) AND 0x0F = of_nat n"
  using assms by (cases rule: nibble_cases; simp)+

text \<open>The 12-bit length survives its split into a nibble and a byte.\<close>

lemma length12_join:
  assumes "n < 4096"
  shows "push_bit 8 (unat (of_nat (drop_bit 8 n AND 0x0F) :: byte)) OR
         unat (of_nat (n AND 0xFF) :: byte) = n"
proof -
  have hi: "drop_bit 8 n AND 0x0F = n div 256"
  proof -
    have "drop_bit 8 n AND 0x0F = take_bit 4 (n div 256)"
      by (simp add: drop_bit_eq_div take_bit_eq_mask mask_eq_exp_minus_1)
    also have "\<dots> = n div 256" using assms by (simp add: take_bit_nat_eq_self)
    finally show ?thesis .
  qed
  have lo: "n AND 0xFF = take_bit 8 n"
    by (simp add: take_bit_eq_mask mask_eq_exp_minus_1)
  have u1: "unat (of_nat (n div 256) :: byte) = n div 256"
    by (rule byte_of_nat_small) (use assms in simp)
  have u2: "unat (of_nat (take_bit 8 n) :: byte) = take_bit 8 n"
    by (rule byte_of_nat_small) (simp add: take_bit_eq_mod)
  have "push_bit 8 (n div 256) OR take_bit 8 n = n"
    by (simp add: bit_eq_iff bit_simps flip: drop_bit_eq_div [where n = 8, simplified])
       (auto simp: not_less le_iff_add)
  then show ?thesis by (simp only: hi lo u1 u2)
qed

subsection \<open>Shape of the frames\<close>

lemma length_newDiagnosticFramePayload [simp]: "length newDiagnosticFramePayload = 8"
  by (simp add: newDiagnosticFramePayload_def)

lemma payloadSF_simps:
  assumes "length data \<le> 5"
  shows "length (payloadSF nad sid data) = 8"
    and "payloadSF nad sid data ! 0 = nad"
    and "payloadSF nad sid data ! 1 = push_bit 4 SF OR of_nat (length data + 1)"
    and "payloadSF nad sid data ! 2 = sid"
    and "take (length data) (drop 3 (payloadSF nad sid data)) = data"
  using assms
  by (simp_all add: payloadSF_def copy_at_def nth_append newDiagnosticFramePayload_def Let_def)

lemma payloadFF_simps:
  assumes "5 < length data"
  shows "length (payloadFF nad sid data) = 8"
    and "payloadFF nad sid data ! 0 = nad"
    and "payloadFF nad sid data ! 1 =
           push_bit 4 FF OR of_nat (drop_bit 8 (length data + 1) AND 0x0F)"
    and "payloadFF nad sid data ! 2 = of_nat ((length data + 1) AND 0xFF)"
    and "payloadFF nad sid data ! 3 = sid"
    and "drop 4 (payloadFF nad sid data) = take 4 data"
  using assms
  by (simp_all add: payloadFF_def copy_at_def nth_append newDiagnosticFramePayload_def Let_def min_def
      eval_nat_numeral)

lemma payloadCF_simps:
  assumes "length part \<le> 6"
  shows "length (payloadCF nad n part) = 8"
    and "payloadCF nad n part ! 0 = nad"
    and "payloadCF nad n part ! 1 = push_bit 4 CF OR of_nat n"
    and "take (length part) (drop 2 (payloadCF nad n part)) = part"
  using assms
  by (simp_all add: payloadCF_def copy_at_def nth_append newDiagnosticFramePayload_def Let_def)

text \<open>Frame type and low nibble of each control byte, as the receiver reads them.\<close>

lemma payloadSF_pci:
  assumes "length data \<le> 5"
  shows "drop_bit 4 (payloadSF nad sid data ! 1) = SF"
    and "unat (payloadSF nad sid data ! 1 AND 0x0F) = length data + 1"
proof -
  have n: "length data + 1 < 16" using assms by simp
  show "drop_bit 4 (payloadSF nad sid data ! 1) = SF"
    unfolding payloadSF_simps(3) [OF assms] by (rule pci_SF(1) [OF n])
  show "unat (payloadSF nad sid data ! 1 AND 0x0F) = length data + 1"
    unfolding payloadSF_simps(3) [OF assms] pci_SF(2) [OF n]
    by (rule byte_of_nat_small) (use assms in simp)
qed

lemma nibble_and_bound: "n AND 0x0F < (16 :: nat)"
proof -
  have "n AND 0x0F = take_bit 4 n" by (simp add: take_bit_eq_mask mask_eq_exp_minus_1)
  then show ?thesis using take_bit_nat_less_exp [of 4 n] by simp
qed

lemma payloadFF_pci:
  assumes "5 < length data" and "length data \<le> maxTransportDataLength"
  shows "drop_bit 4 (payloadFF nad sid data ! 1) = FF"
    and "push_bit 8 (unat (payloadFF nad sid data ! 1 AND 0x0F)) OR
           unat (payloadFF nad sid data ! 2) = length data + 1"
proof -
  note nib = nibble_and_bound [of "drop_bit 8 (length data + 1)"]
  show "drop_bit 4 (payloadFF nad sid data ! 1) = FF"
    unfolding payloadFF_simps(3) [OF assms(1)] by (rule pci_FF(1) [OF nib])
  show "push_bit 8 (unat (payloadFF nad sid data ! 1 AND 0x0F)) OR
           unat (payloadFF nad sid data ! 2) = length data + 1"
    unfolding payloadFF_simps(3,4) [OF assms(1)] pci_FF(2) [OF nib]
    by (rule length12_join) (use assms in simp)
qed

lemma payloadCF_pci:
  assumes "length part \<le> 6" and "n < 16"
  shows "drop_bit 4 (payloadCF nad n part ! 1) = CF"
    and "unat (payloadCF nad n part ! 1 AND 0x0F) = n"
proof -
  show "drop_bit 4 (payloadCF nad n part ! 1) = CF"
    unfolding payloadCF_simps(3) [OF assms(1)] by (rule pci_CF(1) [OF assms(2)])
  show "unat (payloadCF nad n part ! 1 AND 0x0F) = n"
    unfolding payloadCF_simps(3) [OF assms(1)] pci_CF(2) [OF assms(2)]
    by (rule byte_of_nat_small) (use assms in simp)
qed

text \<open>One turn of the loop, and its end.\<close>

lemma buildCFs_done: "length data \<le> k \<Longrightarrow> buildCFs nad data k n = []"
  by (subst buildCFs.simps) simp

lemma buildCFs_step:
  "k < length data \<Longrightarrow>
   buildCFs nad data k n =
     payloadCF nad ((n + 1) mod 16) (take 6 (drop k data))
       # buildCFs nad data (min (k + 6) (length data)) ((n + 1) mod 16)"
  by (subst buildCFs.simps) (auto simp: Let_def min_def take_all_iff)

lemma six_step:
  assumes "k < (n :: nat)"
  shows "Suc ((n - min (k + 6) n + 5) div 6) = (n - k + 5) div 6"
proof -
  obtain m where n: "n = k + m" and "0 < m"
    using assms less_imp_add_positive by blast
  have "Suc ((m - 6 + 5) div 6) = (m + 5) div 6"
  proof (cases "m < 6")
    case True
    then have "m + 5 < 2 * 6" and "6 \<le> m + 5" using \<open>0 < m\<close> by simp_all
    then show ?thesis using True by (simp add: div_nat_eqI)
  next
    case False
    then obtain j where "m = 6 + j" using le_Suc_ex not_less by blast
    moreover have "(j + 5 + 6) div 6 = Suc ((j + 5) div 6)" by simp
    ultimately show ?thesis by (simp add: ac_simps)
  qed
  moreover have "n - min (k + 6) n = m - 6"
    by (simp add: n min_def)
  ultimately show ?thesis by (simp add: n)
qed

lemma six_bound: "i < x div 6 \<Longrightarrow> 6 * i + 6 \<le> (x :: nat)"
  by (simp add: less_eq_div_iff_mult_less_eq Suc_le_eq [symmetric])

lemma length_buildCFs: "length (buildCFs nad data k n) = (length data - k + 5) div 6"
proof (induction nad data k n rule: buildCFs.induct)
  case (1 nad data k n)
  show ?case
  proof (cases "k < length data")
    case True
    have IH: "length (buildCFs nad data (min (k + 6) (length data)) ((n + 1) mod 16)) =
              (length data - min (k + 6) (length data) + 5) div 6"
      using "1.IH" [OF True refl refl refl] by (simp add: min_def split: if_splits)
    have "length (buildCFs nad data k n) =
          Suc (length (buildCFs nad data (min (k + 6) (length data)) ((n + 1) mod 16)))"
      by (subst buildCFs_step [OF True]) simp
    also have "\<dots> = Suc ((length data - min (k + 6) (length data) + 5) div 6)"
      by (simp only: IH)
    also have "\<dots> = (length data - k + 5) div 6"
      using True by (rule six_step)
    finally show ?thesis .
  next
    case False
    then show ?thesis by (simp add: buildCFs_done)
  qed
qed

lemma counter_shift: "((n + 1) mod 16 + i + 1) mod 16 = (n + Suc i + 1) mod (16 :: nat)"
  using mod_add_left_eq [of "n + 1" 16 "i + 1"] by (simp add: ac_simps)

text \<open>The \<open>i\<close>-th consecutive frame: address, counter, and its six-byte window of the data.\<close>

lemma buildCFs_nth:
  assumes "i < length (buildCFs nad data k n)" and "n < 16"
  shows "buildCFs nad data k n ! i =
         payloadCF nad ((n + i + 1) mod 16) (take 6 (drop (k + 6 * i) data))"
  using assms
proof (induction i arbitrary: k n)
  case 0
  then have "k < length data" unfolding length_buildCFs by linarith
  then show ?case by (simp add: buildCFs_step)
next
  case (Suc i)
  then have k: "k < length data" unfolding length_buildCFs by linarith
  have "6 * Suc i + 6 \<le> length data - k + 5"
    using Suc.prems(1) unfolding length_buildCFs by (rule six_bound)
  then have "k + 6 < length data" by simp
  then have m: "min (k + 6) (length data) = k + 6" by simp
  have "buildCFs nad data k n ! Suc i = buildCFs nad data (k + 6) ((n + 1) mod 16) ! i"
    using k by (simp add: buildCFs_step m)
  also have "\<dots> = payloadCF nad (((n + 1) mod 16 + i + 1) mod 16)
                    (take 6 (drop (k + 6 + 6 * i) data))"
    using Suc.prems(1) by (intro Suc.IH) (simp_all add: buildCFs_step [OF k] m)
  also have "((n + 1) mod 16 + i + 1) mod 16 = (n + Suc i + 1) mod 16"
    by (rule counter_shift)
  finally show ?case by (simp add: ac_simps)
qed

lemma buildCFs_length8: "p \<in> set (buildCFs nad data k n) \<Longrightarrow> n < 16 \<Longrightarrow> length p = 8"
  by (auto simp: in_set_conv_nth buildCFs_nth payloadCF_simps)

end
