(* ===== verification/Transport_Receive.thy ===== *)
theory Transport_Receive
  imports Transport_Frames
begin

section \<open>Reassembly (\<^verbatim>\<open>Transport.receiveFromDriver\<close>)\<close>

text \<open>
  The receive path of the transport: reset of the multi-frame state, delivery to the receive
  queue, error reporting, and the handler of one event of the driver. The three arms of the
  handler's \<^verbatim>\<open>switch\<close> are functions of their own. Against the handler stands an abstract
  assembler over decoded protocol data units; the handler refines it, and the assembler turns
  the units that \<open>buildFrames\<close> produces back into the message. Log output is not modelled.
\<close>

definition resetState :: "Transport \<Rightarrow> Transport" where
  "resetState t =
     t\<lparr>t_currentFrameData := [], t_currentSID := 0, t_currentNAD := 0,
       t_currentFrameCounter := 0, t_remainingBytes := 0, t_multiFrameStartTime := 0\<rparr>"

text \<open>An error goes to both error channels; a full channel drops it.\<close>

definition reportError :: "error option \<Rightarrow> Transport \<Rightarrow> Transport" where
  "reportError err t =
     (case err of
        None \<Rightarrow> t
      | Some e \<Rightarrow>
          let t = t\<lparr>t_errors := fst (try_send e (t_errors t))\<rparr>
          in t\<lparr>t_receiveErrors := fst (try_send e (t_receiveErrors t))\<rparr>)"

definition deliverMessage :: "LinMessage \<Rightarrow> Transport \<Rightarrow> Transport" where
  "deliverMessage msg t =
     (case try_send msg (t_rxQueue t) of
        (q, Sent) \<Rightarrow> t\<lparr>t_rxQueue := q\<rparr>
      | _ \<Rightarrow> reportError (Some ErrRxQueueFull) t)"

definition receiveSF :: "byte list \<Rightarrow> Transport \<Rightarrow> bool \<times> Transport" where
  "receiveSF payload t =
     (let nad = payload ! 0;
          additionalInfo = payload ! 1 AND 0x0F;
          t = resetState t;
          len = int (unat additionalInfo);
          dataLength = len - 1
      in if int (length payload) < 3 + dataLength \<or> dataLength < 0 then (False, t)
         else
           let sid = payload ! 2;
               data = take (nat dataLength) (drop 3 payload)
           in (True, deliverMessage \<lparr>NAD = nad, SID = sid, Data = data\<rparr> t))"

definition receiveFF :: "int \<Rightarrow> byte list \<Rightarrow> Transport \<Rightarrow> bool \<times> Transport" where
  "receiveFF now payload t =
     (let nad = payload ! 0;
          additionalInfo = payload ! 1 AND 0x0F;
          t = resetState t
      in if length payload < 8 then (False, t)
         else
           let len = push_bit 8 (unat additionalInfo) OR unat (payload ! 2)
           in if len \<le> 6 \<or> len > maxTransportDataLength + 1 then (False, t)
              else
                let sid = payload ! 3;
                    t = t\<lparr>t_remainingBytes := int len - 1 - 4\<rparr>;
                    t = t\<lparr>t_currentFrameData := drop 4 payload\<rparr>;
                    t = t\<lparr>t_currentNAD := nad\<rparr>;
                    t = t\<lparr>t_currentSID := sid\<rparr>;
                    t = t\<lparr>t_multiFrameStartTime := now\<rparr>
                in (False, t))"

definition receiveCF :: "byte list \<Rightarrow> Transport \<Rightarrow> bool \<times> Transport" where
  "receiveCF payload t =
     (let additionalInfo = payload ! 1 AND 0x0F
      in if t_remainingBytes t = 0 then (False, resetState t)
         else
           let frameCounter = additionalInfo;
               nextFrameCounter = (t_currentFrameCounter t + 1) mod 16
           in if frameCounter \<noteq> nextFrameCounter then (False, resetState t)
              else
                let len = min (t_remainingBytes t) 6
                in if int (length payload) < 2 + len then (False, resetState t)
                   else
                     let t = t\<lparr>t_remainingBytes := t_remainingBytes t - len\<rparr>;
                         t = t\<lparr>t_currentFrameData :=
                                 t_currentFrameData t @ take (nat len) (drop 2 payload)\<rparr>;
                         t = t\<lparr>t_currentFrameCounter := nextFrameCounter\<rparr>
                     in if t_remainingBytes t = 0
                        then
                          let msg = \<lparr>NAD = t_currentNAD t, SID = t_currentSID t,
                                     Data = t_currentFrameData t\<rparr>
                          in (True, resetState (deliverMessage msg t))
                        else (False, t))"

text \<open>
  The second half of the handler: a received diagnostic frame that concerns this role.
  \<open>now\<close> is what \<^verbatim>\<open>time.Now()\<close> returns.
\<close>

definition isMasterReceiving :: "LinEvent \<Rightarrow> Transport \<Rightarrow> bool" where
  "isMasterReceiving event t \<longleftrightarrow> \<not> t_isSlave t \<and> EventID event = SlaveDiagnosticFrameID"

definition isSlaveReceiving :: "LinEvent \<Rightarrow> Transport \<Rightarrow> bool" where
  "isSlaveReceiving event t \<longleftrightarrow> t_isSlave t \<and> EventID event = MasterDiagnosticFrameID"

definition receiveDiagnostic :: "int \<Rightarrow> LinEvent \<Rightarrow> Transport \<Rightarrow> bool \<times> Transport" where
  "receiveDiagnostic now event t =
     (if ev_Direction event = RX \<and> (isMasterReceiving event t \<or> isSlaveReceiving event t) then
        let payload = EventPayload event
        in if \<not> t_isSlave t \<and> length payload = 0 then (False, t)
           else if length payload < 2 then (False, t)
           else
             let pciType = drop_bit 4 (payload ! 1)
             in if pciType = SF then receiveSF payload t
                else if pciType = FF then receiveFF now payload t
                else if pciType = CF then receiveCF payload t
                else (False, t)
      else (False, t))"

text \<open>
  The whole handler. A slave whose scheduled response shows up as transmitted hands the next
  queued frame to the driver; an error of that call is only logged, and the frame counts as
  scheduled.
\<close>

definition receiveFromDriver ::
    "'d Driver \<Rightarrow> ('d \<Rightarrow> int) \<Rightarrow> LinEvent \<Rightarrow> Transport \<Rightarrow> 'd \<Rightarrow> bool \<times> Transport \<times> 'd" where
  "receiveFromDriver drv clock event t d =
     (if t_isSlave t \<and> ev_Direction event = TX \<and> t_scheduledTxEvent t \<noteq> None then
        if map_option EventID (t_scheduledTxEvent t) = Some (EventID event) then
          let t = t\<lparr>t_scheduledTxEvent := None\<rparr>
          in case try_recv (t_txQueue t) of
               (q, Received nextEvent) \<Rightarrow>
                 let t = t\<lparr>t_txQueue := q\<rparr>;
                     (err, d) = ScheduleSlaveResponse drv (Some nextEvent) (t_channel t) d
                 in (False, t\<lparr>t_scheduledTxEvent := Some nextEvent\<rparr>, d)
             | _ \<Rightarrow> (False, t, d)
        else (False, t, d)
      else
        let (complete, t) = receiveDiagnostic (clock d) event t
        in (complete, t, d))"

definition checkMultiFrameTimeout :: "int \<Rightarrow> Transport \<Rightarrow> Transport" where
  "checkMultiFrameTimeout now t =
     (let hasOngoing = t_remainingBytes t > 0;
          startTime = t_multiFrameStartTime t
      in if hasOngoing \<and> now - startTime > MultiFrameTimeout (t_config t)
         then resetState t else t)"

subsection \<open>Abstract assembler\<close>

text \<open>
  What the receive path promises, without the record: a payload is one of a few protocol data
  units, and the assembler is idle or holds the message under construction, the number of bytes
  it still misses and the counter of the last frame.
\<close>

datatype pdu =
    Single byte byte "byte list"
  | First byte byte "byte list" nat
  | Consecutive nat "byte list"
  | Malformed
  | Ignored

definition decode_pdu :: "byte list \<Rightarrow> pdu" where
  "decode_pdu p =
     (if length p < 2 then Ignored
      else
        let kind = drop_bit 4 (p ! 1); info = unat (p ! 1 AND 0x0F)
        in if kind = SF then
             (if 1 \<le> info \<and> info + 2 \<le> length p
              then Single (p ! 0) (p ! 2) (take (info - 1) (drop 3 p)) else Malformed)
           else if kind = FF then
             (let len = push_bit 8 info OR (if 2 < length p then unat (p ! 2) else 0)
              in if 8 \<le> length p \<and> 6 < len \<and> len \<le> 4095
                 then First (p ! 0) (p ! 3) (drop 4 p) (len - 5) else Malformed)
           else if kind = CF then Consecutive info (drop 2 p)
           else Ignored)"

datatype assembly = Idle | Assembling byte byte "byte list" nat nat

fun assemble :: "assembly \<Rightarrow> pdu \<Rightarrow> assembly \<times> LinMessage option" where
  "assemble a Ignored = (a, None)"
| "assemble a Malformed = (Idle, None)"
| "assemble a (Single nad sid data) = (Idle, Some \<lparr>NAD = nad, SID = sid, Data = data\<rparr>)"
| "assemble a (First nad sid part missing) = (Assembling nad sid part missing 0, None)"
| "assemble Idle (Consecutive n part) = (Idle, None)"
| "assemble (Assembling nad sid acc missing n0) (Consecutive n part) =
     (if n \<noteq> (n0 + 1) mod 16 \<or> length part < min missing 6 then (Idle, None)
      else if missing \<le> 6
           then (Idle, Some \<lparr>NAD = nad, SID = sid, Data = acc @ take missing part\<rparr>)
           else (Assembling nad sid (acc @ take 6 part) (missing - 6) n, None))"

fun assemble_all :: "assembly \<Rightarrow> pdu list \<Rightarrow> assembly \<times> LinMessage option list" where
  "assemble_all a [] = (a, [])"
| "assemble_all a (p # ps) =
     (let (a', m) = assemble a p; (a'', ms) = assemble_all a' ps in (a'', m # ms))"

text \<open>The assembly a transport is holding.\<close>

definition assembly_of :: "Transport \<Rightarrow> assembly" where
  "assembly_of t =
     (if t_remainingBytes t = 0 then Idle
      else Assembling (t_currentNAD t) (t_currentSID t) (t_currentFrameData t)
             (nat (t_remainingBytes t)) (unat (t_currentFrameCounter t)))"


subsection \<open>Decoding what \<open>buildFrames\<close> encodes\<close>

lemma payloadCF_rest:
  "length part \<le> 6 \<Longrightarrow>
   drop 2 (payloadCF nad n part) = part @ drop (length part) (replicate 6 0xFF)"
  by (simp add: payloadCF_def copy_at_def newDiagnosticFramePayload_def Let_def eval_nat_numeral)

lemma decode_Single:
  "drop_bit 4 (p ! 1) = SF \<Longrightarrow> unat (p ! 1 AND 0x0F) = n + 1 \<Longrightarrow> n + 3 \<le> length p \<Longrightarrow>
   decode_pdu p = Single (p ! 0) (p ! 2) (take n (drop 3 p))"
  by (simp add: decode_pdu_def)

lemma decode_First:
  "drop_bit 4 (p ! 1) = FF \<Longrightarrow>
   push_bit 8 (unat (p ! 1 AND 0x0F)) OR unat (p ! 2) = n \<Longrightarrow> length p = 8 \<Longrightarrow>
   6 < n \<Longrightarrow> n \<le> 4095 \<Longrightarrow> decode_pdu p = First (p ! 0) (p ! 3) (drop 4 p) (n - 5)"
  by (simp add: decode_pdu_def Let_def)

lemma decode_Consecutive:
  "drop_bit 4 (p ! 1) = CF \<Longrightarrow> 2 \<le> length p \<Longrightarrow>
   decode_pdu p = Consecutive (unat (p ! 1 AND 0x0F)) (drop 2 p)"
  by (simp add: decode_pdu_def)

lemma decode_payloadSF:
  assumes "length data \<le> 5"
  shows "decode_pdu (payloadSF nad sid data) = Single nad sid data"
proof -
  note f = payloadSF_simps [OF assms, of nad sid]
  have "length data + 3 \<le> length (payloadSF nad sid data)" using assms f(1) by simp
  from decode_Single [OF payloadSF_pci [OF assms] this] show ?thesis by (simp only: f)
qed

lemma decode_payloadFF:
  assumes "5 < length data" and "length data \<le> maxTransportDataLength"
  shows "decode_pdu (payloadFF nad sid data) = First nad sid (take 4 data) (length data - 4)"
proof -
  note f = payloadFF_simps [OF assms(1), of nad sid]
  have "6 < length data + 1" and "length data + 1 \<le> 4095" using assms by simp_all
  from decode_First [OF payloadFF_pci [OF assms] f(1) this]
  have "decode_pdu (payloadFF nad sid data) = First nad sid (take 4 data) (length data + 1 - 5)"
    by (simp only: f)
  then show ?thesis by simp
qed

lemma decode_payloadCF:
  assumes "n < 16" and "length part \<le> 6"
  shows "decode_pdu (payloadCF nad n part) =
         Consecutive n (part @ drop (length part) (replicate 6 0xFF))"
proof -
  have "2 \<le> length (payloadCF nad n part)" using payloadCF_simps(1) [OF assms(2)] by simp
  from decode_Consecutive [OF payloadCF_pci(1) [OF assms(2,1)] this] show ?thesis
    by (simp only: payloadCF_pci(2) [OF assms(2,1)] payloadCF_rest [OF assms(2)])
qed

text \<open>
  The assembler, fed the consecutive frames of the rest of a message, stays silent until the
  last frame and then hands over the whole message.
\<close>

lemma assemble_buildCFs:
  assumes "k < length data" and "n < 16" and "length acc = k" and "acc = take k data"
  shows "assemble_all (Assembling nad sid acc (length data - k) n)
           (map decode_pdu (buildCFs nad data k n)) =
         (Idle, replicate (length (buildCFs nad data k n) - 1) None
                  @ [Some \<lparr>NAD = nad, SID = sid, Data = data\<rparr>])"
  using assms
proof (induction "length data - k" arbitrary: k n acc rule: less_induct)
  case less
  let ?n = "(n + 1) mod 16"
  let ?part = "take 6 (drop k data)"
  have n: "?n < 16" by simp
  have part: "length ?part \<le> 6" by simp
  note dec = decode_payloadCF [OF n part]
  show ?case
  proof (cases "length data - k \<le> 6")
    case True
    then have part_eq: "?part = drop k data" by simp
    moreover have "buildCFs nad data (min (k + 6) (length data)) ?n = []"
      using True by (intro buildCFs_done) simp
    ultimately show ?thesis
      using less.prems True dec [unfolded part_eq] by (simp add: buildCFs_step)
  next
    case False
    then have k6: "k + 6 < length data" by simp
    then have m: "min (k + 6) (length data) = k + 6" by simp
    have "length data - (k + 6) < length data - k" using k6 by simp
    from less.hyps [OF this k6 n _ refl]
    have IH: "assemble_all (Assembling nad sid (take (k + 6) data) (length data - (k + 6)) ?n)
           (map decode_pdu (buildCFs nad data (k + 6) ?n)) =
         (Idle, replicate (length (buildCFs nad data (k + 6) ?n) - 1) None
                  @ [Some \<lparr>NAD = nad, SID = sid, Data = data\<rparr>])"
      using k6 by (simp add: min_absorb2)
    let ?rest = "buildCFs nad data (k + 6) ?n"
    have "acc @ ?part = take (k + 6) data" and "length ?part = 6"
      using less.prems k6 by (simp_all add: take_add)
    then have step: "assemble (Assembling nad sid acc (length data - k) n)
                       (decode_pdu (payloadCF nad ?n ?part)) =
                     (Assembling nad sid (take (k + 6) data) (length data - (k + 6)) ?n, None)"
      using False unfolding dec by simp
    obtain l where l: "length ?rest = Suc l"
      using k6 by (simp add: buildCFs_step)
    show ?thesis
      unfolding buildCFs_step [OF less.prems(1)] m list.map assemble_all.simps step
      using IH l by simp
  qed
qed


subsection \<open>What the small operations change\<close>

lemma resetState_sel [simp]:
  "t_remainingBytes (resetState t) = 0" "t_currentFrameData (resetState t) = []"
  "t_currentFrameCounter (resetState t) = 0"
  "t_isSlave (resetState t) = t_isSlave t" "t_channel (resetState t) = t_channel t"
  "t_txQueue (resetState t) = t_txQueue t" "t_rxQueue (resetState t) = t_rxQueue t"
  "t_config (resetState t) = t_config t"
  "t_scheduledTxEvent (resetState t) = t_scheduledTxEvent t"
  "t_awaitingSlaveResponse (resetState t) = t_awaitingSlaveResponse t"
  "t_running (resetState t) = t_running t" "t_closed (resetState t) = t_closed t"
  "t_done (resetState t) = t_done t" "t_wake (resetState t) = t_wake t"
  "t_errors (resetState t) = t_errors t" "t_receiveErrors (resetState t) = t_receiveErrors t"
  by (simp_all add: resetState_def)

lemma resetState_idem [simp]: "resetState (resetState t) = resetState t"
  by (simp add: resetState_def)

lemma reportError_sel [simp]:
  "t_remainingBytes (reportError e t) = t_remainingBytes t"
  "t_currentFrameData (reportError e t) = t_currentFrameData t"
  "t_currentFrameCounter (reportError e t) = t_currentFrameCounter t"
  "t_currentNAD (reportError e t) = t_currentNAD t"
  "t_currentSID (reportError e t) = t_currentSID t"
  "t_isSlave (reportError e t) = t_isSlave t" "t_channel (reportError e t) = t_channel t"
  "t_txQueue (reportError e t) = t_txQueue t" "t_rxQueue (reportError e t) = t_rxQueue t"
  "t_config (reportError e t) = t_config t"
  "t_scheduledTxEvent (reportError e t) = t_scheduledTxEvent t"
  "t_awaitingSlaveResponse (reportError e t) = t_awaitingSlaveResponse t"
  "t_running (reportError e t) = t_running t" "t_closed (reportError e t) = t_closed t"
  "t_done (reportError e t) = t_done t" "t_wake (reportError e t) = t_wake t"
  by (simp_all add: reportError_def Let_def split: option.splits)

lemma deliverMessage_sel [simp]:
  "t_remainingBytes (deliverMessage m t) = t_remainingBytes t"
  "t_currentFrameData (deliverMessage m t) = t_currentFrameData t"
  "t_currentFrameCounter (deliverMessage m t) = t_currentFrameCounter t"
  "t_currentNAD (deliverMessage m t) = t_currentNAD t"
  "t_currentSID (deliverMessage m t) = t_currentSID t"
  "t_isSlave (deliverMessage m t) = t_isSlave t" "t_channel (deliverMessage m t) = t_channel t"
  "t_txQueue (deliverMessage m t) = t_txQueue t"
  "t_config (deliverMessage m t) = t_config t"
  "t_scheduledTxEvent (deliverMessage m t) = t_scheduledTxEvent t"
  "t_awaitingSlaveResponse (deliverMessage m t) = t_awaitingSlaveResponse t"
  "t_running (deliverMessage m t) = t_running t" "t_closed (deliverMessage m t) = t_closed t"
  "t_done (deliverMessage m t) = t_done t" "t_wake (deliverMessage m t) = t_wake t"
  by (simp_all add: deliverMessage_def split: prod.splits sent.splits)

lemma deliverMessage_rx: "t_rxQueue (deliverMessage m t) = fst (try_send m (t_rxQueue t))"
  by (auto simp: deliverMessage_def try_send_def)

lemma deliverMessage_room:
  "\<not> chan_closed (t_rxQueue t) \<Longrightarrow> length (chan_buf (t_rxQueue t)) < chan_cap (t_rxQueue t) \<Longrightarrow>
   deliverMessage m t = t\<lparr>t_rxQueue := (t_rxQueue t)\<lparr>chan_buf := chan_buf (t_rxQueue t) @ [m]\<rparr>\<rparr>"
  by (simp add: deliverMessage_def chan_simps)

subsection \<open>Refinement of the abstract assembler\<close>

text \<open>The counter of the record is a nibble and the byte count is not negative.\<close>

definition assembly_ranges :: "Transport \<Rightarrow> bool" where
  "assembly_ranges t \<longleftrightarrow> 0 \<le> t_remainingBytes t \<and> unat (t_currentFrameCounter t) < 16"

definition relevant :: "LinEvent \<Rightarrow> Transport \<Rightarrow> bool" where
  "relevant event t \<longleftrightarrow>
     ev_Direction event = RX \<and> (isMasterReceiving event t \<or> isSlaveReceiving event t)"

definition delivered :: "LinMessage option \<Rightarrow> LinMessage chan \<Rightarrow> LinMessage chan" where
  "delivered m q = (case m of None \<Rightarrow> q | Some x \<Rightarrow> fst (try_send x q))"

text \<open>The concrete result \<open>r\<close> is what the assembler says for the payload \<open>p\<close>.\<close>

definition matches :: "bool \<times> Transport \<Rightarrow> Transport \<Rightarrow> byte list \<Rightarrow> bool" where
  "matches r t p \<longleftrightarrow>
     (let (a, m) = assemble (assembly_of t) (decode_pdu p)
      in assembly_of (snd r) = a \<and> fst r = (m \<noteq> None) \<and>
         t_rxQueue (snd r) = delivered m (t_rxQueue t))"

lemma assembly_of_resetState [simp]: "assembly_of (resetState t) = Idle"
  by (simp add: assembly_of_def)

lemma assembly_of_deliverMessage [simp]: "assembly_of (deliverMessage m t) = assembly_of t"
  by (simp add: assembly_of_def)

lemma unat_next_counter:
  assumes "unat (c :: byte) < 16"
  shows "unat ((c + 1) mod 16) = (unat c + 1) mod 16"
proof -
  have "unat (c + 1) = unat c + 1"
    using assms by (subst unat_add_lem [THEN iffD1]) simp_all
  then show ?thesis by (simp add: unat_mod_distrib)
qed

lemma receiveSF_matches:
  assumes "2 \<le> length p" and "drop_bit 4 (p ! 1) = SF"
  shows "matches (receiveSF p t) t p"
proof -
  define n where "n = unat (p ! 1 AND 0x0F)"
  have dec: "decode_pdu p = (if 1 \<le> n \<and> n + 2 \<le> length p
        then Single (p ! 0) (p ! 2) (take (n - 1) (drop 3 p)) else Malformed)"
    using assms unfolding decode_pdu_def n_def by (simp add: Let_def)
  have rec: "receiveSF p t =
       (if int (length p) < 3 + (int n - 1) \<or> int n - 1 < 0 then (False, resetState t)
        else (True, deliverMessage \<lparr>NAD = p ! 0, SID = p ! 2,
                Data = take (nat (int n - 1)) (drop 3 p)\<rparr> (resetState t)))"
    unfolding receiveSF_def n_def Let_def by simp
  show ?thesis
  proof (cases "1 \<le> n \<and> n + 2 \<le> length p")
    case True
    then have "nat (int n - 1) = n - 1" by simp
    then show ?thesis
      using True by (simp add: matches_def rec dec delivered_def deliverMessage_rx)
  next
    case False
    then have "int (length p) < 3 + (int n - 1) \<or> int n - 1 < 0" by linarith
    then show ?thesis using False by (simp add: matches_def rec dec delivered_def)
  qed
qed

lemma receiveFF_matches:
  assumes "2 \<le> length p" and "drop_bit 4 (p ! 1) = FF"
  shows "matches (receiveFF now p t) t p"
proof (cases "length p < 8")
  case True
  have "decode_pdu p = Malformed"
    using assms True by (simp add: decode_pdu_def Let_def)
  then show ?thesis using True by (simp add: matches_def receiveFF_def delivered_def)
next
  case False
  define n where "n = push_bit 8 (unat (p ! 1 AND 0x0F)) OR unat (p ! 2)"
  have dec: "decode_pdu p = (if 6 < n \<and> n \<le> 4095
        then First (p ! 0) (p ! 3) (drop 4 p) (n - 5) else Malformed)"
    using assms False unfolding decode_pdu_def n_def by (simp add: Let_def)
  have rec: "receiveFF now p t =
       (if n \<le> 6 \<or> n > 4095 then (False, resetState t)
        else (False, (resetState t)\<lparr>t_remainingBytes := int n - 1 - 4,
                t_currentFrameData := drop 4 p, t_currentNAD := p ! 0,
                t_currentSID := p ! 3, t_multiFrameStartTime := now\<rparr>))"
    using False unfolding receiveFF_def n_def Let_def by simp
  show ?thesis
    by (auto simp: matches_def rec dec delivered_def assembly_of_def nat_diff_distrib')
qed

text \<open>
  The consecutive-frame arm in the vocabulary of the assembler: out of sequence or too short,
  last frame, or one more frame.
\<close>

lemma receiveCF_eq:
  assumes "2 \<le> length p" and "assembly_ranges t" and m: "t_remainingBytes t = int m" "0 < m"
  shows "receiveCF p t =
    (if unat (p ! 1 AND 0x0F) \<noteq> (unat (t_currentFrameCounter t) + 1) mod 16 \<or>
        length (drop 2 p) < min m 6
     then (False, resetState t)
     else
       let t' = t\<lparr>t_remainingBytes := int (m - 6),
                  t_currentFrameData := t_currentFrameData t @ take (min m 6) (drop 2 p),
                  t_currentFrameCounter := (t_currentFrameCounter t + 1) mod 16\<rparr>
       in if m \<le> 6
          then (True, resetState (deliverMessage
                 \<lparr>NAD = t_currentNAD t, SID = t_currentSID t, Data = t_currentFrameData t'\<rparr> t'))
          else (False, t'))"
proof -
  have c: "unat (t_currentFrameCounter t) < 16" using assms(2) by (simp add: assembly_ranges_def)
  have cnt: "p ! 1 AND 0x0F \<noteq> (t_currentFrameCounter t + 1) mod 16 \<longleftrightarrow>
             unat (p ! 1 AND 0x0F) \<noteq> (unat (t_currentFrameCounter t) + 1) mod 16"
    unfolding unat_next_counter [OF c, symmetric] word_unat_eq_iff ..
  have short: "int (length p) < 2 + min (int m) 6 \<longleftrightarrow> length (drop 2 p) < min m 6"
    using assms(1) by auto
  have len: "nat (min (int m) 6) = min m 6" and rest: "int m - min (int m) 6 = int (m - 6)"
    by auto
  have "p ! 1 AND 0x0F = (t_currentFrameCounter t + 1) mod 16"
    if "unat (p ! 1 AND 0x0F) = (unat (t_currentFrameCounter t) + 1) mod 16"
    using that cnt by blast
  then show ?thesis
    unfolding receiveCF_def Let_def m cnt short len rest using \<open>0 < m\<close> by simp
qed

lemma receiveCF_matches:
  assumes "2 \<le> length p" and "drop_bit 4 (p ! 1) = CF" and "assembly_ranges t"
  shows "matches (receiveCF p t) t p"
proof (cases "t_remainingBytes t = 0")
  case True
  then have "assembly_of t = Idle" by (simp add: assembly_of_def)
  then show ?thesis
    using True decode_Consecutive [OF assms(2,1)]
    by (simp add: matches_def receiveCF_def delivered_def)
next
  case False
  then have "0 < t_remainingBytes t" using assms(3) by (simp add: assembly_ranges_def)
  then obtain m where m: "t_remainingBytes t = int m" "0 < m"
    using zero_less_imp_eq_int by blast
  then have asm: "assembly_of t = Assembling (t_currentNAD t) (t_currentSID t)
               (t_currentFrameData t) m (unat (t_currentFrameCounter t))"
    by (simp add: assembly_of_def)
  have "unat ((t_currentFrameCounter t + 1) mod 16) = (unat (t_currentFrameCounter t) + 1) mod 16"
    by (rule unat_next_counter) (use assms(3) in \<open>simp add: assembly_ranges_def\<close>)
  then show ?thesis
    unfolding matches_def receiveCF_eq [OF assms(1,3) m] asm decode_Consecutive [OF assms(2,1)]
    by (simp add: Let_def delivered_def deliverMessage_rx assembly_of_def min_def nat_diff_distrib'
        del: length_drop)
qed

lemma receiveDiagnostic_irrelevant: "\<not> relevant event t \<Longrightarrow> receiveDiagnostic now event t = (False, t)"
  by (auto simp: receiveDiagnostic_def relevant_def)

lemma receiveDiagnostic_relevant:
  "relevant event t \<Longrightarrow> EventPayload event = p \<Longrightarrow>
   receiveDiagnostic now event t =
     (if length p < 2 then (False, t)
      else if drop_bit 4 (p ! 1) = SF then receiveSF p t
      else if drop_bit 4 (p ! 1) = FF then receiveFF now p t
      else if drop_bit 4 (p ! 1) = CF then receiveCF p t
      else (False, t))"
  unfolding receiveDiagnostic_def relevant_def Let_def by (cases p) simp_all

lemma decode_pdu_Ignored:
  "length p < 2 \<or> (drop_bit 4 (p ! 1) \<noteq> SF \<and> drop_bit 4 (p ! 1) \<noteq> FF \<and> drop_bit 4 (p ! 1) \<noteq> CF) \<Longrightarrow>
   decode_pdu p = Ignored"
  unfolding decode_pdu_def Let_def by auto

text \<open>Refinement: every relevant event acts on the assembly as the assembler does.\<close>

lemma receiveDiagnostic_matches:
  assumes "relevant event t" and "assembly_ranges t"
  shows "matches (receiveDiagnostic now event t) t (EventPayload event)"
proof -
  let ?p = "EventPayload event"
  let ?k = "drop_bit 4 (?p ! 1)"
  note eq = receiveDiagnostic_relevant [OF assms(1) refl, of now]
  consider "length ?p < 2 \<or> (?k \<noteq> SF \<and> ?k \<noteq> FF \<and> ?k \<noteq> CF)"
    | "2 \<le> length ?p" "?k = SF" | "2 \<le> length ?p" "?k = FF" | "2 \<le> length ?p" "?k = CF"
    by fastforce
  then show ?thesis
  proof cases
    case 1
    then have "receiveDiagnostic now event t = (False, t)" unfolding eq by auto
    with decode_pdu_Ignored [OF 1] show ?thesis by (simp add: matches_def delivered_def)
  next
    case 2
    with receiveSF_matches [OF 2] show ?thesis unfolding eq by simp
  next
    case 3
    with receiveFF_matches [OF 3] show ?thesis unfolding eq by simp
  next
    case 4
    with receiveCF_matches [OF 4 assms(2)] show ?thesis unfolding eq by simp
  qed
qed


subsection \<open>Invariant of the multi-frame state\<close>

text \<open>
  Every frame of the bus has at most eight bytes. Then, while a message is under construction,
  the bytes held are four from the first frame and six per consecutive frame, the counter is the
  number of consecutive frames modulo 16, and bytes held and bytes missing add up to the
  announced length, which is 6 to 4094 bytes of data.
\<close>

definition assembly_inv :: "Transport \<Rightarrow> bool" where
  "assembly_inv t \<longleftrightarrow> assembly_ranges t \<and>
     (0 < t_remainingBytes t \<longrightarrow>
        (let n = length (t_currentFrameData t)
         in 4 \<le> n \<and> (n - 4) mod 6 = 0 \<and>
            unat (t_currentFrameCounter t) = (n - 4) div 6 mod 16 \<and>
            6 \<le> int n + t_remainingBytes t \<and> int n + t_remainingBytes t \<le> 4094))"

lemma assembly_inv_ranges [intro]: "assembly_inv t \<Longrightarrow> assembly_ranges t"
  by (simp add: assembly_inv_def)

lemma assembly_inv_resetState [simp]: "assembly_inv (resetState t)"
  by (simp add: assembly_inv_def assembly_ranges_def)

lemma assembly_ranges_resetState [simp]: "assembly_ranges (resetState t)"
  by (simp add: assembly_ranges_def)

lemma assembly_inv_deliverMessage [simp]: "assembly_inv (deliverMessage m t) = assembly_inv t"
  by (simp add: assembly_inv_def assembly_ranges_def)

lemma assembly_inv_cong:
  "t_remainingBytes t' = t_remainingBytes t \<Longrightarrow> t_currentFrameData t' = t_currentFrameData t \<Longrightarrow>
   t_currentFrameCounter t' = t_currentFrameCounter t \<Longrightarrow> assembly_inv t' = assembly_inv t"
  by (simp add: assembly_inv_def assembly_ranges_def)

lemma receiveSF_inv: "assembly_inv (snd (receiveSF p t))"
  by (simp add: receiveSF_def Let_def)

lemma receiveFF_inv:
  assumes "length p \<le> 8"
  shows "assembly_inv (snd (receiveFF now p t))"
  using assms by (simp add: receiveFF_def Let_def assembly_inv_def assembly_ranges_def)

lemma div6_next:
  assumes "4 \<le> (n :: nat)" and "(n - 4) mod 6 = 0"
  shows "(n + 6 - 4) mod 6 = 0" and "(n + 6 - 4) div 6 = (n - 4) div 6 + 1"
proof -
  have eq: "n + 6 - 4 = (n - 4) + 6" using assms(1) by simp
  show "(n + 6 - 4) mod 6 = 0" by (simp only: eq mod_add_self2 assms(2))
  show "(n + 6 - 4) div 6 = (n - 4) div 6 + 1" unfolding eq by (rule div_add_self2) simp
qed

lemma receiveCF_inv:
  assumes "2 \<le> length p" and inv: "assembly_inv t"
  shows "assembly_inv (snd (receiveCF p t))"
proof (cases "t_remainingBytes t = 0")
  case True
  then show ?thesis by (simp add: receiveCF_def)
next
  case False
  then have "0 < t_remainingBytes t" using inv by (simp add: assembly_inv_def assembly_ranges_def)
  then obtain m where m: "t_remainingBytes t = int m" "0 < m"
    using zero_less_imp_eq_int by blast
  let ?n = "length (t_currentFrameData t)"
  let ?c = "t_currentFrameCounter t"
  have n: "4 \<le> ?n" "(?n - 4) mod 6 = 0" and c: "unat ?c = (?n - 4) div 6 mod 16"
    and sum: "6 \<le> int ?n + int m" "int ?n + int m \<le> 4094"
    using inv m by (simp_all add: assembly_inv_def Let_def)
  have c16: "unat ?c < 16" by (simp add: c)
  have next_c: "unat ((?c + 1) mod 16) = (?n + 6 - 4) div 6 mod 16"
    unfolding unat_next_counter [OF c16] c div6_next(2) [OF n] by (rule mod_add_left_eq)
  let ?t = "t\<lparr>t_remainingBytes := int (m - 6),
      t_currentFrameData := t_currentFrameData t @ take 6 (drop 2 p),
      t_currentFrameCounter := (?c + 1) mod 16\<rparr>"
  have more: "assembly_inv ?t" if "6 < m" and "6 \<le> length (drop 2 p)"
  proof -
    have "length (t_currentFrameData ?t) = ?n + 6" using that(2) by simp
    then show ?thesis
      using that(1) sum n(1) div6_next(1) [OF n] next_c
      unfolding assembly_inv_def assembly_ranges_def Let_def by simp
  qed
  show ?thesis
    unfolding receiveCF_eq [OF assms(1) assembly_inv_ranges [OF inv] m]
    using more by (auto simp: Let_def)
qed

text \<open>Only the receive path's own fields change.\<close>

definition same_outside_reception :: "Transport \<Rightarrow> Transport \<Rightarrow> bool" where
  "same_outside_reception t t' \<longleftrightarrow>
     t_isSlave t' = t_isSlave t \<and> t_channel t' = t_channel t \<and> t_txQueue t' = t_txQueue t \<and>
     t_config t' = t_config t \<and> t_scheduledTxEvent t' = t_scheduledTxEvent t \<and>
     t_awaitingSlaveResponse t' = t_awaitingSlaveResponse t \<and> t_running t' = t_running t \<and>
     t_closed t' = t_closed t \<and> t_done t' = t_done t \<and> t_wake t' = t_wake t"

lemma receive_frame_cond:
  "same_outside_reception t (snd (receiveSF p t))"
  "same_outside_reception t (snd (receiveFF now p t))"
  "same_outside_reception t (snd (receiveCF p t))"
  by (simp_all add: same_outside_reception_def receiveSF_def receiveFF_def receiveCF_def Let_def)

lemma receiveDiagnostic_same: "same_outside_reception t (snd (receiveDiagnostic now event t))"
  using receive_frame_cond
  by (auto simp: receiveDiagnostic_def Let_def same_outside_reception_def)

lemma receiveDiagnostic_inv:
  assumes "length (EventPayload event) \<le> 8" and "assembly_inv t"
  shows "assembly_inv (snd (receiveDiagnostic now event t))"
  using assms receiveSF_inv receiveFF_inv [OF assms(1)]
    receiveCF_inv [of "EventPayload event", OF _ assms(2)]
  by (auto simp: receiveDiagnostic_def Let_def not_less)

lemma receiveDiagnostic_ranges:
  assumes "assembly_ranges t"
  shows "assembly_ranges (snd (receiveDiagnostic now event t))"
proof -
  let ?p = "EventPayload event"
  have cf: "assembly_ranges (snd (receiveCF p t))" for p
    using assms unat_next_counter [of "t_currentFrameCounter t"]
    by (auto simp: receiveCF_def assembly_ranges_def Let_def)
  have sf: "assembly_ranges (snd (receiveSF p t))" for p
    by (simp add: receiveSF_def Let_def assembly_ranges_def)
  have ff: "assembly_ranges (snd (receiveFF now p t))" for p
    by (auto simp: receiveFF_def Let_def assembly_ranges_def)
  show ?thesis
    using assms cf sf ff by (simp add: receiveDiagnostic_def Let_def)
qed


subsection \<open>Whole messages\<close>

text \<open>The handler's second half run over a list of events, each with its time of arrival.\<close>

fun receiveAll :: "(int \<times> LinEvent) list \<Rightarrow> Transport \<Rightarrow> bool list \<times> Transport" where
  "receiveAll [] t = ([], t)"
| "receiveAll ((now, e) # es) t =
     (let (b, t) = receiveDiagnostic now e t; (bs, t) = receiveAll es t in (b # bs, t))"

fun delivered_all :: "LinMessage option list \<Rightarrow> LinMessage chan \<Rightarrow> LinMessage chan" where
  "delivered_all [] q = q"
| "delivered_all (m # ms) q = delivered_all ms (delivered m q)"

lemma relevant_same: "same_outside_reception t t' \<Longrightarrow> relevant e t' = relevant e t"
  by (simp add: same_outside_reception_def relevant_def isMasterReceiving_def isSlaveReceiving_def)

lemma receiveAll_matches:
  assumes "\<forall>e \<in> set (map snd es). relevant e t" and "assembly_ranges t"
  shows "let (a, ms) = assemble_all (assembly_of t) (map (\<lambda>x. decode_pdu (EventPayload (snd x))) es);
             (bs, t') = receiveAll es t
         in assembly_of t' = a \<and> bs = map (\<lambda>m. m \<noteq> None) ms \<and>
            t_rxQueue t' = delivered_all ms (t_rxQueue t) \<and> assembly_ranges t' \<and>
            same_outside_reception t t'"
  using assms
proof (induction es arbitrary: t)
  case Nil
  then show ?case by (simp add: same_outside_reception_def)
next
  case (Cons x es)
  obtain now e where x: "x = (now, e)" by (cases x)
  obtain b t1 where r: "receiveDiagnostic now e t = (b, t1)" by fastforce
  obtain a m where a: "assemble (assembly_of t) (decode_pdu (EventPayload e)) = (a, m)" by fastforce
  obtain a' ms where as: "assemble_all a (map (\<lambda>x. decode_pdu (EventPayload (snd x))) es) = (a', ms)"
    by fastforce
  obtain bs t2 where r2: "receiveAll es t1 = (bs, t2)" by fastforce
  have "matches (b, t1) t (EventPayload e)"
    using receiveDiagnostic_matches [of e t now] Cons.prems x r by simp
  then have one: "assembly_of t1 = a" "b = (m \<noteq> None)" "t_rxQueue t1 = delivered m (t_rxQueue t)"
    by (simp_all add: matches_def a)
  have same: "same_outside_reception t t1" using receiveDiagnostic_same [of t now e] r by simp
  have ranges: "assembly_ranges t1"
    using receiveDiagnostic_ranges [OF Cons.prems(2), of now e] r by simp
  have "\<forall>e \<in> set (map snd es). relevant e t1"
    using Cons.prems(1) relevant_same [OF same] by simp
  from Cons.IH [OF this ranges] have "assembly_of t2 = a'" "bs = map (\<lambda>m. m \<noteq> None) ms"
    "t_rxQueue t2 = delivered_all ms (t_rxQueue t1)" "assembly_ranges t2"
    "same_outside_reception t1 t2"
    by (simp_all add: one(1) as r2)
  then show ?case
    using same unfolding same_outside_reception_def by (simp add: x r r2 a as one)
qed

text \<open>The frames of a message, decoded and assembled from any state of the assembler.\<close>

lemma assemble_frames:
  assumes "length data \<le> maxTransportDataLength"
  shows "assemble_all a (map decode_pdu
           (if length data \<le> 5 then [payloadSF nad sid data]
            else payloadFF nad sid data # buildCFs nad data 4 0)) =
         (Idle, replicate (if length data \<le> 5 then 0 else length (buildCFs nad data 4 0)) None
                  @ [Some \<lparr>NAD = nad, SID = sid, Data = data\<rparr>])"
proof (cases "length data \<le> 5")
  case True
  then show ?thesis by (simp add: decode_payloadSF)
next
  case False
  then have len: "5 < length data" by simp
  obtain l where l: "length (buildCFs nad data 4 0) = Suc l"
    using len by (simp add: buildCFs_step)
  have "assemble_all (Assembling nad sid (take 4 data) (length data - 4) 0)
          (map decode_pdu (buildCFs nad data 4 0)) =
        (Idle, replicate l None @ [Some \<lparr>NAD = nad, SID = sid, Data = data\<rparr>])"
    using assemble_buildCFs [of 4 data 0 "take 4 data" nad sid] len l by simp
  then show ?thesis
    using len l by (simp add: decode_payloadFF [OF len assms])
qed

lemma delivered_all_last:
  "delivered_all (replicate n None @ [m]) q = delivered m q"
  by (induction n) (simp_all add: delivered_def)

lemma buildFrames_payloads:
  "buildFrames s nad sid data = Inr frames \<Longrightarrow>
   length data \<le> maxTransportDataLength \<and>
   map EventPayload frames =
     (if length data \<le> 5 then [payloadSF nad sid data]
      else payloadFF nad sid data # buildCFs nad data 4 0) \<and>
   (\<forall>f \<in> set frames. ev_Channel f = t_channel s \<and> ev_ChecksumType f = ClassicChecksum \<and>
      EventID f = (if t_isSlave s then SlaveDiagnosticFrameID else MasterDiagnosticFrameID))"
  by (auto simp: buildFrames_def Let_def diagnosticEvent_def comp_def split: if_splits)

text \<open>An event that carries a frame over the bus to the other side.\<close>

definition carries :: "LinEvent \<Rightarrow> LinEvent \<Rightarrow> bool" where
  "carries e f \<longleftrightarrow> EventID e = EventID f \<and> EventPayload e = EventPayload f \<and> ev_Direction e = RX"

lemma carries_payloads:
  "list_all2 (\<lambda>e f. carries (snd e) f) es frames \<Longrightarrow>
   map (\<lambda>x. EventPayload (snd x)) es = map EventPayload frames"
  by (induction es frames rule: list_all2_induct) (simp_all add: carries_def)

lemma carries_relevant:
  assumes "list_all2 (\<lambda>e f. carries (snd e) f) es frames"
    and "\<forall>f \<in> set frames. EventID f =
          (if t_isSlave s then SlaveDiagnosticFrameID else MasterDiagnosticFrameID)"
    and "t_isSlave t \<noteq> t_isSlave s"
  shows "\<forall>e \<in> set (map snd es). relevant e t"
  using assms
  by (induction es frames rule: list_all2_induct)
     (auto simp: carries_def relevant_def isMasterReceiving_def isSlaveReceiving_def)

lemma buildFrames_carries:
  "buildFrames s nad sid data = Inr fs \<Longrightarrow> list_all2 (\<lambda>e f. carries (snd e) f) (map (Pair now) fs) fs"
  by (auto simp: list_all2_map1 list.rel_eq list_all2_same carries_def buildFrames_def diagnosticEvent_def Let_def
      split: if_splits)

text \<open>
  C1: Segmentation and reassembly are inverse to each other. When a transport cuts a message of
  up to 4094 data bytes into frames and a transport of the other role receives these frames in
  order, whatever its multi-frame state was before, the receiver reports a complete message
  exactly at the last frame, appends exactly the message sent (same address, service identifier
  and data) to its receive queue, and is idle again.
\<close>

theorem segmentation_roundtrip:
  assumes "buildFrames s nad sid data = Inr frames"
    and "t_isSlave t \<noteq> t_isSlave s"
    and "list_all2 (\<lambda>e f. carries (snd e) f) es frames"
    and "assembly_ranges t"
    and "\<not> chan_closed (t_rxQueue t)"
    and "length (chan_buf (t_rxQueue t)) < chan_cap (t_rxQueue t)"
  shows "fst (receiveAll es t) = replicate (length frames - 1) False @ [True] \<and>
         chan_buf (t_rxQueue (snd (receiveAll es t))) =
           chan_buf (t_rxQueue t) @ [\<lparr>NAD = nad, SID = sid, Data = data\<rparr>] \<and>
         assembly_of (snd (receiveAll es t)) = Idle"
proof -
  let ?pl = "if length data \<le> 5 then [payloadSF nad sid data]
             else payloadFF nad sid data # buildCFs nad data 4 0"
  let ?n = "if length data \<le> 5 then 0 else length (buildCFs nad data 4 0)"
  let ?msg = "\<lparr>NAD = nad, SID = sid, Data = data\<rparr>"
  note b = buildFrames_payloads [OF assms(1)]
  then have len: "length data \<le> maxTransportDataLength" and pl: "map EventPayload frames = ?pl"
    by blast+
  have rel: "\<forall>e \<in> set (map snd es). relevant e t"
    using carries_relevant [OF assms(3) _ assms(2)] b by blast
  have n: "length frames - 1 = ?n" using arg_cong [OF pl, of length] by auto
  have "map (\<lambda>x. decode_pdu (EventPayload (snd x))) es = map decode_pdu ?pl"
    using arg_cong [OF carries_payloads [OF assms(3)], of "map decode_pdu"]
    unfolding pl by (simp add: comp_def)
  then have asm: "assemble_all (assembly_of t) (map (\<lambda>x. decode_pdu (EventPayload (snd x))) es) =
      (Idle, replicate ?n None @ [Some ?msg])"
    using assemble_frames [OF len] by simp
  have "t_rxQueue (snd (receiveAll es t)) = delivered (Some ?msg) (t_rxQueue t)"
    and "fst (receiveAll es t) = map (\<lambda>m. m \<noteq> None) (replicate ?n None @ [Some ?msg])"
    and "assembly_of (snd (receiveAll es t)) = Idle"
    using receiveAll_matches [OF rel assms(4)] unfolding asm delivered_all_last [symmetric]
    by (auto simp: case_prod_beta delivered_all_last simp del: map_append)
  then show ?thesis
    using assms(5,6) n by (simp add: delivered_def try_send_room)
qed


theorem segmentation_roundtrip_witness:
  "chan_buf (t_rxQueue (snd (receiveAll
      (map (Pair 0) (projr (buildFrames (NewTransport False []) 0x10 0x2E [1, 2, 3, 4, 5, 6, 7, 8, 9, 10, 11])))
      (NewTransport True [])))) =
   [\<lparr>NAD = 0x10, SID = 0x2E, Data = [1, 2, 3, 4, 5, 6, 7, 8, 9, 10, 11]\<rparr>]"
proof -
  let ?d = "[1, 2, 3, 4, 5, 6, 7, 8, 9, 10, 11] :: byte list"
  let ?s = "NewTransport False []" and ?t = "NewTransport True []"
  obtain fs where fs: "buildFrames ?s 0x10 0x2E ?d = Inr fs"
    by (simp add: buildFrames_def Let_def)
  show ?thesis
    using segmentation_roundtrip [OF fs _ buildFrames_carries [OF fs, of 0], of ?t]
    unfolding fs sum.sel
    by (simp add: NewTransport_def assembly_ranges_def normalizeTransportConfig_def DefaultTransportConfig_def)
qed

subsection \<open>The handler case by case\<close>

lemma receiveFromDriver_receive:
  "\<not> (t_isSlave t \<and> ev_Direction e = TX \<and> t_scheduledTxEvent t \<noteq> None) \<Longrightarrow>
   receiveFromDriver drv clock e t d =
     (fst (receiveDiagnostic (clock d) e t), snd (receiveDiagnostic (clock d) e t), d)"
  unfolding receiveFromDriver_def Let_def by (simp only: if_False case_prod_beta)

lemma receiveFromDriver_other:
  "t_isSlave t \<Longrightarrow> ev_Direction e = TX \<Longrightarrow> t_scheduledTxEvent t = Some s \<Longrightarrow>
   EventID s \<noteq> EventID e \<Longrightarrow> receiveFromDriver drv clock e t d = (False, t, d)"
  by (simp add: receiveFromDriver_def)

lemma receiveFromDriver_last:
  "t_isSlave t \<Longrightarrow> ev_Direction e = TX \<Longrightarrow> t_scheduledTxEvent t = Some s \<Longrightarrow>
   EventID s = EventID e \<Longrightarrow> chan_buf (t_txQueue t) = [] \<Longrightarrow>
   receiveFromDriver drv clock e t d = (False, t\<lparr>t_scheduledTxEvent := None\<rparr>, d)"
  by (simp add: receiveFromDriver_def try_recv.simps)

lemma receiveFromDriver_next:
  "t_isSlave t \<Longrightarrow> ev_Direction e = TX \<Longrightarrow> t_scheduledTxEvent t = Some s \<Longrightarrow>
   EventID s = EventID e \<Longrightarrow> chan_buf (t_txQueue t) = f # fs \<Longrightarrow>
   receiveFromDriver drv clock e t d =
     (False, t\<lparr>t_txQueue := (t_txQueue t)\<lparr>chan_buf := fs\<rparr>, t_scheduledTxEvent := Some f\<rparr>,
      snd (ScheduleSlaveResponse drv (Some f) (t_channel t) d))"
  by (simp add: receiveFromDriver_def try_recv.simps Let_def case_prod_beta)

text \<open>The five ways the handler can go, for case distinctions.\<close>

lemma receiveFromDriver_cases:
  obtains (receive) "receiveFromDriver drv clock e t d =
      (fst (receiveDiagnostic (clock d) e t), snd (receiveDiagnostic (clock d) e t), d)"
  | (other) "t_isSlave t" "receiveFromDriver drv clock e t d = (False, t, d)"
  | (last) s where "t_isSlave t" "t_scheduledTxEvent t = Some s"
      "receiveFromDriver drv clock e t d = (False, t\<lparr>t_scheduledTxEvent := None\<rparr>, d)"
  | (next_frame) s f fs where "t_isSlave t" "t_scheduledTxEvent t = Some s"
      "chan_buf (t_txQueue t) = f # fs"
      "receiveFromDriver drv clock e t d =
        (False, t\<lparr>t_txQueue := (t_txQueue t)\<lparr>chan_buf := fs\<rparr>, t_scheduledTxEvent := Some f\<rparr>,
         snd (ScheduleSlaveResponse drv (Some f) (t_channel t) d))"
proof (cases "t_isSlave t \<and> ev_Direction e = TX \<and> t_scheduledTxEvent t \<noteq> None")
  case False
  then show ?thesis by (rule receive [OF receiveFromDriver_receive])
next
  case True
  then obtain s where s: "t_isSlave t" "ev_Direction e = TX" "t_scheduledTxEvent t = Some s"
    by blast
  show ?thesis
  proof (cases "EventID s = EventID e")
    case False
    then show ?thesis by (rule other [OF s(1) receiveFromDriver_other [OF s]])
  next
    case eq: True
    show ?thesis
    proof (cases "chan_buf (t_txQueue t)")
      case Nil
      then show ?thesis by (rule last [OF s(1,3) receiveFromDriver_last [OF s eq]])
    next
      case (Cons f fs)
      then show ?thesis
        by (rule next_frame [OF s(1,3) Cons receiveFromDriver_next [OF s eq]])
    qed
  qed
qed

end
