(* ===== verification/Transport.thy ===== *)
theory Transport
  imports Transport_Receive
begin

section \<open>Operations of the transport (\<^verbatim>\<open>tplin/transport.go\<close>)\<close>

text \<open>
  Sending, polling, and receiving. \<open>execute\<close> is one cycle of the background goroutine, over any
  driver; \<open>ReceiveBlocking\<close> is the blocking \<^verbatim>\<open>select\<close> of a caller, over an environment that
  says what the rest of the program does meanwhile. The read loop of a cycle and the blocking
  wait may run for ever, so both are \<open>None\<close> then; the locales \<open>finite_driver\<close> and \<open>live_env\<close>
  say when they return.
\<close>

definition shouldRequestSlaveResponse :: "Transport \<Rightarrow> bool" where
  "shouldRequestSlaveResponse t \<longleftrightarrow>
     (if ContinuousSlavePoll (t_config t) then True
      else if t_awaitingSlaveResponse t then True
      else let ongoing = t_remainingBytes t > 0 in ongoing)"

definition StopAwaitingSlaveResponse :: "Transport \<Rightarrow> Transport" where
  "StopAwaitingSlaveResponse t = t\<lparr>t_awaitingSlaveResponse := False\<rparr>"

definition signal_wake :: "Transport \<Rightarrow> Transport" where
  "signal_wake t = t\<lparr>t_wake := fst (try_send () (t_wake t))\<rparr>"

definition SetAwaitingSlaveResponse :: "bool \<Rightarrow> Transport \<Rightarrow> Transport" where
  "SetAwaitingSlaveResponse awaiting t =
     (if \<not> awaiting then StopAwaitingSlaveResponse t
      else signal_wake (t\<lparr>t_awaitingSlaveResponse := True\<rparr>))"

definition Transmit :: "byte \<Rightarrow> byte \<Rightarrow> byte list \<Rightarrow> Transport \<Rightarrow> error option \<times> Transport" where
  "Transmit nad sid data t =
     (case buildFrames t nad sid data of
        Inl err \<Rightarrow> (Some err, t)
      | Inr frames \<Rightarrow>
          if t_closed t then (Some ErrTransportClosed, t)
          else
            let room = int (chan_cap (t_txQueue t)) - int (chan_len (t_txQueue t))
            in if int (length frames) > room
               then (Some (Wrapped ''need slots, have'' [int (length frames), room] ErrTxQueueFull), t)
               else
                 let t = t\<lparr>t_txQueue := send_all frames (t_txQueue t)\<rparr>;
                     t = (if \<not> t_isSlave t then t\<lparr>t_awaitingSlaveResponse := True\<rparr> else t)
                 in (None, signal_wake t))"

definition Receive :: "Transport \<Rightarrow> LinMessage option \<times> Transport" where
  "Receive t =
     (case try_recv (t_rxQueue t) of
        (q, Received msg) \<Rightarrow> (Some msg, t\<lparr>t_rxQueue := q\<rparr>)
      | _ \<Rightarrow> (None, t))"

subsection \<open>One cycle of the goroutine\<close>

partial_function (option) read_events ::
    "'d Driver \<Rightarrow> ('d \<Rightarrow> int) \<Rightarrow> int \<Rightarrow> bool \<Rightarrow> Transport \<Rightarrow> 'd \<Rightarrow>
     (error option \<times> bool \<times> Transport \<times> 'd) option" where
  "read_events drv clock readTimeout received t d =
     (case ReadEvent drv readTimeout (t_channel t) d of
        None \<Rightarrow> None
      | Some (Inl err, d) \<Rightarrow>
          Some (Some (Wrapped ''failed to read event from driver'' [] err), received, t, d)
      | Some (Inr None, d) \<Rightarrow> Some (None, received, t, d)
      | Some (Inr (Some event), d) \<Rightarrow>
          (case receiveFromDriver drv clock event t d of
             (complete, t, d) \<Rightarrow>
               read_events drv clock readTimeout (if complete then True else received) t d))"

definition slave_send :: "'d Driver \<Rightarrow> Transport \<Rightarrow> 'd \<Rightarrow> error option \<times> Transport \<times> 'd" where
  "slave_send drv t d =
     (if t_scheduledTxEvent t = None then
        case try_recv (t_txQueue t) of
          (q, Received event) \<Rightarrow>
            let t = t\<lparr>t_txQueue := q\<rparr>
            in case ScheduleSlaveResponse drv (Some event) (t_channel t) d of
                 (Some err, d) \<Rightarrow>
                   (Some (Wrapped ''slave failed to schedule response'' [] err), t, d)
               | (None, d) \<Rightarrow> (None, t\<lparr>t_scheduledTxEvent := Some event\<rparr>, d)
        | _ \<Rightarrow> (None, t, d)
      else (None, t, d))"

definition master_send ::
    "'d Driver \<Rightarrow> bool \<Rightarrow> Transport \<Rightarrow> 'd \<Rightarrow> error option \<times> Transport \<times> 'd" where
  "master_send drv receivedCompleteMessage t d =
     (case try_recv (t_txQueue t) of
        (q, Received event) \<Rightarrow>
          let t = t\<lparr>t_txQueue := q\<rparr>
          in case WriteMessage drv (Some event) (t_channel t) d of
               (Some err, d) \<Rightarrow> (Some (Wrapped ''master failed to write message'' [] err), t, d)
             | (None, d) \<Rightarrow> (None, t, d)
      | _ \<Rightarrow>
          if \<not> receivedCompleteMessage \<and> shouldRequestSlaveResponse t then
            case RequestSlaveResponse drv SlaveDiagnosticFrameID (t_channel t) d of
              (Some err, d) \<Rightarrow>
                (Some (Wrapped ''master failed to request slave response'' [] err), t, d)
            | (None, d) \<Rightarrow> (None, t, d)
          else (None, t, d))"

definition execute ::
    "'d Driver \<Rightarrow> ('d \<Rightarrow> int) \<Rightarrow> Transport \<Rightarrow> 'd \<Rightarrow> (error option \<times> Transport \<times> 'd) option" where
  "execute drv clock t d =
     (if t_closed t then Some (Some ErrTransportClosed, t, d)
      else
        let t = checkMultiFrameTimeout (clock d) t;
            masterActive = (\<not> t_isSlave t \<and>
              (chan_len (t_txQueue t) > 0 \<or> shouldRequestSlaveResponse t))
        in if \<not> t_isSlave t \<and> \<not> masterActive then Some (None, t, d)
           else
             let readTimeout =
                   (if \<not> t_isSlave t \<and> masterActive then 0 else ReadTimeout (t_config t))
             in case read_events drv clock readTimeout False t d of
                  None \<Rightarrow> None
                | Some (Some err, received, t, d) \<Rightarrow> Some (Some err, t, d)
                | Some (None, received, t, d) \<Rightarrow>
                    Some (if t_isSlave t then slave_send drv t d
                          else master_send drv received t d))"

subsection \<open>Lifecycle\<close>

text \<open>
  \<open>Run\<close> marks the transport as running (the goroutine is the environment of the caller, below).
  A turn of the goroutine, on a wake-up or a tick of the timer, is one cycle whose error is
  reported. \<open>Close\<close> marks the transport as closed, waits for the goroutine, and then closes the
  two error channels and \<^verbatim>\<open>done\<close>; a second \<open>Close\<close> only waits.
\<close>

definition Run :: "Transport \<Rightarrow> Transport" where
  "Run t = (if t_running t \<or> t_closed t then t else t\<lparr>t_running := True\<rparr>)"

datatype trigger = Wake | Tick

definition goroutine_turn ::
    "'d Driver \<Rightarrow> ('d \<Rightarrow> int) \<Rightarrow> trigger \<Rightarrow> Transport \<Rightarrow> 'd \<Rightarrow> (Transport \<times> 'd) option" where
  "goroutine_turn drv clock trigger t d =
     (let t = (if trigger = Wake then t\<lparr>t_wake := fst (try_recv (t_wake t))\<rparr> else t)
      in case execute drv clock t d of
           None \<Rightarrow> None
         | Some (err, t, d) \<Rightarrow> Some (reportError err t, d))"

definition close_begin :: "Transport \<Rightarrow> Transport" where
  "close_begin t = t\<lparr>t_closed := True\<rparr>"

definition close_end :: "Transport \<Rightarrow> Transport" where
  "close_end t =
     t\<lparr>t_errors := close_chan (t_errors t), t_receiveErrors := close_chan (t_receiveErrors t),
       t_done := True\<rparr>"

definition Close :: "Transport \<Rightarrow> Transport" where
  "Close t = (if t_closed t then t else close_end (close_begin t))"

subsection \<open>Blocking receive\<close>

text \<open>
  The cases of the \<^verbatim>\<open>select\<close> that are ready, with their results. Go picks any of them: the
  choice is a parameter, as is everything that happens while nothing is ready (a turn of the
  rest of the program, which moves the clock).
\<close>

record 'd Env =
  Clock :: "'d \<Rightarrow> int"
  Pick :: "'d \<Rightarrow> nat"
  Turn :: "Transport \<Rightarrow> 'd \<Rightarrow> (Transport \<times> 'd) option"

definition receive_ready ::
    "Context \<Rightarrow> int \<Rightarrow> Transport \<Rightarrow> ((error + LinMessage) \<times> Transport) list" where
  "receive_ready ctx now t =
     (case try_recv (t_rxQueue t) of
        (q, Received msg) \<Rightarrow> [(Inr msg, t\<lparr>t_rxQueue := q\<rparr>)] | _ \<Rightarrow> []) @
     (case try_recv (t_receiveErrors t) of
        (q, Received err) \<Rightarrow> [(Inl err, t\<lparr>t_receiveErrors := q\<rparr>)]
      | (q, Closed) \<Rightarrow> [(Inl ErrTransportClosed, t)]
      | _ \<Rightarrow> []) @
     (if t_done t then [(Inl ErrTransportClosed, t)] else []) @
     (case ctx_Err now ctx of Some err \<Rightarrow> [(Inl err, t)] | None \<Rightarrow> [])"

partial_function (option) ReceiveBlocking ::
    "'d Env \<Rightarrow> Context \<Rightarrow> Transport \<Rightarrow> 'd \<Rightarrow> ((error + LinMessage) \<times> Transport \<times> 'd) option" where
  "ReceiveBlocking env ctx t d =
     (case receive_ready ctx (Clock env d) t of
        [] \<Rightarrow> (case Turn env t d of
                 None \<Rightarrow> None
               | Some (t, d) \<Rightarrow> ReceiveBlocking env ctx t d)
      | r # rs \<Rightarrow>
          (case (r # rs) ! (Pick env d mod length (r # rs)) of
             (result, t) \<Rightarrow> Some (result, t, d)))"


subsection \<open>A cycle always ends on a driver that runs dry\<close>

lemma receiveFromDriver_channel:
  "receiveFromDriver drv clock e t d = (b, t', d') \<Longrightarrow>
   t_channel t' = t_channel t \<and> t_isSlave t' = t_isSlave t \<and> t_config t' = t_config t \<and>
   t_closed t' = t_closed t"
  using receiveDiagnostic_same [of t "clock d" e]
  by (cases rule: receiveFromDriver_cases [of drv clock e t d])
     (auto simp: same_outside_reception_def)

context finite_driver
begin

lemma receive_keeps_waiting:
  "receiveFromDriver drv clock e t d = (b, t', d') \<Longrightarrow>
   waiting (t_channel t) d' \<le> waiting (t_channel t) d"
  using schedule_keeps [OF surjective_pairing]
  by (cases rule: receiveFromDriver_cases [of drv clock e t d]) auto

lemma read_events_returns: "\<exists>r. read_events drv clock rt b t d = Some r"
proof (induction "waiting (t_channel t) d" arbitrary: b t d rule: less_induct)
  case less
  show ?case
  proof (cases "ReadEvent drv rt (t_channel t) d")
    case None
    then show ?thesis using read_returns by blast
  next
    case (Some x)
    then obtain res d1 where read: "ReadEvent drv rt (t_channel t) d = Some (res, d1)" by (cases x) simp
    show ?thesis
    proof (cases "\<exists>ev. res = Inr (Some ev)")
      case True
      then obtain ev where ev: "res = Inr (Some ev)" by blast
      obtain c t2 d2 where r: "receiveFromDriver drv clock ev t d1 = (c, t2, d2)"
        by (cases "receiveFromDriver drv clock ev t d1") auto
      have "waiting (t_channel t) d1 < waiting (t_channel t) d"
        using read_shrinks read ev by blast
      then have "waiting (t_channel t2) d2 < waiting (t_channel t) d"
        using receive_keeps_waiting [OF r] receiveFromDriver_channel [OF r] by simp
      from less.hyps [OF this] show ?thesis
        by (subst read_events.simps) (simp add: read ev r)
    next
      case False
      then show ?thesis
        by (subst read_events.simps) (auto simp: read split: sum.splits option.splits)
    qed
  qed
qed

lemma execute_returns: "\<exists>r. execute drv clock t d = Some r"
proof -
  let ?t = "checkMultiFrameTimeout (clock d) t"
  define active where "active = (\<not> t_isSlave ?t \<and>
    (chan_len (t_txQueue ?t) > 0 \<or> shouldRequestSlaveResponse ?t))"
  obtain err received t' d' where
    "read_events drv clock (if \<not> t_isSlave ?t \<and> active then 0 else ReadTimeout (t_config ?t))
       False ?t d = Some (err, received, t', d')"
    using read_events_returns by (metis prod_cases4)
  then show ?thesis
    unfolding execute_def Let_def active_def [symmetric] by (cases err) (simp_all del: split_paired_Ex)
qed

end

subsection \<open>A closed transport and an idle master do not touch the driver\<close>

lemma execute_closed: "t_closed t \<Longrightarrow> execute drv clock t d = Some (Some ErrTransportClosed, t, d)"
  by (simp add: execute_def)

lemma checkMultiFrameTimeout_sel [simp]:
  "t_isSlave (checkMultiFrameTimeout now t) = t_isSlave t"
  "t_channel (checkMultiFrameTimeout now t) = t_channel t"
  "t_txQueue (checkMultiFrameTimeout now t) = t_txQueue t"
  "t_rxQueue (checkMultiFrameTimeout now t) = t_rxQueue t"
  "t_config (checkMultiFrameTimeout now t) = t_config t"
  "t_closed (checkMultiFrameTimeout now t) = t_closed t"
  "t_awaitingSlaveResponse (checkMultiFrameTimeout now t) = t_awaitingSlaveResponse t"
  "t_scheduledTxEvent (checkMultiFrameTimeout now t) = t_scheduledTxEvent t"
  by (simp_all add: checkMultiFrameTimeout_def Let_def)

text \<open>What makes a master active: frames to send, a response awaited, or half a message.\<close>

definition master_idle :: "Transport \<Rightarrow> bool" where
  "master_idle t \<longleftrightarrow> \<not> t_isSlave t \<and> chan_buf (t_txQueue t) = [] \<and>
     \<not> ContinuousSlavePoll (t_config t) \<and> \<not> t_awaitingSlaveResponse t \<and> t_remainingBytes t \<le> 0"

lemma execute_idle:
  assumes "master_idle t" and "\<not> t_closed t"
  shows "execute drv clock t d = Some (None, t, d)"
  using assms
  by (simp add: execute_def master_idle_def shouldRequestSlaveResponse_def chan_len_def
      checkMultiFrameTimeout_def Let_def)

text \<open>
  An open master that has work (and did not just time out) starts its cycle by reading the
  driver without blocking.
\<close>

lemma execute_active_reads:
  assumes "\<not> t_isSlave t" and "\<not> t_closed t" and "0 < t_remainingBytes t"
    and "clock d - t_multiFrameStartTime t \<le> MultiFrameTimeout (t_config t)"
  shows "execute drv clock t d =
    (case read_events drv clock 0 False t d of
       None \<Rightarrow> None
     | Some (Some err, received, t, d) \<Rightarrow> Some (Some err, t, d)
     | Some (None, received, t, d) \<Rightarrow>
         Some (if t_isSlave t then slave_send drv t d else master_send drv received t d))"
  using assms
  by (simp add: execute_def checkMultiFrameTimeout_def shouldRequestSlaveResponse_def Let_def)

subsection \<open>Running a transport symbolically\<close>

text \<open>
  The program's definitions as one set of rewrite rules: the loops are the recursion equations,
  guarded by their conditions. In \<open>ticking\<close> only time passes.
\<close>

lemmas transport_run = NewTransport_def NewTransportWithConfig_def
  normalizeTransportConfig_def DefaultTransportConfig_def Run_def make_chan_def Transmit_def
  buildFrames_def diagnosticEvent_def payloadSF_def newDiagnosticFramePayload_def copy_at_def
  signal_wake_def chan_len_def try_send_def execute_def checkMultiFrameTimeout_def
  shouldRequestSlaveResponse_def slave_send_def master_send_def try_recv.simps
  receiveFromDriver_def receiveDiagnostic_def isMasterReceiving_def isSlaveReceiving_def
  receiveSF_def resetState_def deliverMessage_def reportError_def Receive_def goroutine_turn_def
  receive_ready_def StopAwaitingSlaveResponse_def read_events.simps ReceiveBlocking.simps

definition ticking :: "int Env" where
  "ticking = \<lparr>Clock = \<lambda>d. d, Pick = \<lambda>_. 0, Turn = \<lambda>t d. Some (t, d + 1)\<rparr>"

end
