(* ===== verification/Transport_Cycle.thy ===== *)
theory Transport_Cycle
  imports Transport
begin

section \<open>Invariants of a cycle, and what it hands to the driver\<close>

text \<open>
  A rule for invariants of \<open>execute\<close>, and its uses: the queues stay within their capacity, the
  multi-frame state stays consistent, and the frames a transport hands to its driver followed
  by the frames still queued form one sequence that a cycle never changes. The last is stated
  over the locale \<open>logging_driver\<close>, of which every driver is an instance once its calls are
  recorded (\<open>traced\<close>).
\<close>

subsection \<open>The rules\<close>

lemma read_events_invariant:
  assumes "read_events drv clock rt b t d = Some (err, b', t', d')" and "I t d"
    and quiet: "\<And>rt t d r d'. I t d \<Longrightarrow> ReadEvent drv rt (t_channel t) d = Some (r, d') \<Longrightarrow> I t d'"
    and event: "\<And>rt t d ev d0 d1 c t2 d2. I t d0 \<Longrightarrow> I t d1 \<Longrightarrow>
      ReadEvent drv rt (t_channel t) d0 = Some (Inr (Some ev), d1) \<Longrightarrow>
      receiveFromDriver drv clock ev t d1 = (c, t2, d2) \<Longrightarrow> I t2 d2"
  shows "I t' d'"
proof -
  define P where "P cl b t d res \<longleftrightarrow>
      (cl = clock \<longrightarrow> I t d \<longrightarrow> I (fst (snd (snd res))) (snd (snd (snd res))))"
    for cl :: "'a \<Rightarrow> int" and b :: bool and t d and res :: "error option \<times> bool \<times> Transport \<times> 'a"
  have "P clock b t d (err, b', t', d')"
  proof (rule read_events.raw_induct [where P = "\<lambda>drv' cl rt b t d res. drv' = drv \<longrightarrow> P cl b t d res",
        OF _ assms(1), THEN mp, OF _ refl], intro impI)
    fix rec :: "'a Driver \<Rightarrow> ('a \<Rightarrow> int) \<Rightarrow> int \<Rightarrow> bool \<Rightarrow> Transport \<Rightarrow> 'a \<Rightarrow>
        (error option \<times> bool \<times> Transport \<times> 'a) option"
    fix drv' cl rt b t d res
    assume IH: "\<And>drv' cl rt b t d res. rec drv' cl rt b t d = Some res \<Longrightarrow> drv' = drv \<longrightarrow> P cl b t d res"
      and body: "(case ReadEvent drv' rt (t_channel t) d of
          None \<Rightarrow> None
        | Some (Inl err, d) \<Rightarrow>
            Some (Some (Wrapped ''failed to read event from driver'' [] err), b, t, d)
        | Some (Inr None, d) \<Rightarrow> Some (None, b, t, d)
        | Some (Inr (Some event), d) \<Rightarrow>
            (case receiveFromDriver drv' cl event t d of
               (complete, t, d) \<Rightarrow> rec drv' cl rt (if complete then True else b) t d)) = Some res"
      and drv': "drv' = drv"
    show "P cl b t d res"
      unfolding P_def
    proof (intro impI)
      assume cl: "cl = clock" and I: "I t d"
      obtain r d1 where r: "ReadEvent drv rt (t_channel t) d = Some (r, d1)"
        using body drv' by (cases "ReadEvent drv rt (t_channel t) d") auto
      from quiet [OF I r] have I1: "I t d1" .
      show "I (fst (snd (snd res))) (snd (snd (snd res)))"
      proof (cases "\<exists>ev. r = Inr (Some ev)")
        case True
        then obtain ev where ev: "r = Inr (Some ev)" by blast
        obtain c t2 d2 where rcv: "receiveFromDriver drv clock ev t d1 = (c, t2, d2)"
          by (cases "receiveFromDriver drv clock ev t d1") auto
        have "P cl (if c then True else b) t2 d2 res"
          using IH body drv' by (simp add: r ev rcv cl)
        with event [OF I I1 r [unfolded ev] rcv] show ?thesis by (simp add: P_def cl)
      next
        case False
        then show ?thesis
          using body I1 by (auto simp: r drv' split: sum.splits option.splits)
      qed
    qed
  qed
  with assms(2) show ?thesis by (simp add: P_def)
qed

text \<open>An invariant of a cycle: kept by the timeout, by a read, by an event, and by a send.\<close>

lemma execute_invariant:
  assumes ex: "execute drv clock t d = Some (err, t', d')" and "I t d"
    and timeout: "\<And>t d now. I t d \<Longrightarrow> I (checkMultiFrameTimeout now t) d"
    and quiet: "\<And>rt t d r d'. I t d \<Longrightarrow> ReadEvent drv rt (t_channel t) d = Some (r, d') \<Longrightarrow> I t d'"
    and event: "\<And>rt t d ev d0 d1 c t2 d2. I t d0 \<Longrightarrow> I t d1 \<Longrightarrow>
      ReadEvent drv rt (t_channel t) d0 = Some (Inr (Some ev), d1) \<Longrightarrow>
      receiveFromDriver drv clock ev t d1 = (c, t2, d2) \<Longrightarrow> I t2 d2"
    and slave: "\<And>t d e t2 d2. I t d \<Longrightarrow> slave_send drv t d = (e, t2, d2) \<Longrightarrow> I t2 d2"
    and master: "\<And>t d b e t2 d2. I t d \<Longrightarrow> master_send drv b t d = (e, t2, d2) \<Longrightarrow> I t2 d2"
  shows "I t' d'"
proof -
  let ?t = "checkMultiFrameTimeout (clock d) t"
  have I: "I ?t d" using timeout assms(2) .
  show ?thesis
  proof (cases "t' = ?t \<and> d' = d \<or> t' = t \<and> d' = d")
    case True
    then show ?thesis using I assms(2) by blast
  next
    case False
    then obtain rt e b t1 d1 where r: "read_events drv clock rt False ?t d = Some (e, b, t1, d1)"
      and res: "(err, t', d') = (e, t1, d1) \<or> (err, t', d') = slave_send drv t1 d1 \<or>
                (err, t', d') = master_send drv b t1 d1"
      using ex
      by (auto simp: execute_def Let_def split: if_splits option.splits)
    have "I t1 d1" by (rule read_events_invariant [where I = I, OF r I quiet event])
    with res slave master show ?thesis by (metis prod.inject)
  qed
qed

subsection \<open>What the sends do\<close>

lemma slave_send_cases:
  obtains (busy) s where "t_scheduledTxEvent t = Some s" "slave_send drv t d = (None, t, d)"
  | (none) "t_scheduledTxEvent t = None" "chan_buf (t_txQueue t) = []"
      "slave_send drv t d = (None, t, d)"
  | (frame) f fs where "t_scheduledTxEvent t = None" "chan_buf (t_txQueue t) = f # fs"
      "snd (snd (slave_send drv t d)) = snd (ScheduleSlaveResponse drv (Some f) (t_channel t) d)"
      "fst (slave_send drv t d) =
         map_option (Wrapped ''slave failed to schedule response'' [])
           (fst (ScheduleSlaveResponse drv (Some f) (t_channel t) d))"
      "fst (snd (slave_send drv t d)) =
         (case fst (ScheduleSlaveResponse drv (Some f) (t_channel t) d) of
            Some e \<Rightarrow> t\<lparr>t_txQueue := (t_txQueue t)\<lparr>chan_buf := fs\<rparr>\<rparr>
          | None \<Rightarrow> t\<lparr>t_txQueue := (t_txQueue t)\<lparr>chan_buf := fs\<rparr>, t_scheduledTxEvent := Some f\<rparr>)"
proof (cases "t_scheduledTxEvent t")
  case (Some s)
  then show ?thesis by (intro busy) (simp_all add: slave_send_def)
next
  case None
  show ?thesis
  proof (cases "chan_buf (t_txQueue t)")
    case Nil
    then show ?thesis
      using None by (intro none) (simp_all add: slave_send_def try_recv.simps)
  next
    case (Cons f fs)
    then show ?thesis
      using None
      by (intro frame)
         (auto simp: slave_send_def try_recv.simps Let_def split: prod.splits option.splits)
  qed
qed

lemma master_send_cases:
  obtains (frame) f fs where "chan_buf (t_txQueue t) = f # fs"
      "fst (snd (master_send drv b t d)) = t\<lparr>t_txQueue := (t_txQueue t)\<lparr>chan_buf := fs\<rparr>\<rparr>"
      "snd (snd (master_send drv b t d)) = snd (WriteMessage drv (Some f) (t_channel t) d)"
  | (request) "chan_buf (t_txQueue t) = []" "\<not> b" "shouldRequestSlaveResponse t"
      "fst (snd (master_send drv b t d)) = t"
      "snd (snd (master_send drv b t d)) =
         snd (RequestSlaveResponse drv SlaveDiagnosticFrameID (t_channel t) d)"
  | (none) "chan_buf (t_txQueue t) = []" "b \<or> \<not> shouldRequestSlaveResponse t"
      "master_send drv b t d = (None, t, d)"
proof (cases "chan_buf (t_txQueue t)")
  case (Cons f fs)
  then show ?thesis
    by (intro frame) (auto simp: master_send_def try_recv.simps Let_def split: prod.splits option.splits)
next
  case Nil
  show ?thesis
  proof (cases "\<not> b \<and> shouldRequestSlaveResponse t")
    case True
    then show ?thesis
      using Nil
      by (intro request)
         (auto simp: master_send_def try_recv.simps split: prod.splits option.splits)
  next
    case False
    then show ?thesis
      using Nil by (intro none) (auto simp: master_send_def try_recv.simps)
  qed
qed

text \<open>The fields a cycle never changes, and the capacities of its queues.\<close>

definition same_setup :: "Transport \<Rightarrow> Transport \<Rightarrow> bool" where
  "same_setup t t' \<longleftrightarrow>
     t_isSlave t' = t_isSlave t \<and> t_channel t' = t_channel t \<and> t_config t' = t_config t \<and>
     t_awaitingSlaveResponse t' = t_awaitingSlaveResponse t \<and> t_running t' = t_running t \<and>
     t_closed t' = t_closed t \<and> t_done t' = t_done t \<and> t_wake t' = t_wake t \<and>
     chan_cap (t_txQueue t') = chan_cap (t_txQueue t) \<and>
     chan_cap (t_rxQueue t') = chan_cap (t_rxQueue t)"

lemma same_setup_refl [simp]: "same_setup t t"
  by (simp add: same_setup_def)

lemma same_setup_trans: "same_setup t t' \<Longrightarrow> same_setup t' t'' \<Longrightarrow> same_setup t t''"
  by (simp add: same_setup_def)

lemma checkMultiFrameTimeout_setup: "same_setup t (checkMultiFrameTimeout now t)"
  by (simp add: same_setup_def checkMultiFrameTimeout_def Let_def)

lemma reportError_ok: "queues_ok t \<Longrightarrow> queues_ok (reportError e t)"
  by (auto simp: queues_ok_def reportError_def Let_def split: option.splits)

lemma deliverMessage_ok: "queues_ok t \<Longrightarrow> queues_ok (deliverMessage m t)"
  by (auto simp: deliverMessage_def queues_ok_def reportError_def Let_def try_send_ok
      try_send_def chan_ok_def split: prod.splits sent.splits if_splits)

lemma receive_arms_ok:
  assumes "queues_ok t"
  shows "queues_ok (snd (receiveSF p t))" and "queues_ok (snd (receiveFF now p t))"
    and "queues_ok (snd (receiveCF p t))"
proof -
  have reset: "queues_ok (resetState u) = queues_ok u" for u by (simp add: queues_ok_def)
  show "queues_ok (snd (receiveSF p t))" "queues_ok (snd (receiveFF now p t))"
    using assms reset deliverMessage_ok by (auto simp: receiveSF_def receiveFF_def Let_def queues_ok_def)
  show "queues_ok (snd (receiveCF p t))"
    using assms by (simp add: receiveCF_def Let_def reset deliverMessage_ok queues_ok_def
        deliverMessage_ok [unfolded queues_ok_def])
qed

lemma receiveDiagnostic_ok: "queues_ok t \<Longrightarrow> queues_ok (snd (receiveDiagnostic now e t))"
  by (simp add: receiveDiagnostic_def Let_def receive_arms_ok)

lemma receiveDiagnostic_rx_cap:
  "chan_cap (t_rxQueue (snd (receiveDiagnostic now e t))) = chan_cap (t_rxQueue t)"
  by (simp add: receiveDiagnostic_def receiveSF_def receiveFF_def receiveCF_def Let_def
      deliverMessage_rx)

lemma receiveDiagnostic_setup: "same_setup t (snd (receiveDiagnostic now e t))"
  using receiveDiagnostic_same [of t now e] receiveDiagnostic_rx_cap [of now e t]
  by (simp add: same_setup_def same_outside_reception_def)

definition cycle_inv :: "Transport \<Rightarrow> Transport \<Rightarrow> bool" where
  "cycle_inv t0 t \<longleftrightarrow> queues_ok t \<and> assembly_ranges t \<and> same_setup t0 t"

lemma drop_tx_ok:
  assumes "cycle_inv t0 t" and "chan_buf (t_txQueue t) = f # fs"
  shows "cycle_inv t0 (t\<lparr>t_txQueue := (t_txQueue t)\<lparr>chan_buf := fs\<rparr>, t_scheduledTxEvent := s\<rparr>)"
    and "cycle_inv t0 (t\<lparr>t_txQueue := (t_txQueue t)\<lparr>chan_buf := fs\<rparr>\<rparr>)"
  using assms
  by (auto simp: cycle_inv_def queues_ok_def assembly_ranges_def same_setup_def chan_ok_def)

lemma receiveFromDriver_cycle_inv:
  assumes "cycle_inv t0 t" and "receiveFromDriver drv clock e t d = (b, t', d')"
  shows "cycle_inv t0 t'"
proof (cases rule: receiveFromDriver_cases [of drv clock e t d])
  case receive
  with assms show ?thesis
    using receiveDiagnostic_ok receiveDiagnostic_ranges receiveDiagnostic_setup same_setup_trans
    unfolding cycle_inv_def by (metis prod.inject)
next
  case (last s)
  with assms show ?thesis
    by (auto simp: cycle_inv_def queues_ok_def assembly_ranges_def same_setup_def)
qed (use assms drop_tx_ok in auto)

lemma execute_cycle_inv:
  assumes "execute drv clock t d = Some (err, t', d')" and "cycle_inv t0 t"
  shows "cycle_inv t0 t'"
proof (rule execute_invariant [where I = "\<lambda>t d. cycle_inv t0 t", OF assms])
  show "cycle_inv t0 (checkMultiFrameTimeout now t)" if "cycle_inv t0 t" for now t
    using that
    by (auto simp: cycle_inv_def queues_ok_def assembly_ranges_def same_setup_def
        checkMultiFrameTimeout_def Let_def)
next
  show "cycle_inv t0 t2" if "cycle_inv t0 t" "slave_send drv t d = (e, t2, d2)" for t d e t2 d2
    using that drop_tx_ok
    by (cases rule: slave_send_cases [of t drv d]) (auto split: option.splits)
next
  show "cycle_inv t0 t2" if "cycle_inv t0 t" "master_send drv b t d = (e, t2, d2)" for t d b e t2 d2
    using that drop_tx_ok
    by (cases rule: master_send_cases [of t drv b d]) auto
qed (assumption, erule receiveFromDriver_cycle_inv, assumption)

text \<open>
  A cycle of the transport keeps its queues within their capacities, keeps the receive and
  transmit channels open, keeps the byte count and the frame counter of the multi-frame state in
  range, and changes neither its role, its channel, its configuration nor its lifecycle flags,
  whatever its driver reports.
\<close>

theorem execute_keeps_queues:
  assumes "execute drv clock t d = Some (err, t', d')"
    and "queues_ok t" and "assembly_ranges t"
  shows "queues_ok t' \<and> assembly_ranges t' \<and> same_setup t t'"
  using execute_cycle_inv [OF assms(1), of t] assms(2,3) by (simp add: cycle_inv_def)

theorem execute_keeps_queues_witness:
  "\<exists>t'. execute quiet_driver (\<lambda>_. 0) (snd (Transmit 1 2 [3] (NewTransport True []))) () = Some (None, t', ()) \<and>
     t_scheduledTxEvent t' \<noteq> None \<and> queues_ok t'"
proof -
  let ?t = "snd (Transmit 1 2 [3] (NewTransport True []))"
  have run: "\<exists>t'. execute quiet_driver (\<lambda>_. 0) ?t () = Some (None, t', ()) \<and> t_scheduledTxEvent t' \<noteq> None"
    and start: "queues_ok ?t" "assembly_ranges ?t"
    by (simp_all add: transport_run Let_def queues_ok_def chan_ok_def assembly_ranges_def)
  from run obtain t' where r: "execute quiet_driver (\<lambda>_. 0) ?t () = Some (None, t', ())"
    "t_scheduledTxEvent t' \<noteq> None" by blast
  show ?thesis using execute_keeps_queues [OF r(1) start] r by blast
qed

lemma cycle_inv_New [simp]:
  "cycle_inv (NewTransportWithConfig s c ch) (NewTransportWithConfig s c ch)"
  using NewTransportWithConfig_queues_ok [of s c ch]
  by (simp add: cycle_inv_def assembly_ranges_def NewTransportWithConfig_def Let_def)

subsection \<open>Frames of at most eight bytes\<close>

text \<open>
  A driver of a real bus reports payloads of at most eight bytes. Then the full invariant of
  the multi-frame state holds between the events of a cycle and after it.
\<close>

locale frame_driver =
  fixes drv :: "'d Driver" and good :: "'d \<Rightarrow> bool"
  assumes read_good: "good d \<Longrightarrow> ReadEvent drv rt c d = Some (r, d') \<Longrightarrow>
      good d' \<and> (\<forall>ev. r = Inr (Some ev) \<longrightarrow> length (EventPayload ev) \<le> 8)"
    and schedule_good: "good d \<Longrightarrow> length (EventPayload e) \<le> 8 \<Longrightarrow> good (snd (ScheduleSlaveResponse drv (Some e) c d))"
    and write_good: "good d \<Longrightarrow> length (EventPayload e) \<le> 8 \<Longrightarrow> good (snd (WriteMessage drv (Some e) c d))"
    and request_good: "good d \<Longrightarrow> good (snd (RequestSlaveResponse drv i c d))"

definition short_frames :: "Transport \<Rightarrow> bool" where
  "short_frames t \<longleftrightarrow> (\<forall>f \<in> set (chan_buf (t_txQueue t)). length (EventPayload f) \<le> 8)"

context frame_driver
begin

lemma receive_good:
  assumes "good d" and "assembly_inv t" and "short_frames t" and "length (EventPayload e) \<le> 8"
    and "receiveFromDriver drv clock e t d = (b, t', d')"
  shows "good d' \<and> assembly_inv t' \<and> short_frames t'"
proof (cases rule: receiveFromDriver_cases [of drv clock e t d])
  case receive
  then show ?thesis
    using assms receiveDiagnostic_inv [OF assms(4,2), of "clock d"]
      receiveDiagnostic_same [of t "clock d" e]
    by (simp add: same_outside_reception_def short_frames_def)
next
  case (next_frame s f fs)
  then show ?thesis
    using assms schedule_good by (auto simp: short_frames_def assembly_inv_def assembly_ranges_def)
qed (use assms in \<open>auto simp: short_frames_def assembly_inv_def assembly_ranges_def\<close>)

lemma execute_good:
  assumes "execute drv clock t d = Some (err, t', d')"
    and "good d \<and> assembly_inv t \<and> short_frames t"
  shows "good d' \<and> assembly_inv t' \<and> short_frames t'"
proof (rule execute_invariant [where I = "\<lambda>t d. good d \<and> assembly_inv t \<and> short_frames t", OF assms])
  show "good d \<and> assembly_inv (checkMultiFrameTimeout now t) \<and> short_frames (checkMultiFrameTimeout now t)"
    if "good d \<and> assembly_inv t \<and> short_frames t" for t d now
    using that by (simp add: checkMultiFrameTimeout_def short_frames_def Let_def)
next
  fix t d e t2 d2
  assume I: "good d \<and> assembly_inv t \<and> short_frames t" and "slave_send drv t d = (e, t2, d2)"
  then show "good d2 \<and> assembly_inv t2 \<and> short_frames t2"
  proof (cases rule: slave_send_cases [of t drv d])
    case (frame f fs)
    with I \<open>slave_send drv t d = (e, t2, d2)\<close> schedule_good show ?thesis
      by (auto simp: short_frames_def assembly_inv_def assembly_ranges_def split: option.splits)
  qed auto
next
  fix t d b e t2 d2
  assume I: "good d \<and> assembly_inv t \<and> short_frames t" and "master_send drv b t d = (e, t2, d2)"
  then show "good d2 \<and> assembly_inv t2 \<and> short_frames t2"
  proof (cases rule: master_send_cases [of t drv b d])
    case (frame f fs)
    with I \<open>master_send drv b t d = (e, t2, d2)\<close> write_good show ?thesis
      by (auto simp: short_frames_def assembly_inv_def assembly_ranges_def)
  qed (use request_good in auto)
next
  fix rt t d0 ev d1 c t2 d2
  assume "good d0 \<and> assembly_inv t \<and> short_frames t" "good d1 \<and> assembly_inv t \<and> short_frames t"
    "ReadEvent drv rt (t_channel t) d0 = Some (Inr (Some ev), d1)"
    "receiveFromDriver drv clock ev t d1 = (c, t2, d2)"
  then show "good d2 \<and> assembly_inv t2 \<and> short_frames t2"
    using read_good receive_good by blast
qed (use read_good in blast)

end

end
