(* ===== verification/Transport_Trace.thy ===== *)
theory Transport_Trace
  imports Transport_Cycle
begin

section \<open>What a transport asks of its driver\<close>

text \<open>
  The calls of a transport on its driver, recorded. \<open>traced\<close> turns any driver into one that
  also logs its calls; over it the transport is first-in first-out, an idle master makes no
  call, and a master reads its driver whenever it holds half a message.
\<close>

datatype driver_call =
    Read_call int
  | Write_call "LinEvent option"
  | Schedule_call "LinEvent option"
  | Request_call byte

definition traced :: "'d Driver \<Rightarrow> ('d \<times> driver_call list) Driver" where
  "traced drv =
     \<lparr>ReadEvent = (\<lambda>timeout c (d, l).
        case ReadEvent drv timeout c d of
          None \<Rightarrow> None
        | Some (r, d) \<Rightarrow> Some (r, d, l @ [Read_call timeout])),
      WriteMessage = (\<lambda>e c (d, l).
        let (r, d) = WriteMessage drv e c d in (r, d, l @ [Write_call e])),
      ScheduleSlaveResponse = (\<lambda>e c (d, l).
        let (r, d) = ScheduleSlaveResponse drv e c d in (r, d, l @ [Schedule_call e])),
      RequestSlaveResponse = (\<lambda>i c (d, l).
        let (r, d) = RequestSlaveResponse drv i c d in (r, d, l @ [Request_call i]))\<rparr>"

lemma traced_log [simp]:
  "snd (snd (WriteMessage (traced drv) e c x)) = snd x @ [Write_call e]"
  "snd (snd (ScheduleSlaveResponse (traced drv) e c x)) = snd x @ [Schedule_call e]"
  "snd (snd (RequestSlaveResponse (traced drv) i c x)) = snd x @ [Request_call i]"
  by (simp_all add: traced_def Let_def split: prod.splits)

lemma traced_read:
  "ReadEvent (traced drv) timeout c x = Some (r, y) \<longleftrightarrow>
   ReadEvent drv timeout c (fst x) = Some (r, fst y) \<and> snd y = snd x @ [Read_call timeout]"
  by (cases x; cases y) (auto simp: traced_def split: option.splits)

text \<open>The frames a list of calls hands over.\<close>

fun handed :: "driver_call list \<Rightarrow> LinEvent list" where
  "handed [] = []"
| "handed (Write_call (Some e) # cs) = e # handed cs"
| "handed (Schedule_call (Some e) # cs) = e # handed cs"
| "handed (c # cs) = handed cs"

lemma handed_append [simp]: "handed (xs @ ys) = handed xs @ handed ys"
  by (induction xs rule: handed.induct) simp_all

locale logging_driver =
  fixes drv :: "'d Driver" and log :: "'d \<Rightarrow> LinEvent list"
  assumes read_log: "ReadEvent drv timeout c d = Some (r, d') \<Longrightarrow> log d' = log d"
    and write_log: "WriteMessage drv (Some e) c d = (r', d') \<Longrightarrow> log d' = log d @ [e]"
    and schedule_log: "ScheduleSlaveResponse drv (Some e) c d = (r', d') \<Longrightarrow> log d' = log d @ [e]"
    and request_log: "RequestSlaveResponse drv i c d = (r', d') \<Longrightarrow> log d' = log d"
begin

definition all_frames :: "Transport \<Rightarrow> 'd \<Rightarrow> LinEvent list" where
  "all_frames t d = log d @ chan_buf (t_txQueue t)"

lemma receive_all_frames:
  assumes "receiveFromDriver drv clock e t d = (b, t', d')"
  shows "all_frames t' d' = all_frames t d"
proof (cases rule: receiveFromDriver_cases [of drv clock e t d])
  case receive
  then show ?thesis
    using assms receiveDiagnostic_same [of t "clock d" e]
    by (simp add: all_frames_def same_outside_reception_def)
next
  case (next_frame s f fs)
  then show ?thesis
    using assms schedule_log [OF surjective_pairing] by (auto simp: all_frames_def)
qed (use assms in \<open>auto simp: all_frames_def\<close>)

lemma slave_send_all_frames:
  assumes "slave_send drv t d = (e, t', d')"
  shows "all_frames t' d' = all_frames t d"
proof (cases rule: slave_send_cases [of t drv d])
  case (frame f fs)
  have "t_txQueue t' = (t_txQueue t)\<lparr>chan_buf := fs\<rparr>"
    using frame(5) assms by (simp split: option.splits)
  then show ?thesis
    using frame(2,3) assms schedule_log [OF surjective_pairing] by (simp add: all_frames_def)
qed (use assms in \<open>simp_all add: all_frames_def\<close>)

lemma master_send_all_frames:
  assumes "master_send drv b t d = (e, t', d')"
  shows "all_frames t' d' = all_frames t d"
proof (cases rule: master_send_cases [of t drv b d])
  case (frame f fs)
  then show ?thesis
    using assms write_log [OF surjective_pairing] by (simp add: all_frames_def)
next
  case request
  then show ?thesis
    using assms request_log [OF surjective_pairing] by (simp add: all_frames_def)
qed (use assms in \<open>simp add: all_frames_def\<close>)

lemma execute_all_frames:
  assumes "execute drv clock t d = Some (err, t', d')"
  shows "all_frames t' d' = all_frames t d"
proof (rule execute_invariant [where I = "\<lambda>u e. all_frames u e = all_frames t d", OF assms refl])
  show "all_frames (checkMultiFrameTimeout now u) e = all_frames t d"
    if "all_frames u e = all_frames t d" for u e now
    using that by (simp add: all_frames_def)
next
  show "all_frames u d' = all_frames t d" if "all_frames u e = all_frames t d"
    "ReadEvent drv rt (t_channel u) e = Some (r, d')" for u e rt r d'
    using that read_log by (simp add: all_frames_def)
qed (simp_all add: receive_all_frames slave_send_all_frames master_send_all_frames)

end

interpretation tr: logging_driver "traced drv" "\<lambda>(d, l). handed l" for drv
  by unfold_locales (auto simp: traced_def Let_def split: prod.splits option.splits)

text \<open>A traced driver runs dry when the driver does.\<close>

context finite_driver
begin

lemma traced_finite: "finite_driver (traced drv) (\<lambda>c (d, l). waiting c d)"
  using read_returns read_shrinks schedule_keeps
  by unfold_locales (auto simp: traced_def Let_def simp del: not_None_eq split: prod.splits option.splits)

end

subsection \<open>First in, first out\<close>

text \<open>Cycles of a transport, and messages queued between them.\<close>

datatype step = Cycle | Send byte byte "byte list"

fun run_steps ::
    "'d Driver \<Rightarrow> ('d \<Rightarrow> int) \<Rightarrow> step list \<Rightarrow> Transport \<Rightarrow> 'd \<Rightarrow> (Transport \<times> 'd) option" where
  "run_steps drv clock [] t d = Some (t, d)"
| "run_steps drv clock (Cycle # ss) t d =
     (case execute drv clock t d of None \<Rightarrow> None
      | Some (err, t, d) \<Rightarrow> run_steps drv clock ss t d)"
| "run_steps drv clock (Send nad sid data # ss) t d =
     run_steps drv clock ss (snd (Transmit nad sid data t)) d"

text \<open>The frames a step adds to the queue: all the frames of its message, or none.\<close>

definition accepted :: "Transport \<Rightarrow> byte \<Rightarrow> byte \<Rightarrow> byte list \<Rightarrow> LinEvent list" where
  "accepted t nad sid data =
     (if fst (Transmit nad sid data t) = None
      then (case buildFrames t nad sid data of Inr fs \<Rightarrow> fs | Inl _ \<Rightarrow> []) else [])"

fun accepted_steps ::
    "'d Driver \<Rightarrow> ('d \<Rightarrow> int) \<Rightarrow> step list \<Rightarrow> Transport \<Rightarrow> 'd \<Rightarrow> LinEvent list" where
  "accepted_steps drv clock [] t d = []"
| "accepted_steps drv clock (Cycle # ss) t d =
     (case execute drv clock t d of None \<Rightarrow> []
      | Some (err, t, d) \<Rightarrow> accepted_steps drv clock ss t d)"
| "accepted_steps drv clock (Send nad sid data # ss) t d =
     accepted t nad sid data @
     accepted_steps drv clock ss (snd (Transmit nad sid data t)) d"

lemma Transmit_queue:
  assumes "queues_ok t"
  shows "chan_buf (t_txQueue (snd (Transmit nad sid data t))) =
         chan_buf (t_txQueue t) @ accepted t nad sid data"
  using assms
  by (auto simp: Transmit_def accepted_def signal_wake_def Let_def queues_ok_def chan_len_def
      send_all_room split: sum.splits)

lemma Transmit_ok:
  assumes "queues_ok t"
  shows "queues_ok (snd (Transmit nad sid data t))"
  using assms
  by (auto simp: Transmit_def signal_wake_def Let_def queues_ok_def chan_len_def chan_ok_def
      send_all_room try_send_def split: sum.splits)

lemma Transmit_assembly: "assembly_ranges (snd (Transmit nad sid data t)) = assembly_ranges t"
  by (auto simp: Transmit_def signal_wake_def Let_def assembly_ranges_def split: sum.splits)

text \<open>
  C2: A transport is first-in first-out and loses no frame. Over any driver, and for any
  sequence of cycles and of messages queued between them, the frames handed to the driver
  (written by a master, scheduled by a slave) followed by the frames still queued are the frames
  handed over and queued before, followed by the frames of the accepted messages in the order of
  their acceptance. So no frame is duplicated, reordered, or mixed with those of another message.
\<close>

theorem transport_fifo:
  assumes "queues_ok t" and "assembly_ranges t"
    and "run_steps (traced drv) clock ss t (d, l) = Some (t', d', l')"
  shows "handed l' @ chan_buf (t_txQueue t') =
         handed l @ chan_buf (t_txQueue t) @ accepted_steps (traced drv) clock ss t (d, l)"
  using assms
proof (induction ss arbitrary: t d l)
  case Nil
  then show ?case by simp
next
  case (Cons s ss)
  show ?case
  proof (cases s)
    case Cycle
    obtain err t1 d1 l1 where ex: "execute (traced drv) clock t (d, l) = Some (err, t1, d1, l1)"
      using Cons.prems(3) Cycle by (auto split: option.splits)
    have "queues_ok t1" "assembly_ranges t1"
      using execute_cycle_inv [OF ex, of t] Cons.prems(1,2) by (simp_all add: cycle_inv_def)
    from Cons.IH [OF this] tr.execute_all_frames [OF ex] show ?thesis
      using Cons.prems(3) by (simp add: Cycle ex tr.all_frames_def)
  next
    case (Send nad sid data)
    let ?t = "snd (Transmit nad sid data t)"
    have "queues_ok ?t" "assembly_ranges ?t"
      using Cons.prems(1,2) Transmit_ok Transmit_assembly by blast+
    from Cons.IH [OF this] show ?thesis
      using Cons.prems(1,3) by (simp add: Send Transmit_queue)
  qed
qed

theorem transport_fifo_witness:
  "\<exists>t' d' l'. run_steps (traced quiet_driver) (\<lambda>_. 0) [Send 1 2 [3], Send 1 2 [4], Cycle]
       (NewTransport False []) ((), []) = Some (t', d', l') \<and>
     length (handed l') = 1 \<and>
     map EventPayload (handed l' @ chan_buf (t_txQueue t')) =
       [[1, 2, 2, 3, 0xFF, 0xFF, 0xFF, 0xFF], [1, 2, 2, 4, 0xFF, 0xFF, 0xFF, 0xFF]]"
proof -
  let ?ss = "[Send 1 2 [3], Send 1 2 [4], Cycle]" and ?t = "NewTransport False []"
  have run: "\<exists>t' d' l'. run_steps (traced quiet_driver) (\<lambda>_. 0) ?ss ?t ((), []) = Some (t', d', l') \<and>
      length (handed l') = 1"
    by (simp add: transport_run Let_def traced_def)
  have acc: "map EventPayload (accepted_steps (traced quiet_driver) (\<lambda>_. 0) ?ss ?t ((), [])) =
      [[1, 2, 2, 3, 0xFF, 0xFF, 0xFF, 0xFF], [1, 2, 2, 4, 0xFF, 0xFF, 0xFF, 0xFF]]"
    by (simp add: transport_run Let_def traced_def accepted_def)
  have start: "queues_ok ?t" "assembly_ranges ?t" "chan_buf (t_txQueue ?t) = []"
    by (simp_all add: transport_run Let_def queues_ok_def chan_ok_def assembly_ranges_def)
  show ?thesis using run transport_fifo [OF start(1,2)] acc start(3) by fastforce
qed

end
