(* ===== verification/Transport_Properties.thy ===== *)
theory Transport_Properties
  imports Transport_Trace
begin

section \<open>What the transport guarantees\<close>

text \<open>
  Properties of the transport's operations: the outcome of \<open>Transmit\<close> on every branch and the
  size of the default queue, the safety of reassembly on an arbitrary stream of frames, the
  silence of an idle master and its exception, the error paths of delivery, and the return of
  the blocking receive.
\<close>

subsection \<open>Sending\<close>

text \<open>The number of frames of a message with \<open>n\<close> data bytes.\<close>

definition frame_count :: "nat \<Rightarrow> nat" where
  "frame_count n = (if n \<le> 5 then 1 else 1 + (n - 4 + 5) div 6)"

lemma frame_count_mono: "m \<le> n \<Longrightarrow> frame_count m \<le> frame_count n"
  by (auto simp: frame_count_def div_le_mono)

lemma frame_count_max: "n \<le> maxTransportDataLength \<Longrightarrow> frame_count n \<le> 683"
  using frame_count_mono [of n maxTransportDataLength] by (simp add: frame_count_def)

lemma buildFrames_Inr_iff:
  "(\<exists>frames. buildFrames t nad sid data = Inr frames) \<longleftrightarrow> length data \<le> maxTransportDataLength"
  by (simp add: buildFrames_def Let_def)

lemma length_frames:
  assumes "buildFrames t nad sid data = Inr frames"
  shows "length frames = frame_count (length data)"
proof -
  have "map EventPayload frames =
        (if length data \<le> 5 then [payloadSF nad sid data]
         else payloadFF nad sid data # buildCFs nad data 4 0)"
    using buildFrames_payloads [OF assms] by blast
  from arg_cong [OF this, of length] show ?thesis
    by (simp add: frame_count_def length_buildCFs split: if_splits)
qed

lemma buildCFs_frame: "p \<in> set (buildCFs nad data k n) \<Longrightarrow> n < 16 \<Longrightarrow> length p = 8 \<and> p ! 0 = nad"
  by (auto simp: in_set_conv_nth buildCFs_nth payloadCF_simps)

lemma frame_payloads:
  assumes "buildFrames t nad sid data = Inr frames" and "f \<in> set frames"
  shows "length (EventPayload f) = 8 \<and> EventPayload f ! 0 = nad"
proof -
  let ?pl = "if length data \<le> 5 then [payloadSF nad sid data]
             else payloadFF nad sid data # buildCFs nad data 4 0"
  have pl: "map EventPayload frames = ?pl"
    using buildFrames_payloads [OF assms(1)] by blast
  have "EventPayload f \<in> set (map EventPayload frames)" using assms(2) by simp
  then consider "length data \<le> 5" "EventPayload f = payloadSF nad sid data"
    | "5 < length data" "EventPayload f = payloadFF nad sid data"
    | "EventPayload f \<in> set (buildCFs nad data 4 0)"
    unfolding pl by (auto split: if_splits)
  then show ?thesis
    using buildCFs_frame by cases (simp_all add: payloadSF_simps payloadFF_simps)
qed

text \<open>
  Segmentation succeeds for exactly the messages of at most 4094 data bytes. It yields one
  frame for up to five data bytes and otherwise a first frame and a consecutive frame for every
  six bytes beyond the first four; every frame is eight bytes long, starts with the node address,
  has the classic checksum and the diagnostic frame identifier of the sender's role.
\<close>

theorem buildFrames_shape:
  "(length data \<le> maxTransportDataLength \<and>
    (\<exists>frames. buildFrames t nad sid data = Inr frames \<and>
       length frames = frame_count (length data) \<and>
       list_all (\<lambda>f. length (EventPayload f) = 8 \<and> EventPayload f ! 0 = nad \<and>
          ev_Channel f = t_channel t \<and> ev_ChecksumType f = ClassicChecksum \<and>
          EventID f = (if t_isSlave t then SlaveDiagnosticFrameID else MasterDiagnosticFrameID))
         frames)) \<or>
   (length data > maxTransportDataLength \<and>
    (\<exists>err. buildFrames t nad sid data = Inl err \<and> errors_Is err ErrMessageTooLong))"
proof (cases "length data \<le> maxTransportDataLength")
  case True
  then obtain frames where f: "buildFrames t nad sid data = Inr frames"
    using buildFrames_Inr_iff by blast
  then show ?thesis
    using True length_frames [OF f] frame_payloads [OF f] buildFrames_payloads [OF f]
    by (auto simp: list_all_iff)
next
  case False
  then show ?thesis by (simp add: buildFrames_def)
qed

lemma Transmit_reject:
  assumes "queues_ok t"
  shows "length data > maxTransportDataLength \<Longrightarrow>
      Transmit nad sid data t = (Some (Wrapped ''data length'' [int (length data)] ErrMessageTooLong), t)"
    and "length data \<le> maxTransportDataLength \<Longrightarrow> t_closed t \<Longrightarrow>
      Transmit nad sid data t = (Some ErrTransportClosed, t)"
    and "length data \<le> maxTransportDataLength \<Longrightarrow> \<not> t_closed t \<Longrightarrow>
      chan_cap (t_txQueue t) < length (chan_buf (t_txQueue t)) + frame_count (length data) \<Longrightarrow>
      \<exists>err. Transmit nad sid data t = (Some err, t) \<and> errors_Is err ErrTxQueueFull"
proof -
  show "length data > maxTransportDataLength \<Longrightarrow>
      Transmit nad sid data t = (Some (Wrapped ''data length'' [int (length data)] ErrMessageTooLong), t)"
    by (simp add: Transmit_def buildFrames_def)
  assume len: "length data \<le> maxTransportDataLength"
  then obtain frames where f: "buildFrames t nad sid data = Inr frames"
    using buildFrames_Inr_iff by blast
  show "t_closed t \<Longrightarrow> Transmit nad sid data t = (Some ErrTransportClosed, t)"
    by (simp add: Transmit_def f)
  show "\<exists>err. Transmit nad sid data t = (Some err, t) \<and> errors_Is err ErrTxQueueFull"
    if "\<not> t_closed t"
      "chan_cap (t_txQueue t) < length (chan_buf (t_txQueue t)) + frame_count (length data)"
    using that length_frames [OF f] by (simp add: Transmit_def f Let_def chan_len_def)
qed

lemma Transmit_accept:
  assumes "queues_ok t" and "length data \<le> maxTransportDataLength" and "\<not> t_closed t"
    and room: "length (chan_buf (t_txQueue t)) + frame_count (length data) \<le> chan_cap (t_txQueue t)"
    and f: "buildFrames t nad sid data = Inr frames"
  shows "Transmit nad sid data t =
    (None, signal_wake
       (t\<lparr>t_txQueue := (t_txQueue t)\<lparr>chan_buf := chan_buf (t_txQueue t) @ frames\<rparr>,
          t_awaitingSlaveResponse := t_awaitingSlaveResponse t \<or> \<not> t_isSlave t\<rparr>))"
  using assms length_frames [OF f]
  by (simp add: Transmit_def f Let_def chan_len_def send_all_room queues_ok_def)

text \<open>
  C5: \<open>Transmit\<close> is all or nothing. It rejects, leaving the transport as it was, a message that is
  too long, any message once the transport is closed, and a message whose frames do not all fit
  into the queue (with the error of the first reason that applies, in this order). Otherwise it
  returns no error, appends exactly the frames of the message to the queue, wakes the goroutine,
  and marks a master as awaiting a response.
\<close>

theorem Transmit_all_or_nothing:
  assumes "queues_ok t"
  shows "case Transmit nad sid data t of
      (Some err, t') \<Rightarrow> t' = t \<and>
        (if length data > maxTransportDataLength then errors_Is err ErrMessageTooLong
         else if t_closed t then err = ErrTransportClosed
         else errors_Is err ErrTxQueueFull \<and>
              chan_cap (t_txQueue t) < length (chan_buf (t_txQueue t)) + frame_count (length data))
    | (None, t') \<Rightarrow>
        length data \<le> maxTransportDataLength \<and> \<not> t_closed t \<and>
        buildFrames t nad sid data = Inr (drop (length (chan_buf (t_txQueue t))) (chan_buf (t_txQueue t'))) \<and>
        take (length (chan_buf (t_txQueue t))) (chan_buf (t_txQueue t')) = chan_buf (t_txQueue t) \<and>
        length (chan_buf (t_txQueue t')) =
          length (chan_buf (t_txQueue t)) + frame_count (length data) \<and>
        t_wake t' = fst (try_send () (t_wake t)) \<and>
        t_awaitingSlaveResponse t' = (t_awaitingSlaveResponse t \<or> \<not> t_isSlave t)"
proof (cases "length data \<le> maxTransportDataLength \<and> \<not> t_closed t \<and>
    length (chan_buf (t_txQueue t)) + frame_count (length data) \<le> chan_cap (t_txQueue t)")
  case True
  then obtain frames where f: "buildFrames t nad sid data = Inr frames"
    using buildFrames_Inr_iff by blast
  show ?thesis
    using True Transmit_accept [OF assms _ _ _ f] length_frames [OF f] f
    by (simp add: signal_wake_def)
next
  case False
  then consider "length data > maxTransportDataLength"
    | "length data \<le> maxTransportDataLength" "t_closed t"
    | "length data \<le> maxTransportDataLength" "\<not> t_closed t"
      "chan_cap (t_txQueue t) < length (chan_buf (t_txQueue t)) + frame_count (length data)"
    by linarith
  then show ?thesis
  proof cases
    case 1
    then show ?thesis by (simp add: Transmit_reject(1) [OF assms 1])
  next
    case 2
    then show ?thesis by (simp add: Transmit_reject(2) [OF assms 2])
  next
    case 3
    obtain err where "Transmit nad sid data t = (Some err, t)" "errors_Is err ErrTxQueueFull"
      using Transmit_reject(3) [OF assms 3] by blast
    then show ?thesis using 3 by simp
  qed
qed

theorem Transmit_all_or_nothing_witness:
  "fst (Transmit 1 2 [1, 2, 3, 4, 5, 6, 7] (NewTransport False [])) = None"
proof -
  let ?t = "NewTransport False []" and ?d = "[1, 2, 3, 4, 5, 6, 7] :: byte list"
  have ok: "queues_ok ?t" by (simp add: NewTransport_def NewTransportWithConfig_queues_ok)
  show ?thesis
    using Transmit_all_or_nothing [OF ok, where nad = 1 and sid = 2 and data = ?d]
    by (auto simp: NewTransport_def normalizeTransportConfig_def DefaultTransportConfig_def
        frame_count_def split: prod.splits option.splits)
qed

text \<open>
  The default transmit queue of 683 slots is large enough for every message the protocol
  allows: a new transport with the default configuration accepts a message if and only if it has
  at most 4094 data bytes, and the longest message fills the queue to the last slot.
\<close>

theorem default_queue_fits:
  "(fst (Transmit nad sid data (NewTransport isSlave ch)) = None \<longleftrightarrow>
      length data \<le> maxTransportDataLength) \<and>
   (length data = maxTransportDataLength \<longrightarrow>
      int (length (chan_buf (t_txQueue (snd (Transmit nad sid data (NewTransport isSlave ch))))))
        = DefaultTxQueueSize)"
proof -
  let ?t = "NewTransport isSlave ch"
  have t: "queues_ok ?t" "\<not> t_closed ?t" "chan_buf (t_txQueue ?t) = []"
    "chan_cap (t_txQueue ?t) = 683"
    by (simp_all add: NewTransport_def NewTransportWithConfig_queues_ok
        normalizeTransportConfig_id [OF DefaultTransportConfig_ok])
       (simp add: DefaultTransportConfig_def)
  show ?thesis
  proof (cases "length data \<le> maxTransportDataLength")
    case True
    then obtain frames where f: "buildFrames ?t nad sid data = Inr frames"
      using buildFrames_Inr_iff by blast
    have "Transmit nad sid data ?t =
      (None, signal_wake
         (?t\<lparr>t_txQueue := (t_txQueue ?t)\<lparr>chan_buf := chan_buf (t_txQueue ?t) @ frames\<rparr>,
            t_awaitingSlaveResponse := t_awaitingSlaveResponse ?t \<or> \<not> t_isSlave ?t\<rparr>))"
      using frame_count_max [OF True] t by (intro Transmit_accept f True) simp_all
    then show ?thesis
      using True length_frames [OF f] t(3) by (simp add: signal_wake_def frame_count_def)
  next
    case False
    then show ?thesis using Transmit_reject(1) [OF t(1), where data = data and nad = nad and sid = sid] by simp
  qed
qed

theorem default_queue_fits_witness:
  "fst (Transmit 1 0x22 (replicate 4094 0) (NewTransport False [])) = None \<and>
   length (chan_buf (t_txQueue (snd (Transmit 1 0x22 (replicate 4094 0) (NewTransport False []))))) = 683"
  using default_queue_fits [where nad = 1 and sid = "0x22" and data = "replicate 4094 0"
      and isSlave = False and ch = "[]"]
  by simp

subsection \<open>Safety of reassembly\<close>

text \<open>
  The protocol data units that make up one message: a single frame, or a first frame followed by
  consecutive frames whose counters run 1, 2, \<dots>, 15, 0, 1, \<dots> and whose six-byte windows, cut
  at the announced length, are the rest of the data.
\<close>

fun consecutive :: "nat \<Rightarrow> byte list list \<Rightarrow> pdu list" where
  "consecutive n [] = []"
| "consecutive n (p # ps) = Consecutive ((n + 1) mod 16) p # consecutive ((n + 1) mod 16) ps"

definition six :: "byte list list \<Rightarrow> byte list" where
  "six parts = concat (map (take 6) parts)"

definition is_message :: "pdu list \<Rightarrow> LinMessage \<Rightarrow> bool" where
  "is_message ps m \<longleftrightarrow>
     ps = [Single (NAD m) (SID m) (Data m)] \<or>
     (\<exists>part missing parts. ps = First (NAD m) (SID m) part missing # consecutive 0 parts \<and>
        Data m = part @ take missing (six parts) \<and> missing \<le> length (six parts))"

lemma consecutive_snoc:
  "consecutive n (ps @ [p]) = consecutive n ps @ [Consecutive ((n + length ps + 1) mod 16) p]"
proof (induction ps arbitrary: n)
  case (Cons q ps)
  then show ?case using counter_shift [of n "length ps"] by (simp add: ac_simps)
qed simp

text \<open>What the units seen so far (without the ignored ones) say of the assembly.\<close>

definition built :: "pdu list \<Rightarrow> assembly \<Rightarrow> bool" where
  "built ps a \<longleftrightarrow>
     (case a of Idle \<Rightarrow> True
      | Assembling nad sid acc missing n \<Rightarrow>
          \<exists>pre part parts total. ps = pre @ First nad sid part total # consecutive 0 parts \<and>
            acc = part @ six parts \<and> length (six parts) = 6 * length parts \<and>
            total = missing + 6 * length parts \<and> n = length parts mod 16)"

lemma built_Assembling:
  "length (six parts) = 6 * length parts \<Longrightarrow>
   built (pre @ First nad sid part (missing + 6 * length parts) # consecutive 0 parts)
     (Assembling nad sid (part @ six parts) missing (length parts mod 16))"
  unfolding built_def assembly.case by blast

lemma assemble_built:
  assumes "built ps a" and "assemble a p = (a', m)"
  shows "built (if p = Ignored then ps else ps @ [p]) a' \<and>
         (\<forall>x. m = Some x \<longrightarrow> (\<exists>pre qs. ps @ [p] = pre @ qs \<and> is_message qs x))"
proof (cases "(a, p)" rule: assemble.cases)
  case (3 a nad sid data)
  then have m: "a' = Idle" "m = Some \<lparr>NAD = nad, SID = sid, Data = data\<rparr>" "p \<noteq> Ignored"
    using assms(2) by auto
  have "is_message [p] \<lparr>NAD = nad, SID = sid, Data = data\<rparr>" using 3 by (simp add: is_message_def)
  then show ?thesis by (auto simp: m built_def)
next
  case (4 a nad sid part missing)
  have "built (ps @ [p]) a'"
    using assms 4 built_Assembling [of "[]" ps nad sid part missing] by (auto simp: six_def)
  then show ?thesis using assms 4 by simp
next
  case (6 nad sid acc missing n0 n part)
  obtain pre fst_part parts where
    ps: "ps = pre @ First nad sid fst_part (missing + 6 * length parts) # consecutive 0 parts"
    and acc: "acc = fst_part @ six parts" and len: "length (six parts) = 6 * length parts"
    and n0: "n0 = length parts mod 16"
    using assms(1) 6 by (auto simp: built_def)
  show ?thesis
  proof (cases "n \<noteq> (n0 + 1) mod 16 \<or> length part < min missing 6")
    case True
    then show ?thesis using assms(2) 6 by (auto simp: built_def)
  next
    case False
    then have n: "n = (length parts + 1) mod 16" and part: "min missing 6 \<le> length part"
      by (auto simp: n0 mod_Suc_eq min_le_iff_disj not_less)
    let ?parts = "parts @ [part]"
    have six: "six ?parts = six parts @ take 6 part" by (simp add: six_def)
    have seq: "ps @ [p] = pre @ First nad sid fst_part (missing + 6 * length parts) # consecutive 0 ?parts"
      using 6 by (simp add: ps consecutive_snoc n)
    show ?thesis
    proof (cases "missing \<le> 6")
      case True
      then have m: "m = Some \<lparr>NAD = nad, SID = sid, Data = acc @ take missing part\<rparr>" "a' = Idle"
        using assms(2) 6 False by auto
      have "is_message (First nad sid fst_part (missing + 6 * length parts) # consecutive 0 ?parts)
              \<lparr>NAD = nad, SID = sid, Data = acc @ take missing part\<rparr>"
        unfolding is_message_def six using True part len
        by (intro disjI2 exI [of _ fst_part] exI [of _ "missing + 6 * length parts"] exI [of _ ?parts])
           (simp add: acc six min_def)
      then show ?thesis using m seq by (auto simp: built_def)
    next
      case mid: False
      then have m: "m = None" "a' = Assembling nad sid (acc @ take 6 part) (missing - 6) n"
        using assms(2) 6 False by auto
      have "built (ps @ [p]) a'"
        using built_Assembling [of ?parts pre nad sid fst_part "missing - 6"] mid part len
        unfolding m(2) seq by (simp add: acc six n)
      then show ?thesis using m 6 by auto
    qed
  qed
qed (use assms in \<open>auto simp: built_def is_message_def\<close>)

lemma assemble_all_built:
  assumes "built ps a" and "assemble_all a qs = (a', ms)"
  shows "built (ps @ filter (\<lambda>p. p \<noteq> Ignored) qs) a' \<and>
    (\<forall>xs x. ms = xs @ [Some x] \<longrightarrow>
       (\<exists>pre us. ps @ filter (\<lambda>p. p \<noteq> Ignored) qs = pre @ us \<and> is_message us x))"
  using assms
proof (induction qs arbitrary: ps a ms)
  case Nil
  then show ?case by simp
next
  case (Cons q qs)
  obtain a1 m where one: "assemble a q = (a1, m)" by fastforce
  obtain ms1 where rest: "assemble_all a1 qs = (a', ms1)" and ms: "ms = m # ms1"
    using Cons.prems(2) by (auto simp: one split: prod.splits)
  let ?ps = "if q = Ignored then ps else ps @ [q]"
  note b = assemble_built [OF Cons.prems(1) one]
  note IH = Cons.IH [OF conjunct1 [OF b] rest]
  have eq: "?ps @ filter (\<lambda>p. p \<noteq> Ignored) qs = ps @ filter (\<lambda>p. p \<noteq> Ignored) (q # qs)"
    by simp
  show ?case
  proof (cases "ms1 = []")
    case True
    then have "qs = [] \<and> a' = a1" using rest by (cases qs) (auto split: prod.splits)
    then show ?thesis
      using b ms True one Cons.prems(1) by (cases "q = Ignored") auto
  next
    case False
    then have "\<And>xs x. ms = xs @ [Some x] \<Longrightarrow> \<exists>ys. ms1 = ys @ [Some x]"
      unfolding ms by (metis append_butlast_last_id last.simps last_snoc)
    then show ?thesis using IH unfolding eq by blast
  qed
qed

text \<open>The units a list of events stands for, without those the receiver ignores.\<close>

definition pdus :: "(int \<times> LinEvent) list \<Rightarrow> pdu list" where
  "pdus es = filter (\<lambda>p. p \<noteq> Ignored) (map (\<lambda>x. decode_pdu (EventPayload (snd x))) es)"

lemma delivered_all_room:
  assumes "\<not> chan_closed q" and "length (chan_buf q) + length ms \<le> chan_cap q"
  shows "chan_buf (delivered_all ms q) = chan_buf q @ List.map_filter id ms"
  using assms
proof (induction ms arbitrary: q)
  case (Cons m ms)
  show ?case
  proof (cases m)
    case (Some x)
    have "delivered m q = q\<lparr>chan_buf := chan_buf q @ [x]\<rparr>"
      using Cons.prems by (simp add: Some delivered_def chan_simps)
    then show ?thesis
      using Cons.prems Cons.IH [of "delivered m q"] by (simp add: Some map_filter_simps)
  next
    case None
    then show ?thesis
      using Cons.prems Cons.IH [of q] by (simp add: delivered_def map_filter_simps)
  qed
qed (simp add: map_filter_simps)

lemma receiveAll_idle:
  assumes "list_all (\<lambda>x. relevant (snd x) t) es" and "assembly_ranges t" and "assembly_of t = Idle"
    and "receiveAll es t = (bs, t')"
    and "assemble_all Idle (map (\<lambda>x. decode_pdu (EventPayload (snd x))) es) = (a, ms)"
  shows "bs = map (\<lambda>m. m \<noteq> None) ms \<and> t_rxQueue t' = delivered_all ms (t_rxQueue t) \<and>
         assembly_of t' = a"
  using receiveAll_matches [of es t] assms by (auto simp: list_all_iff)

text \<open>
  C4: Reassembly never makes up a message. Whatever relevant events an idle receiver is given (lost,
  repeated, reordered, truncated, interleaved frames included), when the last one completes a
  message, then the message at the end of the receive queue is the one that the last protocol
  data units spell out: a single frame, or a first frame followed without a gap by consecutive
  frames in sequence whose six-byte windows, cut at the announced length, are its data.
\<close>

theorem reassembly_sound:
  assumes "list_all (\<lambda>x. relevant (snd x) t) es" and "assembly_ranges t" and "assembly_of t = Idle"
    and "receiveAll es t = (bs @ [True], t')"
    and "\<not> chan_closed (t_rxQueue t)"
    and "length (chan_buf (t_rxQueue t)) + length es \<le> chan_cap (t_rxQueue t)"
  shows "\<exists>pre us m. pdus es = pre @ us \<and> is_message us m \<and>
           chan_buf (t_rxQueue t') \<noteq> [] \<and> last (chan_buf (t_rxQueue t')) = m"
proof -
  let ?ps = "map (\<lambda>x. decode_pdu (EventPayload (snd x))) es"
  obtain a ms where asm: "assemble_all Idle ?ps = (a, ms)" by fastforce
  note r = receiveAll_idle [OF assms(1-4) asm]
  then have "map (\<lambda>m. m \<noteq> None) ms = bs @ [True]" by simp
  then obtain xs m where ms: "ms = xs @ [Some m]"
    by (auto simp: map_eq_append_conv)
  have len: "length ms = length es"
  proof -
    have "length ms = length ps" if "assemble_all a0 ps = (a1, ms)" for a0 a1 ps ms
      using that by (induction ps arbitrary: a0 ms) (auto split: prod.splits)
    from this [OF asm] show ?thesis by simp
  qed
  obtain pre us where "pdus es = pre @ us" "is_message us m"
    using assemble_all_built [OF _ asm, of "[]"] ms by (auto simp: built_def pdus_def)
  moreover have "chan_buf (t_rxQueue t') = chan_buf (t_rxQueue t) @ List.map_filter id ms"
    using r delivered_all_room [of "t_rxQueue t" ms] assms(5,6) len by simp
  then have "chan_buf (t_rxQueue t') = chan_buf (t_rxQueue t) @ List.map_filter id xs @ [m]"
    by (simp add: ms map_filter_def)
  ultimately show ?thesis by auto
qed

theorem reassembly_sound_witness:
  "\<exists>t'. receiveAll [(0, rx_event 0x3C [1, 0x21, 9, 9, 9, 9, 9, 9]),
        (0, rx_event 0x3C [1, 0x10, 8, 0x2E, 1, 2, 3, 4]),
        (0, rx_event 0x3C [1, 0x21, 5, 6, 7, 0xFF, 0xFF, 0xFF])] (NewTransport True []) =
      ([False, False] @ [True], t') \<and>
    (\<exists>pre us m. is_message us m \<and> pdus [(0, rx_event 0x3C [1, 0x21, 9, 9, 9, 9, 9, 9]),
        (0, rx_event 0x3C [1, 0x10, 8, 0x2E, 1, 2, 3, 4]),
        (0, rx_event 0x3C [1, 0x21, 5, 6, 7, 0xFF, 0xFF, 0xFF])] = pre @ us \<and>
       chan_buf (t_rxQueue t') = [m] \<and> Data m = [1, 2, 3, 4, 5, 6, 7])"
proof -
  let ?es = "[(0, rx_event 0x3C [1, 0x21, 9, 9, 9, 9, 9, 9]),
        (0, rx_event 0x3C [1, 0x10, 8, 0x2E, 1, 2, 3, 4]),
        (0, rx_event 0x3C [1, 0x21, 5, 6, 7, 0xFF, 0xFF, 0xFF])]"
  let ?t = "NewTransport True []"
  have run: "\<exists>t'. receiveAll ?es ?t = ([False, False] @ [True], t') \<and>
      chan_buf (t_rxQueue t') = [\<lparr>NAD = 1, SID = 0x2E, Data = [1, 2, 3, 4, 5, 6, 7]\<rparr>]"
    by (simp add: transport_run Let_def rx_event_def receiveCF_def receiveFF_def)
  have start: "list_all (\<lambda>x. relevant (snd x) ?t) ?es" "assembly_ranges ?t" "assembly_of ?t = Idle"
    "\<not> chan_closed (t_rxQueue ?t)" "length (chan_buf (t_rxQueue ?t)) + length ?es \<le> chan_cap (t_rxQueue ?t)"
    by (simp_all add: transport_run Let_def rx_event_def relevant_def assembly_ranges_def assembly_of_def)
  show ?thesis using run reassembly_sound [OF start(1-3) _ start(4,5)] by fastforce
qed

text \<open>
  C3: Every event that concerns the receiver acts on its multi-frame state and its receive queue as
  the abstract assembler does on the decoded protocol data unit, and the result says whether a
  message was completed; every other event changes nothing.
\<close>

theorem receive_refines_assembler:
  assumes "assembly_ranges t"
  shows "if relevant event t
    then (let (a, m) = assemble (assembly_of t) (decode_pdu (EventPayload event));
              (complete, t') = receiveDiagnostic now event t
          in assembly_of t' = a \<and> complete = (m \<noteq> None) \<and>
             t_rxQueue t' = delivered m (t_rxQueue t) \<and> assembly_ranges t')
    else receiveDiagnostic now event t = (False, t)"
  using assms receiveDiagnostic_matches [of event t now] receiveDiagnostic_irrelevant
    receiveDiagnostic_ranges [OF assms, of now event]
  by (auto simp: matches_def split: prod.splits)

theorem receive_refines_assembler_witness:
  "fst (receiveDiagnostic 0 (rx_event 0x3C [1, 2, 0xB2, 5, 0xFF, 0xFF, 0xFF, 0xFF]) (NewTransport True [])) \<and>
   t_rxQueue (snd (receiveDiagnostic 0 (rx_event 0x3C [1, 2, 0xB2, 5, 0xFF, 0xFF, 0xFF, 0xFF]) (NewTransport True []))) =
     delivered (Some \<lparr>NAD = 1, SID = 0xB2, Data = [5]\<rparr>) (t_rxQueue (NewTransport True []))"
proof -
  let ?e = "rx_event 0x3C [1, 2, 0xB2, 5, 0xFF, 0xFF, 0xFF, 0xFF]" and ?t = "NewTransport True []"
  have "assembly_ranges ?t" "relevant ?e ?t"
    "assemble (assembly_of ?t) (decode_pdu (EventPayload ?e)) = (Idle, Some \<lparr>NAD = 1, SID = 0xB2, Data = [5]\<rparr>)"
    by (simp_all add: assembly_ranges_def assembly_of_def relevant_def isMasterReceiving_def
        isSlaveReceiving_def rx_event_def decode_pdu_def NewTransport_def)
  with receive_refines_assembler [of ?t ?e 0] show ?thesis by (simp add: case_prod_beta)
qed

subsection \<open>Polling\<close>

text \<open>
  C16: A master without \<open>ContinuousSlavePoll\<close> leaves the bus alone once it is told to stop awaiting a
  response: with no frame queued and no message under reassembly, a cycle after
  \<open>StopAwaitingSlaveResponse\<close> makes no driver call at all and changes nothing.
\<close>

theorem stop_awaiting_silences:
  assumes "\<not> t_isSlave t" and "\<not> t_closed t" and "chan_buf (t_txQueue t) = []"
    and "\<not> ContinuousSlavePoll (t_config t)" and "t_remainingBytes t \<le> 0"
  shows "execute (traced drv) clock (StopAwaitingSlaveResponse t) (d, l) =
         Some (None, StopAwaitingSlaveResponse t, d, l)"
  using assms by (intro execute_idle) (simp_all add: master_idle_def StopAwaitingSlaveResponse_def)

theorem stop_awaiting_silences_witness:
  "execute (traced quiet_driver) (\<lambda>_. 0) (StopAwaitingSlaveResponse (NewTransport False [])) ((), []) =
   Some (None, StopAwaitingSlaveResponse (NewTransport False []), (), [])"
  by (rule stop_awaiting_silences)
     (simp_all add: NewTransport_def DefaultTransportConfig_def normalizeTransportConfig_def)

text \<open>The first call of the read loop is a read, and later calls only extend the log.\<close>

lemma traced_read_events_first:
  assumes "read_events (traced drv) clock rt b t (d, l) = Some (err, b', t', d', l')"
  shows "\<exists>l''. l' = l @ Read_call rt # l''"
proof -
  let ?I = "\<lambda>(t :: Transport) (x :: 'a \<times> driver_call list). \<exists>l''. snd x = l @ Read_call rt # l''"
  have event: "?I t2 x2" if "?I t1 x1" "receiveFromDriver (traced drv) clock ev t1 x1 = (c, t2, x2)"
    for t1 x1 ev c t2 x2
    using that by (cases rule: receiveFromDriver_cases [of "traced drv" clock ev t1 x1]) auto
  have quiet: "?I t y" if "?I t x" "ReadEvent (traced drv) r c x = Some (res, y)" for t x y r c res
    using that traced_read [of drv r c x res y] by auto
  obtain res d1 l1 where r0: "ReadEvent (traced drv) rt (t_channel t) (d, l) = Some (res, d1, l1)"
    using assms by (subst (asm) read_events.simps) (auto split: option.splits)
  have "l1 = l @ [Read_call rt]" using r0 by (simp add: traced_read)
  note r = r0 [unfolded this]
  show ?thesis
  proof (cases "\<exists>ev. res = Inr (Some ev)")
    case True
    then obtain ev where ev: "res = Inr (Some ev)" by blast
    obtain c t2 x2 where rcv: "receiveFromDriver (traced drv) clock ev t (d1, l @ [Read_call rt]) = (c, t2, x2)"
      by (cases "receiveFromDriver (traced drv) clock ev t (d1, l @ [Read_call rt])") auto
    have start: "?I t2 x2" using event [OF _ rcv] by simp
    have "read_events (traced drv) clock rt (if c then True else b) t2 x2 = Some (err, b', t', d', l')"
      using assms by (subst (asm) read_events.simps) (simp add: r ev rcv)
    then have "?I t' (d', l')"
      by (rule read_events_invariant [where I = ?I, OF _ start])
         (erule (1) quiet, rule event, assumption, assumption)
    then show ?thesis by simp
  next
    case False
    then show ?thesis
      using assms by (subst (asm) read_events.simps) (auto simp: r split: sum.splits option.splits)
  qed
qed

lemma traced_send_log:
  "master_send (traced drv) b t (d, l) = (e, t', d', l') \<Longrightarrow> \<exists>l''. l' = l @ l''"
  by (cases rule: master_send_cases [of t "traced drv" b "(d, l)"])
     (auto dest: arg_cong [where f = snd])

text \<open>
  The exception to the silence of a master that was told to stop awaiting: while a multi-frame
  message is incomplete and has not timed out, the next cycle after
  \<open>StopAwaitingSlaveResponse\<close> still reads the driver, whatever its configuration.
\<close>

theorem stop_awaiting_partial_reads:
  assumes "\<not> t_isSlave t" and "\<not> t_closed t" and "0 < t_remainingBytes t"
    and "clock (d, l) - t_multiFrameStartTime t \<le> MultiFrameTimeout (t_config t)"
    and "execute (traced drv) clock (StopAwaitingSlaveResponse t) (d, l) = Some (err, t', d', l')"
  shows "\<exists>l''. l' = l @ Read_call 0 # l''"
proof -
  let ?t = "StopAwaitingSlaveResponse t"
  have act: "\<not> t_isSlave ?t" "\<not> t_closed ?t" "0 < t_remainingBytes ?t"
    "clock (d, l) - t_multiFrameStartTime ?t \<le> MultiFrameTimeout (t_config ?t)"
    using assms(1-4) by (simp_all add: StopAwaitingSlaveResponse_def)
  obtain e b t1 d1 l1 where
    r: "read_events (traced drv) clock 0 False ?t (d, l) = Some (e, b, t1, d1, l1)"
    and res: "(err, t', d', l') = (e, t1, d1, l1) \<or>
       (err, t', d', l') = (if t_isSlave t1 then slave_send (traced drv) t1 (d1, l1)
                            else master_send (traced drv) b t1 (d1, l1))"
    using assms(5) unfolding execute_active_reads [where clock = clock and d = "(d, l)", OF act]
    by (auto split: option.splits)
  have "\<not> t_isSlave t1"
    by (rule read_events_invariant [where I = "\<lambda>t d. \<not> t_isSlave t", OF r act(1)])
       (assumption, drule receiveFromDriver_channel, simp)
  with res traced_read_events_first [OF r] traced_send_log [of drv b t1 d1 l1 err t' d' l']
  show ?thesis by auto
qed

theorem stop_awaiting_partial_reads_witness:
  "\<exists>t' l'. execute (traced quiet_driver) (\<lambda>_. 5) (StopAwaitingSlaveResponse
      (snd (receiveDiagnostic 0 (rx_event 0x3D [1, 0x10, 8, 0x62, 1, 2, 3, 4]) (NewTransport False []))))
      ((), []) = Some (None, t', (), l') \<and> l' \<noteq> []"
proof -
  let ?t = "snd (receiveDiagnostic 0 (rx_event 0x3D [1, 0x10, 8, 0x62, 1, 2, 3, 4]) (NewTransport False []))"
  have start: "\<not> t_isSlave ?t" "\<not> t_closed ?t" "0 < t_remainingBytes ?t"
    "5 - t_multiFrameStartTime ?t \<le> MultiFrameTimeout (t_config ?t)"
    by (simp_all add: transport_run Let_def rx_event_def receiveFF_def)
  have "\<exists>t' l'. execute (traced quiet_driver) (\<lambda>_. 5) (StopAwaitingSlaveResponse ?t) ((), []) = Some (None, t', (), l')"
    by (simp add: transport_run Let_def rx_event_def receiveFF_def traced_def)
  with stop_awaiting_partial_reads [OF start(1-3), where clock = "\<lambda>_. 5"] start(4) show ?thesis by fastforce
qed

end
