(* ===== verification/Transport_Lifecycle.thy ===== *)
theory Transport_Lifecycle
  imports Transport_Properties
begin

section \<open>Lifecycle and blocking receive\<close>

text \<open>
  The lifecycle of a transport as a step relation: the callers' operations, the turns of its
  goroutine, and the two halves of \<open>Close\<close>, interleaved in any order. The invariant of its
  reachable states gives that no channel is closed twice and none is sent on after it is
  closed (both panic in Go). The blocking receive returns by its deadline in every environment
  that moves on (\<open>live_env\<close>), and at once after \<open>Close\<close>.
\<close>

subsection \<open>Reachable states\<close>

text \<open>
  \<open>alive\<close>: the goroutine exists; \<open>closing\<close>: a caller of \<open>Close\<close> is between its two halves, waiting
  for the goroutine. The goroutine ends only after \<open>Close\<close> has cancelled it.
\<close>

record 'd Life =
  l_transport :: Transport
  l_alive :: bool
  l_closing :: bool
  l_driver :: 'd

inductive life_step :: "'d Driver \<Rightarrow> ('d \<Rightarrow> int) \<Rightarrow> 'd Life \<Rightarrow> 'd Life \<Rightarrow> bool"
  for drv clock where
  run: "t = l_transport s \<Longrightarrow> t' = Run t \<Longrightarrow>
    life_step drv clock s (s\<lparr>l_transport := t', l_alive := l_alive s \<or> t_running t' \<noteq> t_running t\<rparr>)"
| transmit: "Transmit nad sid data (l_transport s) = (err, t') \<Longrightarrow>
    life_step drv clock s (s\<lparr>l_transport := t'\<rparr>)"
| receive: "Receive (l_transport s) = (msg, t') \<Longrightarrow>
    life_step drv clock s (s\<lparr>l_transport := t'\<rparr>)"
| receive_blocking: "(result, t') \<in> set (receive_ready ctx now (l_transport s)) \<Longrightarrow>
    life_step drv clock s (s\<lparr>l_transport := t'\<rparr>)"
| await: "life_step drv clock s (s\<lparr>l_transport := SetAwaitingSlaveResponse b (l_transport s)\<rparr>)"
| turn: "l_alive s \<Longrightarrow>
    goroutine_turn drv clock trigger (l_transport s) (l_driver s) = Some (t', d') \<Longrightarrow>
    life_step drv clock s (s\<lparr>l_transport := t', l_driver := d'\<rparr>)"
| driver: "life_step drv clock s (s\<lparr>l_driver := d'\<rparr>)"
| close_begin: "\<not> t_closed (l_transport s) \<Longrightarrow>
    life_step drv clock s (s\<lparr>l_transport := close_begin (l_transport s), l_closing := True\<rparr>)"
| exit: "l_alive s \<Longrightarrow> t_closed (l_transport s) \<Longrightarrow> life_step drv clock s (s\<lparr>l_alive := False\<rparr>)"
| close_end: "l_closing s \<Longrightarrow> \<not> l_alive s \<Longrightarrow>
    life_step drv clock s (s\<lparr>l_transport := close_end (l_transport s), l_closing := False\<rparr>)"

inductive life_reachable :: "'d Driver \<Rightarrow> ('d \<Rightarrow> int) \<Rightarrow> 'd Life \<Rightarrow> bool"
  for drv clock where
  new: "life_reachable drv clock
    \<lparr>l_transport = NewTransportWithConfig isSlave config ch, l_alive = False, l_closing = False,
     l_driver = d\<rparr>"
| step: "life_reachable drv clock s \<Longrightarrow> life_step drv clock s s' \<Longrightarrow> life_reachable drv clock s'"

inductive_cases life_stepE: "life_step drv clock s s'"

definition error_channels_open :: "Transport \<Rightarrow> bool" where
  "error_channels_open t \<longleftrightarrow> \<not> chan_closed (t_errors t) \<and> \<not> chan_closed (t_receiveErrors t)"

definition life_inv :: "'d Life \<Rightarrow> bool" where
  "life_inv s \<longleftrightarrow>
     (let t = l_transport s
      in queues_ok t \<and> assembly_ranges t \<and>
         (t_done t \<longrightarrow> t_closed t \<and> \<not> l_alive s \<and> \<not> l_closing s) \<and>
         (l_closing s \<longrightarrow> t_closed t) \<and>
         (t_closed t \<longrightarrow> l_closing s \<or> t_done t) \<and>
         (l_alive s \<longrightarrow> t_running t) \<and>
         (error_channels_open t \<longleftrightarrow> \<not> t_done t))"

text \<open>A cycle sends errors but never closes their channels.\<close>

lemma reportError_open [simp]: "error_channels_open (reportError e t) = error_channels_open t"
  by (simp add: error_channels_open_def reportError_def Let_def split: option.splits)

lemma deliverMessage_open [simp]: "error_channels_open (deliverMessage m t) = error_channels_open t"
  by (auto simp: deliverMessage_def error_channels_open_def reportError_def Let_def
      split: prod.splits sent.splits)

lemma receiveDiagnostic_open:
  "error_channels_open (snd (receiveDiagnostic now e t)) = error_channels_open t"
proof -
  have reset: "error_channels_open (resetState u) = error_channels_open u" for u
    by (simp add: error_channels_open_def)
  have upd: "error_channels_open
      (u\<lparr>t_remainingBytes := r, t_currentFrameData := f, t_currentFrameCounter := c\<rparr>) =
      error_channels_open u" for u r f c
    by (simp add: error_channels_open_def)
  have ff: "error_channels_open (snd (receiveFF now p t)) = error_channels_open t" for p
    by (simp add: receiveFF_def Let_def error_channels_open_def)
  have cf: "error_channels_open (snd (receiveCF p t)) = error_channels_open t" for p
    by (simp add: receiveCF_def Let_def reset upd)
  have sf: "error_channels_open (snd (receiveSF p t)) = error_channels_open t" for p
    by (simp add: receiveSF_def Let_def reset)
  show ?thesis by (simp add: receiveDiagnostic_def Let_def ff cf sf)
qed

lemma receiveFromDriver_open:
  assumes "receiveFromDriver drv clock e t d = (b, t', d')"
  shows "error_channels_open t' = error_channels_open t"
proof (cases rule: receiveFromDriver_cases [of drv clock e t d])
  case receive
  then show ?thesis using assms receiveDiagnostic_open by auto
qed (use assms in \<open>auto simp: error_channels_open_def\<close>)

lemma execute_open:
  assumes "execute drv clock t d = Some (err, t', d')"
  shows "error_channels_open t' = error_channels_open t"
proof (rule execute_invariant [where I = "\<lambda>u d. error_channels_open u = error_channels_open t",
      OF assms refl])
  show "error_channels_open (checkMultiFrameTimeout now u) = error_channels_open t"
    if "error_channels_open u = error_channels_open t" for u now
    using that by (simp add: checkMultiFrameTimeout_def error_channels_open_def Let_def)
next
  show "error_channels_open u' = error_channels_open t"
    if "error_channels_open u = error_channels_open t" "slave_send drv u e = (x, u', e')"
    for u e x u' e'
    using that by (cases rule: slave_send_cases [of u drv e])
      (auto simp: error_channels_open_def split: option.splits)
next
  show "error_channels_open u' = error_channels_open t"
    if "error_channels_open u = error_channels_open t" "master_send drv b u e = (x, u', e')"
    for u e b x u' e'
    using that by (cases rule: master_send_cases [of u drv b e]) (auto simp: error_channels_open_def)
qed (assumption, drule receiveFromDriver_open, simp)

lemma goroutine_turn_keeps:
  assumes "goroutine_turn drv clock trigger t d = Some (t', d')"
    and "queues_ok t" and "assembly_ranges t"
  shows "queues_ok t' \<and> assembly_ranges t' \<and> error_channels_open t' = error_channels_open t \<and>
         t_closed t' = t_closed t \<and> t_running t' = t_running t \<and> t_done t' = t_done t"
proof -
  define u where "u = (if trigger = Wake then t\<lparr>t_wake := fst (try_recv (t_wake t))\<rparr> else t)"
  have u: "queues_ok u" "assembly_ranges u" "error_channels_open u = error_channels_open t"
    "t_closed u = t_closed t" "t_running u = t_running t" "t_done u = t_done t"
    using assms(2,3) try_recv_ok [of "t_wake t"]
    by (simp_all add: u_def queues_ok_def assembly_ranges_def error_channels_open_def)
  obtain err t1 where ex: "execute drv clock u d = Some (err, t1, d')" and t': "t' = reportError err t1"
    using assms(1) by (auto simp: goroutine_turn_def Let_def u_def split: option.splits)
  have "cycle_inv u t1" using execute_cycle_inv [OF ex, of u] u by (simp add: cycle_inv_def)
  then show ?thesis
    using u execute_open [OF ex] reportError_ok [of t1 err]
    by (simp add: t' cycle_inv_def same_setup_def assembly_ranges_def)
qed

lemma receive_ready_keeps:
  assumes "(result, t') \<in> set (receive_ready ctx now t)" and "queues_ok t"
  shows "queues_ok t' \<and> assembly_ranges t' = assembly_ranges t \<and>
         error_channels_open t' = error_channels_open t \<and>
         t_closed t' = t_closed t \<and> t_running t' = t_running t \<and> t_done t' = t_done t"
  using assms
  by (auto simp: receive_ready_def queues_ok_def assembly_ranges_def error_channels_open_def
      try_recv.simps chan_ok_def split: list.splits option.splits if_splits)

lemma life_step_inv:
  assumes "life_step drv clock s s'" and inv: "life_inv s"
  shows "life_inv s'"
  using assms(1)
proof cases
  case (run t t')
  then show ?thesis
    using inv by (auto simp: life_inv_def Let_def Run_def queues_ok_def assembly_ranges_def error_channels_open_def)
next
  case (transmit nad sid data err t')
  have "t' = snd (Transmit nad sid data (l_transport s))" using transmit by simp
  moreover have "t_closed t' = t_closed (l_transport s) \<and> t_done t' = t_done (l_transport s) \<and>
      t_running t' = t_running (l_transport s) \<and> error_channels_open t' = error_channels_open (l_transport s)"
    using transmit by (auto simp: Transmit_def signal_wake_def Let_def error_channels_open_def
        split: sum.splits if_splits)
  ultimately show ?thesis
    using inv transmit Transmit_ok [of "l_transport s" nad sid data]
      Transmit_assembly [of nad sid data "l_transport s"]
    by (simp add: life_inv_def Let_def)
next
  case (receive msg t')
  then show ?thesis
    using inv by (auto simp: life_inv_def Let_def Receive_def queues_ok_def chan_ok_def
        assembly_ranges_def error_channels_open_def try_recv_Received_iff
        split: prod.splits received.splits)
next
  case (receive_blocking result t' ctx now)
  have "queues_ok (l_transport s)" using inv by (simp add: life_inv_def Let_def)
  from receive_ready_keeps [OF receive_blocking(2) this] show ?thesis
    using inv receive_blocking by (simp add: life_inv_def Let_def)
next
  case (await b)
  then show ?thesis
    using inv by (auto simp: life_inv_def Let_def SetAwaitingSlaveResponse_def signal_wake_def
        StopAwaitingSlaveResponse_def queues_ok_def assembly_ranges_def error_channels_open_def)
next
  case (turn trigger t' d')
  then show ?thesis
    using inv goroutine_turn_keeps [OF turn(3)] by (auto simp: life_inv_def Let_def)
qed (use inv in \<open>auto simp: life_inv_def Let_def close_begin_def close_end_def close_chan_def
      queues_ok_def chan_ok_def assembly_ranges_def error_channels_open_def\<close>)

lemma life_reachable_inv: "life_reachable drv clock s \<Longrightarrow> life_inv s"
proof (induction rule: life_reachable.induct)
  case (new isSlave config ch d)
  show ?case
    using NewTransportWithConfig_queues_ok [of isSlave config ch]
    by (simp add: life_inv_def Let_def assembly_ranges_def error_channels_open_def)
       (simp add: NewTransportWithConfig_def Let_def)
qed (rule life_step_inv)

text \<open>
  C13: However the operations of callers, the turns of the goroutine and the two halves of \<open>Close\<close>
  interleave, a transport never panics on a channel: the goroutine, as long as it lives, finds the
  error channels open, the second half of \<open>Close\<close> closes channels that are still open, the
  queues are never closed, and \<open>done\<close> is closed only after the goroutine has ended.
\<close>

theorem lifecycle_no_panic:
  assumes "life_reachable drv clock s"
  shows "(l_alive s \<longrightarrow> error_channels_open (l_transport s)) \<and>
         (l_closing s \<longrightarrow> error_channels_open (l_transport s) \<and> \<not> t_done (l_transport s)) \<and>
         queues_ok (l_transport s) \<and>
         (t_done (l_transport s) \<longrightarrow> t_closed (l_transport s) \<and> \<not> l_alive s)"
  using life_reachable_inv [OF assms] by (auto simp: life_inv_def Let_def)

theorem lifecycle_no_panic_witness:
  "queues_ok (close_end (close_begin (NewTransport True [])))"
proof -
  let ?s = "\<lparr>l_transport = NewTransport True [], l_alive = False, l_closing = False, l_driver = ()\<rparr>"
  let ?s1 = "?s\<lparr>l_transport := close_begin (l_transport ?s), l_closing := True\<rparr>"
  let ?s2 = "?s1\<lparr>l_transport := close_end (l_transport ?s1), l_closing := False\<rparr>"
  have "life_reachable drv clock ?s" for drv clock
    unfolding NewTransport_def by (rule life_reachable.new)
  then have "life_reachable drv clock ?s1" for drv clock
    by (rule life_reachable.step) (rule life_step.close_begin, simp add: NewTransport_def)
  then have "life_reachable drv clock ?s2" for drv clock
    by (rule life_reachable.step) (rule life_step.close_end; simp)
  from lifecycle_no_panic [OF this] show ?thesis by simp
qed

subsection \<open>Blocking receive\<close>

text \<open>An environment in which other code keeps running and time passes.\<close>

locale live_env =
  fixes env :: "'d Env"
  assumes turn_total: "Turn env t d \<noteq> None"
    and time_passes: "Turn env t d = Some (t', d') \<Longrightarrow> Clock env d < Clock env d'"
begin

lemma ReceiveBlocking_returns:
  assumes "ctx_deadline ctx = Some x"
  shows "\<exists>r. ReceiveBlocking env ctx t d = Some r"
proof (induction "nat (x - Clock env d)" arbitrary: t d rule: less_induct)
  case less
  show ?case
  proof (cases "receive_ready ctx (Clock env d) t")
    case (Cons r rs)
    then show ?thesis
      by (subst ReceiveBlocking.simps) (simp add: case_prod_beta del: split_paired_Ex)
  next
    case Nil
    have "Clock env d < x"
    proof (rule ccontr)
      assume "\<not> Clock env d < x"
      then have "ctx_Err (Clock env d) ctx \<noteq> None" by (intro ctx_Err_deadline [OF assms]) simp
      with Nil show False by (simp add: receive_ready_def split: option.splits)
    qed
    obtain t' d' where turn: "Turn env t d = Some (t', d')" using turn_total by fastforce
    from time_passes [OF turn] \<open>Clock env d < x\<close>
    have "nat (x - Clock env d') < nat (x - Clock env d)" by simp
    from less [OF this, of t'] show ?thesis
      by (subst ReceiveBlocking.simps) (simp add: Nil turn)
  qed
qed

end

lemma receive_ready_done:
  assumes "t_done t" and "chan_buf (t_rxQueue t) = []" and "\<not> chan_closed (t_rxQueue t)"
  shows "receive_ready ctx now t \<noteq> [] \<and>
    (\<forall>r \<in> set (receive_ready ctx now t). \<exists>err. fst r = Inl err \<and>
       (err = ErrTransportClosed \<or> err \<in> set (chan_buf (t_receiveErrors t)) \<or>
        err = DeadlineExceeded \<or> err = Canceled))"
  using assms ctx_Err_cases
  by (auto simp: receive_ready_def try_recv.simps split: list.splits option.splits)

text \<open>
  After \<open>Close\<close> no receiver hangs: on a transport whose \<open>done\<close> is closed and whose receive queue
  is empty, \<open>ReceiveBlocking\<close> returns at once, without waiting for the rest of the program, and
  with an error: the closure of the transport, an error reported earlier, or the end of the
  context.
\<close>

theorem ReceiveBlocking_after_close:
  assumes "t_done t" and "chan_buf (t_rxQueue t) = []" and "\<not> chan_closed (t_rxQueue t)"
  shows "\<exists>err t'. ReceiveBlocking env ctx t d = Some (Inl err, t', d) \<and>
    (err = ErrTransportClosed \<or> err \<in> set (chan_buf (t_receiveErrors t)) \<or>
     err = DeadlineExceeded \<or> err = Canceled)"
proof -
  let ?rs = "receive_ready ctx (Clock env d) t"
  note r = receive_ready_done [OF assms, of ctx "Clock env d"]
  then obtain x xs where Cons: "?rs = x # xs" by (meson neq_Nil_conv)
  define pick where "pick = ?rs ! (Pick env d mod length ?rs)"
  have "pick \<in> set ?rs" unfolding pick_def Cons by (intro nth_mem) simp
  then obtain err t' where p: "pick = (Inl err, t')" and
    err: "err = ErrTransportClosed \<or> err \<in> set (chan_buf (t_receiveErrors t)) \<or>
       err = DeadlineExceeded \<or> err = Canceled"
    using r surjective_pairing [of pick] by metis
  have "ReceiveBlocking env ctx t d = Some (Inl err, t', d)"
    using p unfolding pick_def by (subst ReceiveBlocking.simps) (simp add: Cons)
  with err show ?thesis by blast
qed

theorem ReceiveBlocking_after_close_witness:
  "\<exists>t'. ReceiveBlocking ticking (Background\<lparr>ctx_deadline := Some 10\<rparr>) (Close (NewTransport False [])) 3 =
     Some (Inl ErrTransportClosed, t', 3)"
proof -
  let ?t = "Close (NewTransport False [])"
  have t: "t_done ?t" "chan_buf (t_rxQueue ?t) = []" "\<not> chan_closed (t_rxQueue ?t)"
    by (simp_all add: Close_def close_begin_def close_end_def NewTransport_def NewTransportWithConfig_def Let_def)
  obtain err t' where r: "ReceiveBlocking ticking (Background\<lparr>ctx_deadline := Some 10\<rparr>) ?t 3 = Some (Inl err, t', 3)"
    using ReceiveBlocking_after_close [OF t, of ticking _ 3] by blast
  then have "err = ErrTransportClosed"
    by (simp add: Close_def close_begin_def close_end_def close_chan_def transport_run ticking_def
        Background_def ctx_Err_def Let_def)
  with r show ?thesis by blast
qed

end
