(* ===== verification/Slave.thy ===== *)
theory Slave
  imports Transport_Lifecycle
begin

section \<open>The slave node (\<^verbatim>\<open>tplin/slave.go\<close>)\<close>

text \<open>
  The application layer of a slave: its identity, the three diagnostic services it answers, and
  the step of its loop. \<open>simulate\<close> runs one cycle of the slave's transport and handles at most
  one message. Errors of queueing a response are only logged by the code, so the handlers drop
  them. \<open>s_done\<close> says whether the channel \<^verbatim>\<open>s.done\<close> is closed. A nil slice is \<open>None\<close>.
\<close>

record LinSlave =
  s_nad :: byte
  s_savedNad :: byte
  s_supplierID :: u16
  s_functionID :: u16
  s_variantID :: byte
  s_serialNumber :: "byte list"
  s_frameIdentifiers :: "byte list"
  s_transport :: Transport
  s_running :: bool
  s_closed :: bool
  s_done :: bool

definition NewSlave ::
    "byte \<Rightarrow> byte \<Rightarrow> u16 \<Rightarrow> u16 \<Rightarrow> byte list option \<Rightarrow> Channel list \<Rightarrow> LinSlave" where
  "NewSlave nad variantID supplierID functionID serialNumber channel =
     (let serialNumber = (case serialNumber of None \<Rightarrow> [0x01, 0x02, 0x03, 0x04] | Some sn \<Rightarrow> sn);
          transport = NewTransport True channel
      in \<lparr>s_nad = nad, s_savedNad = 0, s_supplierID = supplierID, s_functionID = functionID,
          s_variantID = variantID, s_serialNumber = serialNumber,
          s_frameIdentifiers = replicate 5 0, s_transport = transport,
          s_running = False, s_closed = False, s_done = False\<rparr>)"

text \<open>\<^verbatim>\<open>s.transport.Transmit(s.nad, sid, data)\<close>, its error only logged.\<close>

definition slave_transmit :: "byte \<Rightarrow> byte list \<Rightarrow> LinSlave \<Rightarrow> LinSlave" where
  "slave_transmit sid data s =
     s\<lparr>s_transport := snd (Transmit (s_nad s) sid data (s_transport s))\<rparr>"

definition transmitNegativeResponse :: "byte \<Rightarrow> byte \<Rightarrow> LinSlave \<Rightarrow> LinSlave" where
  "transmitNegativeResponse requestedSID errorCode s =
     slave_transmit 0x7F [requestedSID, errorCode] s"

definition matchesID :: "u16 \<Rightarrow> u16 \<Rightarrow> LinSlave \<Rightarrow> bool" where
  "matchesID reqSupplierID reqFunctionID s \<longleftrightarrow>
     (let supplierMatch = (reqSupplierID = s_supplierID s \<or> reqSupplierID = BroadcastSupplierID);
          functionMatch = (reqFunctionID = s_functionID s \<or> reqFunctionID = BroadcastFunctionID)
      in supplierMatch \<and> functionMatch)"

text \<open>
  Appending an empty slice to a nil slice gives a nil slice, so an empty serial number is
  reported as no identifier.
\<close>

definition getIDBytes :: "byte \<Rightarrow> LinSlave \<Rightarrow> byte list option" where
  "getIDBytes idType s =
     (if idType = DataIdentifierLinProductIdentifier then
        Some (PutUint16 (s_supplierID s) @ PutUint16 (s_functionID s) @ [s_variantID s])
      else if idType = DataIdentifierSerialNumber then
        (if s_serialNumber s = [] then None else Some (s_serialNumber s))
      else None)"

definition handleReadByIdentifier :: "LinMessage \<Rightarrow> LinSlave \<Rightarrow> LinSlave" where
  "handleReadByIdentifier msg s =
     (if length (Data msg) < 5 then transmitNegativeResponse (SID msg) 0x13 s
      else
        let identifier = Data msg ! 0;
            supplierID = Uint16 (drop 1 (Data msg));
            functionID = Uint16 (drop 3 (Data msg))
        in if matchesID supplierID functionID s then
             (case getIDBytes identifier s of
                Some response \<Rightarrow> slave_transmit (SID msg + 0x40) response s
              | None \<Rightarrow> transmitNegativeResponse (SID msg) 0x12 s)
           else s)"

definition handleAssignNad :: "LinMessage \<Rightarrow> LinSlave \<Rightarrow> LinSlave" where
  "handleAssignNad msg s =
     (if length (Data msg) < 5 then s
      else
        let supplierID = Uint16 (Data msg);
            functionID = Uint16 (drop 2 (Data msg));
            newNad = Data msg ! 4
        in if matchesID supplierID functionID s then
             (let s = slave_transmit (SID msg + 0x40) [] s in s\<lparr>s_nad := newNad\<rparr>)
           else s)"

text \<open>The part of \<open>simulate\<close> behind the receive: one message.\<close>

definition handle_message :: "LinMessage \<Rightarrow> LinSlave \<Rightarrow> LinSlave" where
  "handle_message msg s =
     (if NAD msg \<noteq> s_nad s \<and> NAD msg \<noteq> BroadcastNAD then s
      else if SID msg = ReadByIdentifierSID then handleReadByIdentifier msg s
      else if SID msg = SaveConfigurationSID then
        (let s = s\<lparr>s_savedNad := s_nad s\<rparr> in slave_transmit (SID msg + 0x40) [] s)
      else if SID msg = AssignNadSID then handleAssignNad msg s
      else s)"

definition simulate ::
    "'d Driver \<Rightarrow> ('d \<Rightarrow> int) \<Rightarrow> LinSlave \<Rightarrow> 'd \<Rightarrow> (LinSlave \<times> 'd) option" where
  "simulate drv clock s d =
     (case execute drv clock (s_transport s) d of
        None \<Rightarrow> None
      | Some (Some err, t, d) \<Rightarrow> Some (s\<lparr>s_transport := t\<rparr>, d)
      | Some (None, t, d) \<Rightarrow>
          (case Receive t of
             (None, t) \<Rightarrow> Some (s\<lparr>s_transport := t\<rparr>, d)
           | (Some msg, t) \<Rightarrow> Some (handle_message msg (s\<lparr>s_transport := t\<rparr>), d)))"

subsection \<open>Lifecycle\<close>

text \<open>
  \<open>SlaveRun\<close> starts the loop, whose turns are \<open>simulate\<close>; \<open>slave_loop_end\<close> is its deferred
  function. \<open>Stop\<close> cancels the loop, waits for it (\<open>slave_loop_end\<close>), and closes the transport.
\<close>

definition SlaveRun :: "LinSlave \<Rightarrow> LinSlave" where
  "SlaveRun s = (if s_running s \<or> s_closed s then s else s\<lparr>s_running := True\<rparr>)"

definition slave_loop_end :: "LinSlave \<Rightarrow> LinSlave" where
  "slave_loop_end s = s\<lparr>s_running := False\<rparr>"

definition Stop :: "LinSlave \<Rightarrow> LinSlave" where
  "Stop s =
     (if s_closed s then s
      else
        let s = s\<lparr>s_closed := True\<rparr>;
            s = slave_loop_end s;
            s = s\<lparr>s_transport := Close (s_transport s)\<rparr>
        in s\<lparr>s_done := True\<rparr>)"

subsection \<open>What a slave answers\<close>

text \<open>
  The contract of the diagnostic services, without queues: the identity of a slave, and for each
  request the identity afterwards and the response, if any, with the address it is sent from.
\<close>

record identity =
  id_nad :: byte
  id_saved :: byte
  id_supplier :: u16
  id_function :: u16
  id_variant :: byte
  id_serial :: "byte list"

definition identity_of :: "LinSlave \<Rightarrow> identity" where
  "identity_of s =
     \<lparr>id_nad = s_nad s, id_saved = s_savedNad s, id_supplier = s_supplierID s,
      id_function = s_functionID s, id_variant = s_variantID s, id_serial = s_serialNumber s\<rparr>"

datatype response =
    Silent
  | Positive byte "byte list"
  | Negative byte byte

fun wire :: "byte \<Rightarrow> response \<Rightarrow> LinMessage option" where
  "wire nad Silent = None"
| "wire nad (Positive rsid data) = Some \<lparr>NAD = nad, SID = rsid, Data = data\<rparr>"
| "wire nad (Negative rsid nrc) = Some \<lparr>NAD = nad, SID = 0x7F, Data = [rsid, nrc]\<rparr>"

text \<open>Does a request for this supplier and function concern the slave?\<close>

definition concerns :: "u16 \<Rightarrow> u16 \<Rightarrow> identity \<Rightarrow> bool" where
  "concerns supplier function i \<longleftrightarrow>
     supplier \<in> {id_supplier i, BroadcastSupplierID} \<and> function \<in> {id_function i, BroadcastFunctionID}"

definition read_service :: "identity \<Rightarrow> byte list \<Rightarrow> response" where
  "read_service i data =
     (if length data < 5 then Negative 0xB2 0x13
      else if \<not> concerns (Uint16 [data ! 1, data ! 2]) (Uint16 [data ! 3, data ! 4]) i then Silent
      else if data ! 0 = 0 then
        Positive 0xF2 (PutUint16 (id_supplier i) @ PutUint16 (id_function i) @ [id_variant i])
      else if data ! 0 = 1 \<and> id_serial i \<noteq> [] then Positive 0xF2 (id_serial i)
      else Negative 0xB2 0x12)"

definition service :: "identity \<Rightarrow> byte \<Rightarrow> byte list \<Rightarrow> identity \<times> response" where
  "service i sid data =
     (if sid = 0xB2 then (i, read_service i data)
      else if sid = 0xB6 then (i\<lparr>id_saved := id_nad i\<rparr>, Positive 0xF6 [])
      else if sid = 0xB0 \<and> 5 \<le> length data \<and>
          concerns (Uint16 [data ! 0, data ! 1]) (Uint16 [data ! 2, data ! 3]) i
      then (i\<lparr>id_nad := data ! 4\<rparr>, Positive 0xF0 [])
      else (i, Silent))"

text \<open>Only messages to the slave's own address or to the broadcast address are served.\<close>

definition serve :: "identity \<Rightarrow> LinMessage \<Rightarrow> identity \<times> LinMessage option" where
  "serve i msg =
     (if NAD msg = id_nad i \<or> NAD msg = BroadcastNAD
      then let (i', r) = service i (SID msg) (Data msg) in (i', wire (id_nad i) r)
      else (i, None))"

definition queue_response :: "LinMessage option \<Rightarrow> Transport \<Rightarrow> Transport" where
  "queue_response m t =
     (case m of None \<Rightarrow> t | Some x \<Rightarrow> snd (Transmit (NAD x) (SID x) (Data x) t))"

lemma Uint16_drop:
  "k' = k + 1 \<Longrightarrow> k' < length xs \<Longrightarrow> Uint16 (drop k xs) = Uint16 [xs ! k, xs ! k']"
  by (simp add: Uint16_def)

lemma handleReadByIdentifier_serves:
  assumes "SID msg = 0xB2"
  shows "handleReadByIdentifier msg s =
    s\<lparr>s_transport := queue_response (wire (s_nad s) (read_service (identity_of s) (Data msg))) (s_transport s)\<rparr>"
proof (cases "length (Data msg) < 5")
  case True
  then show ?thesis
    by (simp add: handleReadByIdentifier_def read_service_def transmitNegativeResponse_def
        slave_transmit_def queue_response_def assms)
next
  case False
  then have "Uint16 (drop 1 (Data msg)) = Uint16 [Data msg ! 1, Data msg ! 2]"
    and "Uint16 (drop 3 (Data msg)) = Uint16 [Data msg ! 3, Data msg ! 4]"
    using Uint16_drop [of 2 1 "Data msg"] Uint16_drop [of 4 3 "Data msg"] by simp_all
  then show ?thesis
    using False
    by (simp add: handleReadByIdentifier_def read_service_def transmitNegativeResponse_def
        slave_transmit_def queue_response_def assms matchesID_def concerns_def getIDBytes_def
        identity_of_def Let_def)
qed

lemma handleAssignNad_serves:
  assumes "SID msg = 0xB0"
  shows "handleAssignNad msg s =
    (let (i, r) = service (identity_of s) 0xB0 (Data msg)
     in s\<lparr>s_transport := queue_response (wire (s_nad s) r) (s_transport s), s_nad := id_nad i\<rparr>)"
proof (cases "length (Data msg) < 5")
  case True
  then show ?thesis
    by (simp add: handleAssignNad_def service_def queue_response_def identity_of_def)
next
  case False
  then have "Uint16 (Data msg) = Uint16 [Data msg ! 0, Data msg ! 1]"
    and "Uint16 (drop 2 (Data msg)) = Uint16 [Data msg ! 2, Data msg ! 3]"
    using Uint16_drop [of 1 0 "Data msg"] Uint16_drop [of 3 2 "Data msg"] by simp_all
  then show ?thesis
    using False
    by (simp add: handleAssignNad_def service_def slave_transmit_def queue_response_def assms
        matchesID_def concerns_def identity_of_def Let_def)
qed

text \<open>
  C12: The slave implements the contract of its diagnostic services. Whatever message it handles,
  its identity afterwards and the response it queues are those of \<open>serve\<close>: messages for other
  addresses are ignored; a read with too few bytes, of an unknown identifier, or of an empty
  serial number is answered negatively; a read or an assignment for another supplier or function
  is met with silence; a response is sent from the address the slave had when it was asked, and
  a new address is in force afterwards.
\<close>

theorem handle_message_serves:
  "identity_of (handle_message msg s) = fst (serve (identity_of s) msg) \<and>
   s_transport (handle_message msg s) =
     queue_response (snd (serve (identity_of s) msg)) (s_transport s)"
proof (cases "NAD msg = s_nad s \<or> NAD msg = BroadcastNAD")
  case True
  consider "SID msg = 0xB2" | "SID msg = 0xB6" | "SID msg = 0xB0"
    | "SID msg \<noteq> 0xB2" "SID msg \<noteq> 0xB6" "SID msg \<noteq> 0xB0" by blast
  then show ?thesis
  proof cases
    case 1
    then show ?thesis
      using True
      by (auto simp: handle_message_def handleReadByIdentifier_serves serve_def service_def identity_of_def)
  next
    case 2
    then show ?thesis
      using True
      by (auto simp: handle_message_def serve_def service_def identity_of_def slave_transmit_def
          queue_response_def Let_def)
  next
    case 3
    then show ?thesis
      using True
      by (auto simp: handle_message_def handleAssignNad_serves serve_def service_def identity_of_def
          Let_def split: prod.splits)
  next
    case 4
    then show ?thesis
      using True by (auto simp: handle_message_def serve_def service_def identity_of_def queue_response_def)
  qed
next
  case False
  then show ?thesis
    by (simp add: handle_message_def serve_def identity_of_def queue_response_def)
qed

end
