(* ===== verification/Simulation.thy ===== *)
theory Simulation
  imports Transport_Lifecycle
begin

section \<open>The simulated network (\<^verbatim>\<open>tplin/simulation.go\<close>)\<close>

text \<open>
  A bus in memory: the responses that slaves have scheduled, one driver of the master, a list of
  slave drivers, each with a queue of twenty events per channel. A driver is named by its place
  in the network (\<open>node\<close>); a place without a driver, which the code cannot name, reads as empty.
  \<open>n_now\<close> is the clock: a read that finds its queue empty waits for its timeout, during which nothing else happens in this model (an event pushed meanwhile by another
  goroutine is read by the next call). The timers that implement the wait are in \<open>Simulation_Timer\<close>;
  copies of events are modelled (they are what keeps the queues from sharing a payload).
\<close>

record SimulatedLinDriver =
  d_isSlave :: bool
  d_eventQueues :: "Channel \<Rightarrow> LinEvent chan option"

record SimulatedLinNetwork =
  n_slaveResponses :: "Channel \<times> byte \<Rightarrow> LinEvent option"
  n_masterDriver :: "SimulatedLinDriver option"
  n_slaveDrivers :: "SimulatedLinDriver list"
  n_now :: int

datatype node = MasterNode | SlaveNode nat

definition NewSimulatedLinNetwork :: "int \<Rightarrow> SimulatedLinNetwork" where
  "NewSimulatedLinNetwork now =
     \<lparr>n_slaveResponses = (\<lambda>_. None), n_masterDriver = None, n_slaveDrivers = [], n_now = now\<rparr>"

definition newSimulatedLinDriver :: "bool \<Rightarrow> SimulatedLinDriver" where
  "newSimulatedLinDriver isSlave = \<lparr>d_isSlave = isSlave, d_eventQueues = (\<lambda>_. None)\<rparr>"

definition deepCopyEvent :: "LinEvent option \<Rightarrow> LinEvent option" where
  "deepCopyEvent original =
     (case original of None \<Rightarrow> None
      | Some e \<Rightarrow> Some \<lparr>ev_Channel = ev_Channel e, EventID = EventID e,
          EventPayload = copy_at 0 (EventPayload e) (replicate (length (EventPayload e)) 0),
          ev_ChecksumType = ev_ChecksumType e, ev_Direction = ev_Direction e,
          ev_Timestamp = ev_Timestamp e\<rparr>)"

lemma deepCopyEvent_id [simp]: "deepCopyEvent e = e"
  by (cases e) (simp_all add: deepCopyEvent_def copy_at_def)

subsection \<open>Drivers\<close>

text \<open>The queue of a channel, created on first use.\<close>

definition eventQueue :: "Channel \<Rightarrow> SimulatedLinDriver \<Rightarrow> LinEvent chan \<times> SimulatedLinDriver" where
  "eventQueue channel d =
     (case d_eventQueues d channel of
        Some q \<Rightarrow> (q, d)
      | None \<Rightarrow> let q = make_chan 20 in (q, d\<lparr>d_eventQueues := (d_eventQueues d)(channel \<mapsto> q)\<rparr>))"

definition pushEvent :: "LinEvent \<Rightarrow> SimulatedLinDriver \<Rightarrow> SimulatedLinDriver" where
  "pushEvent event d =
     (let (q, d) = eventQueue (ev_Channel event) d
      in d\<lparr>d_eventQueues := (d_eventQueues d)(ev_Channel event \<mapsto> fst (try_send event q))\<rparr>)"

definition readQueue :: "Channel \<Rightarrow> SimulatedLinDriver \<Rightarrow> LinEvent option \<times> SimulatedLinDriver" where
  "readQueue channel d =
     (let (q, d) = eventQueue channel d
      in case try_recv q of
           (q, Received event) \<Rightarrow>
             (Some event, d\<lparr>d_eventQueues := (d_eventQueues d)(channel \<mapsto> q)\<rparr>)
         | _ \<Rightarrow> (None, d))"

subsection \<open>The bus\<close>

definition stamped :: "Direction \<Rightarrow> int \<Rightarrow> LinEvent \<Rightarrow> LinEvent" where
  "stamped dir now e = the (deepCopyEvent (Some e))\<lparr>ev_Direction := dir, ev_Timestamp := now\<rparr>"

definition writeMessage :: "LinEvent \<Rightarrow> SimulatedLinNetwork \<Rightarrow> SimulatedLinNetwork" where
  "writeMessage linEvent n =
     (let eventTime = n_now n;
          n = n\<lparr>n_masterDriver :=
                  map_option (pushEvent (stamped TX eventTime linEvent)) (n_masterDriver n)\<rparr>
      in n\<lparr>n_slaveDrivers :=
             map (pushEvent (stamped RX eventTime linEvent)) (n_slaveDrivers n)\<rparr>)"

definition requestSlaveResponse ::
    "byte \<Rightarrow> Channel \<Rightarrow> SimulatedLinNetwork \<Rightarrow> SimulatedLinNetwork" where
  "requestSlaveResponse messageID channel n =
     (let key = (channel, messageID)
      in case n_slaveResponses n key of
           None \<Rightarrow> n
         | Some result \<Rightarrow>
             let n = n\<lparr>n_slaveResponses := (n_slaveResponses n)(key := None)\<rparr>;
                 eventTime = n_now n;
                 n = n\<lparr>n_masterDriver :=
                         map_option (pushEvent (stamped RX eventTime result)) (n_masterDriver n)\<rparr>
             in n\<lparr>n_slaveDrivers :=
                    map (pushEvent (stamped TX eventTime result)) (n_slaveDrivers n)\<rparr>)"

definition scheduleSlaveResponse :: "LinEvent \<Rightarrow> SimulatedLinNetwork \<Rightarrow> SimulatedLinNetwork" where
  "scheduleSlaveResponse linEvent n =
     (let key = (ev_Channel linEvent, EventID linEvent)
      in n\<lparr>n_slaveResponses := (n_slaveResponses n)(key := deepCopyEvent (Some linEvent))\<rparr>)"

definition GetMasterDriver :: "SimulatedLinNetwork \<Rightarrow> node \<times> SimulatedLinNetwork" where
  "GetMasterDriver n =
     (MasterNode,
      if n_masterDriver n = None then n\<lparr>n_masterDriver := Some (newSimulatedLinDriver False)\<rparr>
      else n)"

definition CreateSlaveDriver :: "SimulatedLinNetwork \<Rightarrow> node \<times> SimulatedLinNetwork" where
  "CreateSlaveDriver n =
     (SlaveNode (length (n_slaveDrivers n)),
      n\<lparr>n_slaveDrivers := n_slaveDrivers n @ [newSimulatedLinDriver True]\<rparr>)"

subsection \<open>The driver interface of a node\<close>

definition driver_at :: "node \<Rightarrow> SimulatedLinNetwork \<Rightarrow> SimulatedLinDriver option" where
  "driver_at x n =
     (case x of MasterNode \<Rightarrow> n_masterDriver n
      | SlaveNode i \<Rightarrow> if i < length (n_slaveDrivers n) then Some (n_slaveDrivers n ! i) else None)"

definition put_driver :: "node \<Rightarrow> SimulatedLinDriver \<Rightarrow> SimulatedLinNetwork \<Rightarrow> SimulatedLinNetwork" where
  "put_driver x d n =
     (case x of MasterNode \<Rightarrow> n\<lparr>n_masterDriver := Some d\<rparr>
      | SlaveNode i \<Rightarrow> n\<lparr>n_slaveDrivers := (n_slaveDrivers n)[i := d]\<rparr>)"

definition sim_ReadEvent ::
    "node \<Rightarrow> int \<Rightarrow> Channel \<Rightarrow> SimulatedLinNetwork \<Rightarrow> (error + LinEvent option) \<times> SimulatedLinNetwork"
    where
  "sim_ReadEvent x timeout channel n =
     (case driver_at x n of
        None \<Rightarrow> (Inr None, if timeout \<le> 0 then n else n\<lparr>n_now := n_now n + timeout\<rparr>)
      | Some d \<Rightarrow>
          case readQueue channel d of
            (Some event, d) \<Rightarrow> (Inr (Some event), put_driver x d n)
          | (None, d) \<Rightarrow>
              if timeout \<le> 0 then (Inr None, put_driver x d n)
              else (Inr None, put_driver x d (n\<lparr>n_now := n_now n + timeout\<rparr>)))"

definition sim_WriteMessage ::
    "node \<Rightarrow> LinEvent option \<Rightarrow> Channel \<Rightarrow> SimulatedLinNetwork \<Rightarrow> error option \<times> SimulatedLinNetwork"
    where
  "sim_WriteMessage x linEvent channel n =
     (case linEvent of
        None \<Rightarrow> (Some (ErrorText ''nil LIN event'' []), n)
      | Some e \<Rightarrow>
          if \<not> map_option d_isSlave (driver_at x n) = Some True then
            (None, writeMessage (the (deepCopyEvent (Some e))\<lparr>ev_Channel := channel\<rparr>) n)
          else (None, n))"

definition sim_ScheduleSlaveResponse ::
    "node \<Rightarrow> LinEvent option \<Rightarrow> Channel \<Rightarrow> SimulatedLinNetwork \<Rightarrow> error option \<times> SimulatedLinNetwork"
    where
  "sim_ScheduleSlaveResponse x linEvent channel n =
     (case linEvent of
        None \<Rightarrow> (Some (ErrorText ''nil LIN event'' []), n)
      | Some e \<Rightarrow>
          if map_option d_isSlave (driver_at x n) = Some True then
            (None, scheduleSlaveResponse (the (deepCopyEvent (Some e))\<lparr>ev_Channel := channel\<rparr>) n)
          else (None, n))"

definition sim_RequestSlaveResponse ::
    "node \<Rightarrow> byte \<Rightarrow> Channel \<Rightarrow> SimulatedLinNetwork \<Rightarrow> error option \<times> SimulatedLinNetwork" where
  "sim_RequestSlaveResponse x messageID channel n =
     (if \<not> map_option d_isSlave (driver_at x n) = Some True
      then (None, requestSlaveResponse messageID channel n) else (None, n))"

definition sim_driver :: "node \<Rightarrow> SimulatedLinNetwork Driver" where
  "sim_driver x =
     \<lparr>ReadEvent = \<lambda>timeout c n. Some (sim_ReadEvent x timeout c n), WriteMessage = sim_WriteMessage x,
      ScheduleSlaveResponse = sim_ScheduleSlaveResponse x,
      RequestSlaveResponse = sim_RequestSlaveResponse x\<rparr>"

lemma sim_driver_sel [simp]:
  "ReadEvent (sim_driver x) timeout c n = Some (sim_ReadEvent x timeout c n)"
  "WriteMessage (sim_driver x) = sim_WriteMessage x"
  "ScheduleSlaveResponse (sim_driver x) = sim_ScheduleSlaveResponse x"
  "RequestSlaveResponse (sim_driver x) = sim_RequestSlaveResponse x"
  by (simp_all add: sim_driver_def)

subsection \<open>A node as a driver of the transport\<close>

text \<open>The events waiting for a node on a channel.\<close>

definition pending :: "Channel \<Rightarrow> SimulatedLinDriver \<Rightarrow> LinEvent list" where
  "pending channel d = (case d_eventQueues d channel of None \<Rightarrow> [] | Some q \<Rightarrow> chan_buf q)"

definition sim_waiting :: "node \<Rightarrow> Channel \<Rightarrow> SimulatedLinNetwork \<Rightarrow> nat" where
  "sim_waiting x channel n =
     (case driver_at x n of None \<Rightarrow> 0 | Some d \<Rightarrow> length (pending channel d))"

lemma readQueue_pending:
  "readQueue c d = (None, d') \<Longrightarrow> pending c d = [] \<and> pending c' d' = pending c' d"
  "readQueue c d = (Some e, d') \<Longrightarrow>
     pending c d = e # pending c d' \<and> (c' \<noteq> c \<longrightarrow> pending c' d' = pending c' d)"
  by (auto simp: readQueue_def eventQueue_def pending_def try_recv.simps Let_def
      split: option.splits list.splits if_splits)

lemma pushEvent_pending:
  assumes "\<And>q. d_eventQueues d (ev_Channel e) = Some q \<Longrightarrow> \<not> chan_closed q \<and> chan_cap q = 20"
  shows "pending c (pushEvent e d) =
    (if c = ev_Channel e \<and> length (pending c d) < 20 then pending c d @ [e] else pending c d)"
  using assms
  by (auto simp: pushEvent_def eventQueue_def pending_def try_send_def Let_def split: option.splits)

lemma driver_at_put:
  "driver_at x n = Some d0 \<Longrightarrow> driver_at y (put_driver x d n) = (if y = x then Some d else driver_at y n)"
  by (auto simp: driver_at_def put_driver_def split: node.splits if_splits)

lemma put_driver_now [simp]: "n_now (put_driver x d n) = n_now n"
  by (simp add: put_driver_def split: node.splits)

lemma driver_at_schedule [simp]:
  "driver_at y (snd (sim_ScheduleSlaveResponse x e c n)) = driver_at y n"
  by (auto simp: sim_ScheduleSlaveResponse_def scheduleSlaveResponse_def driver_at_def Let_def
      split: option.splits node.splits)

lemma driver_at_now [simp]: "driver_at y (n\<lparr>n_now := t\<rparr>) = driver_at y n"
  by (simp add: driver_at_def split: node.splits)

interpretation sim: finite_driver "sim_driver x" "sim_waiting x" for x
proof
  show "ReadEvent (sim_driver x) timeout c d \<noteq> None" for timeout c d by simp
next
  fix timeout c d ev d'
  assume "ReadEvent (sim_driver x) timeout c d = Some (Inr (Some ev), d')"
  then obtain dr dr' where dr: "driver_at x d = Some dr" "readQueue c dr = (Some ev, dr')"
    and d': "d' = put_driver x dr' d"
    by (auto simp: sim_ReadEvent_def split: option.splits prod.splits if_splits)
  then show "sim_waiting x c d' < sim_waiting x c d"
    using readQueue_pending(2) [OF dr(2)] by (simp add: sim_waiting_def driver_at_put [OF dr(1)])
next
  fix e c d r d'
  assume "ScheduleSlaveResponse (sim_driver x) e c d = (r, d')"
  then have "d' = snd (sim_ScheduleSlaveResponse x e c d)" by simp
  then show "sim_waiting x c d' \<le> sim_waiting x c d" by (simp add: sim_waiting_def)
qed

text \<open>Time never goes backwards over a driver call.\<close>

lemma sim_now:
  "n_now n \<le> n_now (snd (sim_ReadEvent x timeout c n))"
  "n_now (snd (sim_WriteMessage x e c n)) = n_now n"
  "n_now (snd (sim_ScheduleSlaveResponse x e c n)) = n_now n"
  "n_now (snd (sim_RequestSlaveResponse x i c n)) = n_now n"
  by (auto simp: sim_ReadEvent_def sim_WriteMessage_def sim_ScheduleSlaveResponse_def
      sim_RequestSlaveResponse_def writeMessage_def requestSlaveResponse_def
      scheduleSlaveResponse_def Let_def split: option.splits prod.splits)

lemma sim_now_read: "sim_ReadEvent x timeout c n = (r, n') \<Longrightarrow> n_now n \<le> n_now n'"
  using sim_now(1) [of n x timeout c] by simp

subsection \<open>Drivers that never turn back the clock\<close>

locale clocked_driver =
  fixes drv :: "'d Driver" and clock :: "'d \<Rightarrow> int"
  assumes read_clock: "ReadEvent drv timeout c d = Some (r, d') \<Longrightarrow> clock d \<le> clock d'"
    and write_clock: "clock d \<le> clock (snd (WriteMessage drv e c d))"
    and schedule_clock: "clock d \<le> clock (snd (ScheduleSlaveResponse drv e c d))"
    and request_clock: "clock d \<le> clock (snd (RequestSlaveResponse drv i c d))"
begin

lemma execute_clock:
  assumes "execute drv cl t d = Some (err, t', d')"
  shows "clock d \<le> clock d'"
proof (rule execute_invariant [where I = "\<lambda>t e. clock d \<le> clock e", OF assms order.refl])
  show "clock d \<le> clock e'" if "clock d \<le> clock e" "ReadEvent drv rt (t_channel u) e = Some (r, e')"
    for rt u e r e'
    using that read_clock [of rt "t_channel u" e r e'] by simp
next
  show "clock d \<le> clock e'" if "clock d \<le> clock e" "slave_send drv u e = (r, u', e')" for u e r u' e'
    using that order_trans [OF _ schedule_clock]
    by (cases rule: slave_send_cases [of u drv e]) auto
next
  show "clock d \<le> clock e'" if "clock d \<le> clock e" "master_send drv b u e = (r, u', e')"
    for u e b r u' e'
    using that order_trans [OF _ write_clock] order_trans [OF _ request_clock]
    by (cases rule: master_send_cases [of u drv b e]) auto
next
  show "clock d \<le> clock e2" if "clock d \<le> clock e1" "receiveFromDriver drv cl ev u e1 = (c, u2, e2)"
    for u ev e1 c u2 e2
    using that order_trans [OF _ schedule_clock]
    by (cases rule: receiveFromDriver_cases [of drv cl ev u e1]) auto
qed

end

interpretation sim_clock: clocked_driver "sim_driver x" n_now for x
  by unfold_locales (auto simp: sim_now dest: sim_now_read)

lemmas sim_run = sim_ReadEvent_def sim_WriteMessage_def sim_ScheduleSlaveResponse_def
  sim_RequestSlaveResponse_def writeMessage_def requestSlaveResponse_def scheduleSlaveResponse_def
  stamped_def driver_at_def put_driver_def readQueue_def pushEvent_def eventQueue_def
  GetMasterDriver_def CreateSlaveDriver_def NewSimulatedLinNetwork_def newSimulatedLinDriver_def

end
