(* ===== verification/Driver_Common.thy ===== *)
theory Driver_Common
  imports Simulation
begin

section \<open>What the hardware drivers share (\<^verbatim>\<open>driver/common.go\<close>)\<close>

text \<open>
  One mutex per channel, created on demand, and the master read that a driver builds from its
  own request and read operations. The log is in \<open>Log_Text\<close>. The read loop is over any driver
  operations; the locale \<open>timed_reader\<close> says when it ends.
\<close>

abbreviation (input) masterReadTimeout :: int where "masterReadTimeout \<equiv> 100 * Millisecond"

subsection \<open>Channel mutexes\<close>

text \<open>The map of the mutexes made so far, each locked or not. A blocked \<open>lock\<close> is \<open>None\<close>.\<close>

record channelMutexes =
  locks :: "Channel \<Rightarrow> bool option"

definition lock :: "Channel \<Rightarrow> channelMutexes \<Rightarrow> channelMutexes option" where
  "lock channel m =
     (let m = (if locks m channel = None then m\<lparr>locks := (locks m)(channel \<mapsto> False)\<rparr> else m)
      in if locks m channel = Some True then None
         else Some (m\<lparr>locks := (locks m)(channel \<mapsto> True)\<rparr>))"

definition unlock :: "Channel \<Rightarrow> channelMutexes \<Rightarrow> channelMutexes" where
  "unlock channel m = m\<lparr>locks := (locks m)(channel \<mapsto> False)\<rparr>"

lemma lock_free: "locks m c \<noteq> Some True \<Longrightarrow> \<exists>m'. lock c m = Some m'"
  by (cases "locks m c") (simp_all add: lock_def)

text \<open>
  The mutexes of a driver exclude each other on one channel only: locking a channel blocks
  exactly while it is locked, makes it locked, leaves every other channel as it was, and is
  undone by unlocking.
\<close>

theorem channel_locks_independent:
  "(lock c m = None \<longleftrightarrow> locks m c = Some True) \<and>
   (case lock c m of None \<Rightarrow> True
    | Some m' \<Rightarrow> lock c m' = None \<and> lock c (unlock c m') \<noteq> None \<and>
        (c' = c \<or> (locks m' c' = locks m c' \<and> locks (unlock c m') c' = locks m c')))"
  by (auto simp: lock_def unlock_def Let_def)

subsection \<open>Calls in order\<close>

text \<open>
  Calls of a vendor's library of which only the status matters, in order until one fails.
\<close>

fun call_all :: "('x \<Rightarrow> error option \<times> 'x) list \<Rightarrow> 'x \<Rightarrow> error option \<times> 'x" where
  "call_all [] x = (None, x)"
| "call_all (call # calls) x =
     (case call x of
        (Some err, x) \<Rightarrow> (Some err, x)
      | (None, x) \<Rightarrow> call_all calls x)"

subsection \<open>Event queues\<close>

text \<open>
  Every hardware driver keeps a map from channels to event queues, made on first use with a fixed
  capacity; an event for a full queue is dropped.
\<close>

type_synonym queues = "Channel \<Rightarrow> LinEvent chan option"

definition queue_at :: "nat \<Rightarrow> Channel \<Rightarrow> queues \<Rightarrow> LinEvent chan \<times> queues" where
  "queue_at cap channel qs =
     (case qs channel of
        Some q \<Rightarrow> (q, qs)
      | None \<Rightarrow> let q = make_chan cap in (q, qs(channel \<mapsto> q)))"

definition queue_put :: "nat \<Rightarrow> Channel \<Rightarrow> LinEvent \<Rightarrow> queues \<Rightarrow> queues" where
  "queue_put cap channel event qs =
     (let (q, qs) = queue_at cap channel qs in qs(channel \<mapsto> fst (try_send event q)))"

definition queue_get :: "nat \<Rightarrow> Channel \<Rightarrow> queues \<Rightarrow> LinEvent option \<times> queues" where
  "queue_get cap channel qs =
     (let (q, qs) = queue_at cap channel qs
      in case try_recv q of
           (q, Received event) \<Rightarrow> (Some event, qs(channel \<mapsto> q))
         | _ \<Rightarrow> (None, qs))"

definition queued :: "queues \<Rightarrow> Channel \<Rightarrow> LinEvent list" where
  "queued qs c = (case qs c of None \<Rightarrow> [] | Some q \<Rightarrow> chan_buf q)"

lemma queued_at [simp]: "queued (snd (queue_at cap c qs)) c' = queued qs c'"
  by (simp add: queue_at_def queued_def Let_def split: option.splits)

lemma queue_get_None: "queue_get cap c qs = (None, qs') \<Longrightarrow> queued qs c = [] \<and> queued qs' c' = queued qs c'"
  by (auto simp: queue_get_def queue_at_def queued_def try_recv.simps Let_def
      split: option.splits list.splits if_splits)

lemma queue_get_Some:
  "queue_get cap c qs = (Some e, qs') \<Longrightarrow>
   queued qs c = e # queued qs' c \<and> (c' \<noteq> c \<longrightarrow> queued qs' c' = queued qs c')"
  by (auto simp: queue_get_def queue_at_def queued_def try_recv.simps Let_def
      split: option.splits list.splits if_splits)

lemma queued_put: "set (queued (queue_put cap c e qs) c') \<subseteq> set (queued qs c') \<union> (if c' = c then {e} else {})"
  by (auto simp: queue_put_def queue_at_def queued_def try_send_def Let_def split: option.splits if_splits)

lemma queued_put_other: "c' \<noteq> c \<Longrightarrow> queued (queue_put cap c e qs) c' = queued qs c'"
  by (auto simp: queue_put_def queue_at_def queued_def Let_def split: option.splits prod.splits)

lemma queue_put_length: "length (queued (queue_put cap c e qs) c') \<le> Suc (length (queued qs c'))"
  by (auto simp: queue_put_def queue_at_def queued_def try_send_def Let_def split: option.splits)

lemma queued_put_room:
  assumes "\<And>q. qs c = Some q \<Longrightarrow> \<not> chan_closed q \<and> chan_cap q = cap" and "length (queued qs c) < cap"
  shows "queued (queue_put cap c e qs) c' = queued qs c' @ (if c' = c then [e] else [])"
  using assms by (cases "qs c") (auto simp: queue_put_def queue_at_def queued_def try_send_def Let_def)

text \<open>Queues that are open and of their capacity keep the first events put, and drop the rest.\<close>

definition queues_open :: "nat \<Rightarrow> queues \<Rightarrow> bool" where
  "queues_open cap qs \<longleftrightarrow> (\<forall>c q. qs c = Some q \<longrightarrow> \<not> chan_closed q \<and> chan_cap q = cap)"

lemma queues_open_simps [simp]:
  "queues_open cap (\<lambda>_. None)"
  "queues_open cap qs \<Longrightarrow> queues_open cap (snd (queue_at cap c qs))"
  "queues_open cap qs \<Longrightarrow> queues_open cap (queue_put cap c e qs)"
  by (auto simp: queues_open_def queue_at_def queue_put_def make_chan_def try_send_def Let_def
      split: option.splits if_splits)

lemma queues_open_get: "queues_open cap qs \<Longrightarrow> queue_get cap c qs = (r, qs') \<Longrightarrow> queues_open cap qs'"
  by (auto simp: queues_open_def queue_at_def queue_get_def make_chan_def try_recv.simps Let_def
      split: option.splits if_splits list.splits)

lemma queued_put_full:
  "queues_open cap qs \<Longrightarrow> cap \<le> length (queued qs c) \<Longrightarrow> 0 < cap \<Longrightarrow> queued (queue_put cap c e qs) c = queued qs c"
  by (auto simp: queues_open_def queue_put_def queue_at_def queued_def try_send_def Let_def split: option.splits)

lemma queued_put_all:
  assumes "queues_open cap qs" and "0 < cap"
  shows "queued (fold (queue_put cap c) es qs) c = queued qs c @ take (cap - length (queued qs c)) es"
  using assms(1)
proof (induction es arbitrary: qs)
  case (Cons e es)
  show ?case
  proof (cases "length (queued qs c) < cap")
    case True
    then have "queued (queue_put cap c e qs) c = queued qs c @ [e]"
      using Cons.prems by (subst queued_put_room) (auto simp: queues_open_def)
    then show ?thesis using Cons True by (simp add: take_Cons')
  next
    case False
    then show ?thesis using Cons by (simp add: queued_put_full assms(2))
  qed
qed simp

text \<open>All queued events of a channel have a property, which the operations keep.\<close>

definition all_queued :: "(Channel \<Rightarrow> LinEvent \<Rightarrow> bool) \<Rightarrow> queues \<Rightarrow> bool" where
  "all_queued P qs \<longleftrightarrow> (\<forall>c. \<forall>e \<in> set (queued qs c). P c e)"

lemma all_queued_empty [simp]: "all_queued P (\<lambda>_. None)"
  by (simp add: all_queued_def queued_def)

lemma all_queued_at [simp]: "all_queued P (snd (queue_at cap c qs)) = all_queued P qs"
  by (simp add: all_queued_def)

lemma all_queued_get:
  assumes "all_queued P qs" and "queue_get cap c qs = (r, qs')"
  shows "all_queued P qs' \<and> (\<forall>e. r = Some e \<longrightarrow> P c e)"
proof (cases r)
  case None
  then show ?thesis using assms queue_get_None [of cap c qs qs'] by (simp add: all_queued_def)
next
  case (Some e)
  then have g: "queued qs c = e # queued qs' c" "c' \<noteq> c \<Longrightarrow> queued qs' c' = queued qs c'" for c'
    using assms(2) queue_get_Some [of cap c qs e qs'] by auto
  have "P c' x" if "x \<in> set (queued qs' c')" for c' x
    using that g assms(1) by (cases "c' = c") (auto simp: all_queued_def)
  then show ?thesis using g(1) assms(1) Some by (auto simp: all_queued_def)
qed

lemma all_queued_put: "all_queued P qs \<Longrightarrow> P c e \<Longrightarrow> all_queued P (queue_put cap c e qs)"
  using queued_put [of cap c e qs] unfolding all_queued_def by (fastforce split: if_splits)

text \<open>
  The events the drivers should report on a channel: of that channel, with an identifier of six
  bits and at most eight bytes.
\<close>

definition lin_frame :: "Channel \<Rightarrow> LinEvent \<Rightarrow> bool" where
  "lin_frame c e \<longleftrightarrow> ev_Channel e = c \<and> length (EventPayload e) \<le> 8 \<and> EventID e \<le> 0x3F"

subsection \<open>Polling an adapter\<close>

text \<open>
  The read loops poll an adapter until a deadline. What makes them end: a poll does not turn back
  the clock, a poll that yields a message leaves fewer messages behind (\<open>backlog\<close>), and a sleep
  lasts. \<open>poll\<close> says whether there was a message.
\<close>

definition runs_dry :: "('x \<Rightarrow> int) \<Rightarrow> (int \<Rightarrow> 'x \<Rightarrow> 'x) \<Rightarrow> ('x \<Rightarrow> bool \<times> 'x) \<Rightarrow> ('x \<Rightarrow> nat) \<Rightarrow> bool" where
  "runs_dry now sleep poll backlog \<longleftrightarrow>
     (\<forall>x. now x \<le> now (snd (poll x)) \<and> (fst (poll x) \<longrightarrow> backlog (snd (poll x)) < backlog x)) \<and>
     (\<forall>w x. 0 < w \<longrightarrow> now x + w \<le> now (sleep w x))"

text \<open>The measure of a polling loop: the time left, then the messages left.\<close>

definition poll_rel :: "(nat \<times> nat) rel" where
  "poll_rel = less_than <*lex*> less_than"

lemma wf_poll_rel: "wf poll_rel"
  unfolding poll_rel_def by (rule wf_lex_prod) simp_all

lemma poll_message:
  "runs_dry now sleep poll backlog \<Longrightarrow> poll x = (True, x') \<Longrightarrow>
   ((nat (d - now x'), backlog x'), (nat (d - now x), backlog x)) \<in> poll_rel"
  unfolding runs_dry_def poll_rel_def by (metis fst_conv in_lex_prod less_than_iff nat_mono diff_left_mono snd_conv nless_le)

lemma poll_sleep:
  assumes "runs_dry now sleep poll backlog" and "poll x = (b, x')" and "0 < w" and "now x' < d"
  shows "((nat (d - now (sleep w x')), n), (nat (d - now x), m)) \<in> poll_rel"
proof -
  have "now x \<le> now x'" "now x' + w \<le> now (sleep w x')"
    using assms(1,2,3) unfolding runs_dry_def by (metis snd_conv)+
  then show ?thesis using assms(3,4) by (simp add: poll_rel_def)
qed

lemma runs_dryD:
  assumes "runs_dry now sleep poll backlog"
  shows "poll x = (b, x') \<Longrightarrow> now x \<le> now x'"
    and "poll x = (True, x') \<Longrightarrow> backlog x' < backlog x"
    and "0 < w \<Longrightarrow> now x < now (sleep w x)"
proof -
  show "now x \<le> now x'" if "poll x = (b, x')" using assms that unfolding runs_dry_def by (metis snd_conv)
  show "backlog x' < backlog x" if "poll x = (True, x')" using assms that unfolding runs_dry_def by (metis fst_conv snd_conv)
  assume "0 < w"
  then have "now x + w \<le> now (sleep w x)" using assms unfolding runs_dry_def by blast
  then show "now x < now (sleep w x)" using \<open>0 < w\<close> by linarith
qed

text \<open>
  A loop whose body is a function of the state: it returns (\<open>Inl\<close>) or goes round again with a new
  state (\<open>Inr\<close>). It returns when every round that goes on makes a measure smaller, and what all
  rounds keep holds of the result.
\<close>

partial_function (option) loop :: "('s \<Rightarrow> 'r + 's) \<Rightarrow> 's \<Rightarrow> 'r option" where
  "loop body s = (case body s of Inl r \<Rightarrow> Some r | Inr s \<Rightarrow> loop body s)"

lemma loop_Inl: "body s = Inl r \<Longrightarrow> loop body s = Some r"
  by (subst loop.simps) simp

lemma loop_Inr: "body s = Inr s' \<Longrightarrow> loop body s = loop body s'"
  by (simp add: loop.simps [of body s])

lemma loop_returns:
  assumes "wf R" and "\<And>s s'. body s = Inr s' \<Longrightarrow> (f s', f s) \<in> R"
  shows "\<exists>r. loop body s = Some r"
proof (induction "f s" arbitrary: s rule: wf_induct_rule [OF assms(1), case_names less])
  case (less s)
  show ?case
  proof (cases "body s")
    case (Inl r)
    then show ?thesis by (simp add: loop_Inl)
  next
    case (Inr s')
    from less [OF assms(2) [OF Inr]] show ?thesis by (simp add: loop_Inr [of body, OF Inr])
  qed
qed

lemma loop_keeps:
  assumes "loop body s = Some r" and "P s"
    and "\<And>s s'. body s = Inr s' \<Longrightarrow> P s \<Longrightarrow> P s'" and "\<And>s r. body s = Inl r \<Longrightarrow> P s \<Longrightarrow> Q r"
  shows "Q r"
proof -
  have "b = body \<Longrightarrow> P s \<Longrightarrow> Q r" if "loop b s = Some r" for b
    using that
  proof (induction rule: loop.raw_induct [rotated, consumes 1, case_names step])
    case (step f b s r)
    show ?case
    proof (cases "b s")
      case (Inl r')
      then show ?thesis using step assms(4) by simp
    next
      case (Inr s')
      then have "f b s' = Some r" "P s'" using step assms(3) by simp_all
      then show ?thesis using step.IH step.prems(1) by blast
    qed
  qed
  with assms(1,2) show ?thesis by blast
qed

text \<open>The same for a body that may itself not return.\<close>

partial_function (option) try_loop :: "('s \<Rightarrow> ('r + 's) option) \<Rightarrow> 's \<Rightarrow> 'r option" where
  "try_loop body s =
     (case body s of None \<Rightarrow> None | Some (Inl r) \<Rightarrow> Some r | Some (Inr s) \<Rightarrow> try_loop body s)"

lemma try_loop_returns:
  assumes "wf R" and "\<And>s. body s \<noteq> None" and "\<And>s s'. body s = Some (Inr s') \<Longrightarrow> (f s', f s) \<in> R"
  shows "\<exists>r. try_loop body s = Some r"
proof (induction "f s" arbitrary: s rule: wf_induct_rule [OF assms(1), case_names less])
  case (less s)
  obtain z where z: "body s = Some z" using assms(2) by blast
  show ?case
  proof (cases z)
    case (Inl r)
    then show ?thesis by (subst try_loop.simps) (simp add: z)
  next
    case (Inr s')
    from less [OF assms(3) [OF z [unfolded Inr]]] show ?thesis
      by (subst try_loop.simps) (simp add: z Inr)
  qed
qed

lemma try_loop_keeps:
  assumes "try_loop body s = Some r" and "P s"
    and "\<And>s s'. body s = Some (Inr s') \<Longrightarrow> P s \<Longrightarrow> P s'"
    and "\<And>s r. body s = Some (Inl r) \<Longrightarrow> P s \<Longrightarrow> Q r"
  shows "Q r"
proof -
  have "b = body \<Longrightarrow> P s \<Longrightarrow> Q r" if "try_loop b s = Some r" for b
    using that
  proof (induction rule: try_loop.raw_induct [rotated, consumes 1, case_names step])
    case (step f b s r)
    then show ?case using assms(3,4) by (fastforce split: option.splits sum.splits)
  qed
  with assms(1,2) show ?thesis by blast
qed

lemma read_result_cases:
  fixes r :: "'e + 'a option"
  obtains (err) e where "r = Inl e" | (event) x where "r = Inr (Some x)" | (empty) "r = Inr None"
proof (cases r)
  case (Inl e)
  then show ?thesis by (rule err)
next
  case (Inr y)
  then show ?thesis using Inr by (cases y) (simp_all add: event empty)
qed

text \<open>
  The loops of the drivers' \<open>ReadEvent\<close>. A round that goes on (\<open>Inr\<close>) has slept before the
  deadline or has left fewer events waiting; a round that returns has an event of the channel, or
  nothing after the deadline, or an error. \<open>dry\<close> is what a driver needs of its adapter for the
  statements on time.
\<close>

locale polling =
  fixes dry :: bool
    and now :: "'s \<Rightarrow> int"
    and waiting :: "Channel \<Rightarrow> 's \<Rightarrow> nat"
    and good :: "'s \<Rightarrow> bool"
    and frame :: "Channel \<Rightarrow> LinEvent \<Rightarrow> bool"
    and body :: "int \<Rightarrow> Channel \<Rightarrow> int \<Rightarrow> 's \<Rightarrow> ((error + LinEvent option) \<times> 's) + 's"
  assumes again_good: "body timeout c deadline s = Inr s' \<Longrightarrow> good s \<Longrightarrow> good s'"
    and return_good: "body timeout c deadline s = Inl (r, s') \<Longrightarrow> good s \<Longrightarrow>
      good s' \<and> (\<forall>ev. r = Inr (Some ev) \<longrightarrow> frame c ev)"
    and return_late: "body timeout c deadline s = Inl (Inr None, s') \<Longrightarrow> 0 < timeout \<Longrightarrow> deadline \<le> now s'"
    and again_dry: "dry \<Longrightarrow> body timeout c deadline s = Inr s' \<Longrightarrow>
      now s < now s' \<and> now s < deadline \<or> now s \<le> now s' \<and> waiting c s' < waiting c s"
    and return_dry: "dry \<Longrightarrow> body timeout c deadline s = Inl (Inr (Some ev), s') \<Longrightarrow>
      now s \<le> now s' \<and> (now s' = now s \<longrightarrow> waiting c s' < waiting c s)"
begin

lemma read_returns:
  assumes dry
  shows "\<exists>r s'. loop (body timeout c deadline) s = Some (r, s')"
proof -
  have "\<exists>r. loop (body timeout c deadline) s = Some r"
  proof (rule loop_returns [OF wf_poll_rel, where f = "\<lambda>s. (nat (deadline - now s), waiting c s)"])
    fix s s'
    assume "body timeout c deadline s = Inr s'"
    from again_dry [OF assms this]
    show "((nat (deadline - now s'), waiting c s'), (nat (deadline - now s), waiting c s)) \<in> poll_rel"
      by (auto simp: poll_rel_def)
  qed
  then show ?thesis by simp
qed

lemma read_good:
  assumes "loop (body timeout c deadline) s = Some (r, s')" and "good s"
  shows "good s' \<and> (\<forall>ev. r = Inr (Some ev) \<longrightarrow> frame c ev)"
  using loop_keeps [where P = good and Q = "\<lambda>(r, s'). good s' \<and> (\<forall>ev. r = Inr (Some ev) \<longrightarrow> frame c ev)",
      OF assms] again_good return_good
  by fast

lemma read_late:
  assumes "loop (body timeout c deadline) s = Some (Inr None, s')" and "0 < timeout"
  shows "deadline \<le> now s'"
  using loop_keeps [where P = "\<lambda>_. True" and Q = "\<lambda>(r, s'). r = Inr None \<longrightarrow> deadline \<le> now s'",
      OF assms(1)] return_late assms(2)
  by fast

lemma read_shrinks:
  assumes dry and "loop (body timeout c deadline) s = Some (Inr (Some ev), s')"
  shows "now s \<le> now s' \<and> (now s' = now s \<longrightarrow> waiting c s' < waiting c s)"
proof -
  let ?P = "\<lambda>t. now s \<le> now t \<and> (now t = now s \<longrightarrow> waiting c t \<le> waiting c s)"
  let ?Q = "\<lambda>r. fst r = (Inr (Some ev) :: error + LinEvent option) \<longrightarrow>
    now s \<le> now (snd r) \<and> (now (snd r) = now s \<longrightarrow> waiting c (snd r) < waiting c s)"
  have "?Q (Inr (Some ev), s')"
  proof (rule loop_keeps [where P = ?P and Q = ?Q, OF assms(2)])
    fix t t'
    assume "body timeout c deadline t = Inr t'" "now s \<le> now t \<and> (now t = now s \<longrightarrow> waiting c t \<le> waiting c s)"
    then show "now s \<le> now t' \<and> (now t' = now s \<longrightarrow> waiting c t' \<le> waiting c s)"
      using again_dry [OF assms(1)] by fastforce
  next
    fix t r
    assume ret: "body timeout c deadline t = Inl r"
      and t: "now s \<le> now t \<and> (now t = now s \<longrightarrow> waiting c t \<le> waiting c s)"
    obtain y s1 where r: "r = (y, s1)" by fastforce
    have "now s \<le> now s1 \<and> (now s1 = now s \<longrightarrow> waiting c s1 < waiting c s)" if "y = Inr (Some ev)"
    proof -
      have step: "now t \<le> now s1" "now s1 = now t \<longrightarrow> waiting c s1 < waiting c t"
        using return_dry [OF assms(1)] ret that by (simp_all add: r)
      show ?thesis
      proof (intro conjI impI)
        show "now s \<le> now s1" using step t by linarith
        assume "now s1 = now s"
        then have "now t = now s" using step t by linarith
        then show "waiting c s1 < waiting c s" using step t \<open>now s1 = now s\<close> by linarith
      qed
    qed
    then show "?Q r" by (simp add: r)
  qed simp
  then show ?thesis by simp
qed

end

subsection \<open>Master read\<close>

definition await_round ::
    "('d \<Rightarrow> int) \<Rightarrow> (int \<Rightarrow> Channel \<Rightarrow> 'd \<Rightarrow> ((error + LinEvent option) \<times> 'd) option) \<Rightarrow>
     byte \<Rightarrow> Channel \<Rightarrow> int \<Rightarrow> 'd \<Rightarrow> (((error + byte list) \<times> 'd) + 'd) option" where
  "await_round clock read frameID channel deadline d =
     (let remaining = deadline - clock d
      in if remaining \<le> 0 then Some (Inl (Inl ErrNoSlaveResponse, d))
         else case read remaining channel d of
                None \<Rightarrow> None
              | Some (Inl err, d) \<Rightarrow> Some (Inl (Inl err, d))
              | Some (Inr None, d) \<Rightarrow> Some (Inr d)
              | Some (Inr (Some event), d) \<Rightarrow>
                  if ev_Channel event \<noteq> channel \<or> EventID event \<noteq> frameID \<or> ev_Direction event \<noteq> RX
                  then Some (Inr d)
                  else Some (Inl (Inr (EventPayload event), d)))"

definition await_response ::
    "('d \<Rightarrow> int) \<Rightarrow> (int \<Rightarrow> Channel \<Rightarrow> 'd \<Rightarrow> ((error + LinEvent option) \<times> 'd) option) \<Rightarrow>
     byte \<Rightarrow> Channel \<Rightarrow> int \<Rightarrow> 'd \<Rightarrow> ((error + byte list) \<times> 'd) option" where
  "await_response clock read frameID channel deadline d =
     try_loop (await_round clock read frameID channel deadline) d"

text \<open>A round, by what it read.\<close>

lemma await_round_cases:
  assumes "await_round clock read i c deadline d = z"
  obtains (late) "deadline \<le> clock d" "z = Some (Inl (Inl ErrNoSlaveResponse, d))"
  | (hang) "clock d < deadline" "read (deadline - clock d) c d = None" "z = None"
  | (error) err d' where "clock d < deadline" "read (deadline - clock d) c d = Some (Inl err, d')" "z = Some (Inl (Inl err, d'))"
  | (again) r d' where "clock d < deadline" "read (deadline - clock d) c d = Some (Inr r, d')" "z = Some (Inr d')"
  | (answer) ev d' where "clock d < deadline" "read (deadline - clock d) c d = Some (Inr (Some ev), d')"
      "ev_Channel ev = c" "EventID ev = i" "ev_Direction ev = RX" "z = Some (Inl (Inr (EventPayload ev), d'))"
proof (cases "deadline \<le> clock d")
  case False
  show thesis
  proof (cases "read (deadline - clock d) c d")
    case None
    then show thesis using assms False hang by (auto simp: await_round_def Let_def)
  next
    case (Some x)
    then obtain r d' where r: "read (deadline - clock d) c d = Some (r, d')" by (cases x) simp
    show thesis
    proof (cases r rule: read_result_cases)
      case (event ev)
      then show thesis
        using assms False r again answer
        by (cases "ev_Channel ev = c \<and> EventID ev = i \<and> ev_Direction ev = RX")
           (auto simp: await_round_def Let_def)
    qed (use assms False r error again in \<open>auto simp: await_round_def Let_def\<close>)
  qed
qed (use assms late in \<open>auto simp: await_round_def Let_def\<close>)

definition readMasterResponse ::
    "('d \<Rightarrow> int) \<Rightarrow> byte \<Rightarrow> Channel \<Rightarrow> int \<Rightarrow> (byte \<Rightarrow> Channel \<Rightarrow> 'd \<Rightarrow> error option \<times> 'd) \<Rightarrow>
     (int \<Rightarrow> Channel \<Rightarrow> 'd \<Rightarrow> ((error + LinEvent option) \<times> 'd) option) \<Rightarrow>
     'd \<Rightarrow> ((error + byte list) \<times> 'd) option" where
  "readMasterResponse clock frameID channel timeout request read d =
     (if frameID > 0x3F then Some (Inl (ErrorText ''invalid LIN frame ID'' [uint frameID]), d)
      else case request frameID channel d of
             (Some err, d) \<Rightarrow> Some (Inl err, d)
           | (None, d) \<Rightarrow>
               let deadline = clock d + timeout
               in await_response clock read frameID channel deadline d)"

text \<open>
  What a read operation must do for the loop to end: it returns; a read of an event does not turn back the clock
  and takes time or leaves fewer events waiting; a read that finds nothing has waited for its timeout.
\<close>

locale timed_reader =
  fixes clock :: "'d \<Rightarrow> int"
    and read :: "int \<Rightarrow> Channel \<Rightarrow> 'd \<Rightarrow> ((error + LinEvent option) \<times> 'd) option"
    and waiting :: "Channel \<Rightarrow> 'd \<Rightarrow> nat"
  assumes read_ends: "0 < timeout \<Longrightarrow> read timeout c d \<noteq> None"
    and event_shrinks: "0 < timeout \<Longrightarrow> read timeout c d = Some (Inr (Some ev), d') \<Longrightarrow>
      clock d \<le> clock d' \<and> (clock d' = clock d \<longrightarrow> waiting c d' < waiting c d)"
    and nothing_waits: "0 < timeout \<Longrightarrow> read timeout c d = Some (Inr None, d') \<Longrightarrow>
      clock d + timeout \<le> clock d'"
begin

lemma await_response_returns: "\<exists>r. await_response clock read frameID c deadline d = Some r"
  unfolding await_response_def
proof (rule try_loop_returns [OF wf_poll_rel, where f = "\<lambda>d. (nat (deadline - clock d), waiting c d)"])
  show "await_round clock read frameID c deadline d \<noteq> None" for d
  proof
    assume "await_round clock read frameID c deadline d = None"
    then show False using read_ends [of "deadline - clock d" c d] by (cases rule: await_round_cases) auto
  qed
next
  fix d d'
  assume "await_round clock read frameID c deadline d = Some (Inr d')"
  then obtain r where r: "clock d < deadline" "read (deadline - clock d) c d = Some (Inr r, d')"
    by (cases rule: await_round_cases) auto
  show "((nat (deadline - clock d'), waiting c d'), nat (deadline - clock d), waiting c d) \<in> poll_rel"
  proof (cases r)
    case None
    then show ?thesis using r nothing_waits [of "deadline - clock d" c d d'] by (simp add: poll_rel_def)
  next
    case (Some ev)
    then show ?thesis using r event_shrinks [of "deadline - clock d" c d ev d'] by (auto simp: poll_rel_def)
  qed
qed

lemma readMasterResponse_returns:
  "\<exists>r. readMasterResponse clock frameID c timeout request read d = Some r"
proof (cases "frameID > 0x3F")
  case False
  obtain e d1 where "request frameID c d = (e, d1)" by fastforce
  then show ?thesis
    using False await_response_returns
    by (cases e) (simp_all add: readMasterResponse_def Let_def del: split_paired_Ex)
qed (simp add: readMasterResponse_def)

end

text \<open>
  A read that checks the channel, prepares its queue and polls until the deadline is a timed
  reader.
\<close>

context polling
begin

lemma polled_read_cases:
  assumes read: "read = (case err of Some err \<Rightarrow> Some (Inl err, s)
      | None \<Rightarrow> loop (body timeout c (now s + timeout)) q)"
    and prep: "now q = now s" "waiting c q = waiting c s"
    and res: "read = Some (r, s')" and timeout: "0 < timeout" and dry
  shows "(\<forall>ev. r = Inr (Some ev) \<longrightarrow> now s \<le> now s' \<and> (now s' = now s \<longrightarrow> waiting c s' < waiting c s)) \<and>
    (r = Inr None \<longrightarrow> now s + timeout \<le> now s')"
proof (cases err)
  case None
  obtain r2 s2 where l: "loop (body timeout c (now s + timeout)) q = Some (r2, s2)"
    using read_returns [OF \<open>dry\<close>] by blast
  then have "r2 = r" "s2 = s'" using read res None by simp_all
  then show ?thesis using l read_late [OF _ timeout] read_shrinks [OF \<open>dry\<close>] prep by metis
next
  case (Some e)
  then show ?thesis using read res by auto
qed

lemma polled_timed:
  assumes dry and "\<And>timeout c s. \<exists>err q. now q = now s \<and> waiting c q = waiting c s \<and>
    read timeout c s = (case err of Some err \<Rightarrow> Some (Inl err, s)
      | None \<Rightarrow> loop (body timeout c (now s + timeout)) q)"
  shows "timed_reader now read waiting"
proof
  fix timeout c s ev s'
  from assms(2) obtain err q where q: "now q = now s" "waiting c q = waiting c s" and
    r: "read timeout c s = (case err of Some err \<Rightarrow> Some (Inl err, s)
      | None \<Rightarrow> loop (body timeout c (now s + timeout)) q)" by blast
  show "read timeout c s \<noteq> None"
    using read_returns [OF assms(1), of timeout c "now s + timeout" q] by (auto simp: r split: option.splits)
  show "now s \<le> now s' \<and> (now s' = now s \<longrightarrow> waiting c s' < waiting c s)"
    if "0 < timeout" "read timeout c s = Some (Inr (Some ev), s')"
    using polled_read_cases [OF r q that(2) that(1) assms(1)] by simp
  show "now s + timeout \<le> now s'" if "0 < timeout" "read timeout c s = Some (Inr None, s')"
    using polled_read_cases [OF r q that(2) that(1) assms(1)] by simp
qed

lemma polled_read_good:
  assumes read: "(case err of Some err \<Rightarrow> Some (Inl err, s) | None \<Rightarrow> loop (body timeout c deadline) q) = Some (r, s')"
    and "good s" and "good q"
  shows "good s' \<and> (\<forall>ev. r = Inr (Some ev) \<longrightarrow> frame c ev)"
  using assms read_good [of timeout c deadline q r s'] by (cases err) auto

end

text \<open>A result is the payload of a received frame with the identifier asked for.\<close>

lemma await_response_sound:
  assumes "await_response clock read frameID channel deadline d = Some (Inr p, d')"
  shows "\<exists>timeout d1 ev. read timeout channel d1 = Some (Inr (Some ev), d') \<and> 0 < timeout \<and>
     ev_Channel ev = channel \<and> EventID ev = frameID \<and> ev_Direction ev = RX \<and> p = EventPayload ev"
proof -
  let ?Q = "\<lambda>z. \<forall>p. fst z = Inr p \<longrightarrow> (\<exists>timeout d1 ev. read timeout channel d1 = Some (Inr (Some ev), snd z) \<and>
    0 < timeout \<and> ev_Channel ev = channel \<and> EventID ev = frameID \<and> ev_Direction ev = RX \<and> p = EventPayload ev)"
  have "?Q z" if "await_round clock read frameID channel deadline d = Some (Inl z)" for d z
    using that
  proof (cases rule: await_round_cases)
    case (answer ev d')
    then show ?thesis by (auto intro!: exI [of _ "deadline - clock d"] exI [of _ d] exI [of _ ev])
  qed auto
  from try_loop_keeps [where P = "\<lambda>_. True" and Q = ?Q, OF assms [unfolded await_response_def] _ _ this]
  show ?thesis by simp
qed

text \<open>What every read keeps is kept, and a payload is that of a frame the reads may report.\<close>

lemma await_response_good:
  assumes "await_response clock read i c deadline d = Some (r, d')" and "good d"
    and "\<And>timeout d r d'. good d \<Longrightarrow> read timeout c d = Some (r, d') \<Longrightarrow>
      good d' \<and> (\<forall>ev. r = Inr (Some ev) \<longrightarrow> frame c ev)"
  shows "good d' \<and> (\<forall>p. r = Inr p \<longrightarrow> (\<exists>ev. frame c ev \<and> EventID ev = i \<and> p = EventPayload ev))"
proof -
  let ?Q = "\<lambda>z. good (snd z) \<and>
    (\<forall>p. fst z = Inr p \<longrightarrow> (\<exists>ev. frame c ev \<and> EventID ev = i \<and> p = EventPayload ev))"
  have ret: "?Q z" if "await_round clock read i c deadline d = Some (Inl z)" "good d" for d z
    using that(1)
  proof (cases rule: await_round_cases)
    case (answer ev d')
    then show ?thesis using assms(3) [OF that(2), of "deadline - clock d" "Inr (Some ev)" d'] by auto
  qed (use that(2) in \<open>auto dest: assms(3)\<close>)
  have again: "good d'" if "await_round clock read i c deadline d = Some (Inr d')" "good d" for d d'
    using that by (cases rule: await_round_cases) (auto dest: assms(3))
  from try_loop_keeps [where P = good and Q = ?Q, OF assms(1) [unfolded await_response_def] assms(2)]
  show ?thesis using ret again by (metis fst_conv snd_conv)
qed

lemma readMasterResponse_good:
  assumes "readMasterResponse clock i c timeout request read d = Some (r, d')" and "good d"
    and "\<And>timeout d r d'. good d \<Longrightarrow> read timeout c d = Some (r, d') \<Longrightarrow>
      good d' \<and> (\<forall>ev. r = Inr (Some ev) \<longrightarrow> frame c ev)"
    and "\<And>d. good d \<Longrightarrow> good (snd (request i c d))"
  shows "good d' \<and> (\<forall>p. r = Inr p \<longrightarrow> (\<exists>ev. frame c ev \<and> EventID ev = i \<and> p = EventPayload ev))"
proof (cases "i > 0x3F")
  case True
  then show ?thesis using assms(1,2) by (auto simp: readMasterResponse_def)
next
  case False
  obtain e d1 where e: "request i c d = (e, d1)" by fastforce
  have d1: "good d1" using assms(4) [OF assms(2)] by (simp add: e)
  show ?thesis
  proof (cases e)
    case None
    then have "await_response clock read i c (clock d1 + timeout) d1 = Some (r, d')"
      using assms(1) False by (simp add: readMasterResponse_def e)
    from this d1 show ?thesis by (rule await_response_good) (rule assms(3))
  qed (use assms(1) False d1 in \<open>auto simp: readMasterResponse_def e\<close>)
qed

text \<open>The simulated drivers are timed readers.\<close>

interpretation sim_read: timed_reader n_now "ReadEvent (sim_driver x)" "sim_waiting x" for x
proof
  show "ReadEvent (sim_driver x) timeout c d \<noteq> None" for timeout c d by simp
  show "n_now d \<le> n_now d' \<and> (n_now d' = n_now d \<longrightarrow> sim_waiting x c d' < sim_waiting x c d)"
    if "0 < timeout" "ReadEvent (sim_driver x) timeout c d = Some (Inr (Some ev), d')" for timeout c d ev d'
    using that sim.read_shrinks [of x timeout c d ev d'] sim_now(1) [of d x timeout c] by simp
  show "n_now d + timeout \<le> n_now d'"
    if "0 < timeout" "ReadEvent (sim_driver x) timeout c d = Some (Inr None, d')" for timeout c d d'
    using that by (auto simp: sim_ReadEvent_def split: option.splits prod.splits if_splits)
qed

text \<open>
  A master read ends, and with the right frame. Over the simulated network,
  \<open>readMasterResponse\<close> returns within its timeout whatever the request does; it rejects
  identifiers above 0x3F without a request; and a payload it returns is that of a received
  event of the channel and identifier asked for.
\<close>

theorem readMasterResponse_correct:
  "(\<exists>r. readMasterResponse n_now frameID c timeout request (ReadEvent (sim_driver x)) n = Some r) \<and>
   (\<forall>r n'. readMasterResponse n_now frameID c timeout request (ReadEvent (sim_driver x)) n = Some (r, n') \<longrightarrow>
      (if frameID > 0x3F then r = Inl (ErrorText ''invalid LIN frame ID'' [uint frameID]) \<and> n' = n
       else case r of
              Inl err \<Rightarrow> err = ErrNoSlaveResponse \<or> fst (request frameID c n) = Some err
            | Inr p \<Rightarrow> \<exists>t n1 ev. ReadEvent (sim_driver x) t c n1 = Some (Inr (Some ev), n') \<and> 0 < t \<and>
                ev_Channel ev = c \<and> EventID ev = frameID \<and> ev_Direction ev = RX \<and> p = EventPayload ev))"
proof -
  have no_error: "ReadEvent (sim_driver x) t ch m \<noteq> Some (Inl e, m')" for t ch m e m'
    by (auto simp: sim_ReadEvent_def split: option.splits prod.splits)
  have only: "err = ErrNoSlaveResponse"
    if "await_response n_now (ReadEvent (sim_driver x)) frameID c dl m = Some (Inl err, n')" for dl m err n'
  proof -
    let ?Q = "\<lambda>z. \<forall>e. fst z = Inl e \<longrightarrow> e = ErrNoSlaveResponse"
    have "?Q z" if "await_round n_now (ReadEvent (sim_driver x)) frameID c dl m = Some (Inl z)" for m z
      using that by (cases rule: await_round_cases) (use no_error in auto)
    from try_loop_keeps [where P = "\<lambda>_. True" and Q = ?Q, OF that [unfolded await_response_def] _ _ this]
    show ?thesis by simp
  qed
  show ?thesis
  proof (intro conjI allI impI)
    show "\<exists>r. readMasterResponse n_now frameID c timeout request (ReadEvent (sim_driver x)) n = Some r"
      by (rule sim_read.readMasterResponse_returns)
    fix r n'
    assume res: "readMasterResponse n_now frameID c timeout request (ReadEvent (sim_driver x)) n = Some (r, n')"
    show "if frameID > 0x3F then r = Inl (ErrorText ''invalid LIN frame ID'' [uint frameID]) \<and> n' = n
       else case r of
              Inl err \<Rightarrow> err = ErrNoSlaveResponse \<or> fst (request frameID c n) = Some err
            | Inr p \<Rightarrow> \<exists>t n1 ev. ReadEvent (sim_driver x) t c n1 = Some (Inr (Some ev), n') \<and> 0 < t \<and>
                ev_Channel ev = c \<and> EventID ev = frameID \<and> ev_Direction ev = RX \<and> p = EventPayload ev"
    proof (cases "frameID > 0x3F")
      case True
      then show ?thesis using res by (simp add: readMasterResponse_def)
    next
      case False
      obtain e n1 where req: "request frameID c n = (e, n1)" by fastforce
      show ?thesis
      proof (cases e)
        case (Some err)
        then show ?thesis using res False by (auto simp: readMasterResponse_def req)
      next
        case None
        then have "await_response n_now (ReadEvent (sim_driver x)) frameID c (n_now n1 + timeout) n1 = Some (r, n')"
          using res False by (simp add: readMasterResponse_def req)
        then show ?thesis
          using False only await_response_sound by (cases r) fastforce+
      qed
    qed
  qed
qed

theorem readMasterResponse_correct_witness:
  "\<exists>n n'. readMasterResponse n_now 0x10 0 (100 * Millisecond) (sim_RequestSlaveResponse MasterNode)
       (ReadEvent (sim_driver MasterNode)) n = Some (Inr [1, 2], n') \<and>
     (\<exists>t n1 ev. ReadEvent (sim_driver MasterNode) t 0 n1 = Some (Inr (Some ev), n') \<and> EventID ev = 0x10)"
proof -
  define n where "n = snd (sim_ScheduleSlaveResponse (SlaveNode 0) (Some (rx_event 0x10 [1, 2])) 0
    (snd (CreateSlaveDriver (snd (GetMasterDriver (NewSimulatedLinNetwork 0))))))"
  have "\<exists>n'. readMasterResponse n_now 0x10 0 (100 * Millisecond) (sim_RequestSlaveResponse MasterNode)
       (ReadEvent (sim_driver MasterNode)) n = Some (Inr [1, 2], n')"
    by (simp add: readMasterResponse_def await_response_def try_loop.simps await_round_def sim_run n_def rx_event_def Let_def try_recv.simps
        make_chan_def try_send_def)
  with readMasterResponse_correct [of "0x10" 0 "100 * Millisecond" "sim_RequestSlaveResponse MasterNode" MasterNode n]
  show ?thesis by fastforce
qed

end
