(* ===== verification/Master.thy ===== *)
theory Master
  imports Transport_Lifecycle
begin

section \<open>The master node (\<^verbatim>\<open>tplin/master.go\<close>)\<close>

text \<open>
  Requests of a master and the wait for their responses. A \<^verbatim>\<open>LinMaster\<close> is its transport; the
  rest of the program (the goroutines of this and of other transports) is the environment of the
  blocking receive, so an operation that waits is \<open>None\<close> when the wait never ends. Times of
  creation of contexts are the clock of the environment.
\<close>

type_synonym LinMaster = Transport

definition NewMasterWithConfig :: "TransportConfig \<Rightarrow> Channel list \<Rightarrow> LinMaster" where
  "NewMasterWithConfig config channel = Run (NewTransportWithConfig False config channel)"

definition NewMaster :: "Channel list \<Rightarrow> LinMaster" where
  "NewMaster channel = Run (NewTransport False channel)"

partial_function (option) waitForResponseWithContext ::
    "'d Env \<Rightarrow> Context \<Rightarrow> byte \<Rightarrow> byte \<Rightarrow> LinMaster \<Rightarrow> 'd \<Rightarrow>
     ((error + LinMessage) \<times> LinMaster \<times> 'd) option" where
  "waitForResponseWithContext env ctx expectedRsid expectedNAD m d =
     (case ReceiveBlocking env ctx m d of
        None \<Rightarrow> None
      | Some (Inl err, m, d) \<Rightarrow>
          Some (if errors_Is err DeadlineExceeded then (Inl ErrTimeout, m, d) else (Inl err, m, d))
      | Some (Inr msg, m, d) \<Rightarrow>
          if expectedNAD \<noteq> BroadcastNAD \<and> NAD msg \<noteq> expectedNAD then
            waitForResponseWithContext env ctx expectedRsid expectedNAD m d
          else if SID msg = expectedRsid then Some (Inr msg, m, d)
          else if SID msg = 0x7F then
            (let requestedSID = expectedRsid - 0x40
             in if length (Data msg) \<ge> 2 \<and> Data msg ! 0 = requestedSID then
                  if Data msg ! 1 = 0x78 then
                    waitForResponseWithContext env ctx expectedRsid expectedNAD m d
                  else Some (Inl (NegativeResponseError (Data msg ! 0) (Data msg ! 1)), m, d)
                else waitForResponseWithContext env ctx expectedRsid expectedNAD m d)
          else waitForResponseWithContext env ctx expectedRsid expectedNAD m d)"

definition MasterClose :: "LinMaster \<Rightarrow> LinMaster" where
  "MasterClose m = Close m"

definition MasterStopAwaitingSlaveResponse :: "LinMaster \<Rightarrow> LinMaster" where
  "MasterStopAwaitingSlaveResponse m = StopAwaitingSlaveResponse m"

definition waitForResponse ::
    "'d Env \<Rightarrow> byte \<Rightarrow> byte \<Rightarrow> int \<Rightarrow> LinMaster \<Rightarrow> 'd \<Rightarrow>
     ((error + LinMessage) \<times> LinMaster \<times> 'd) option" where
  "waitForResponse env expectedRsid expectedNAD timeout m d =
     (let ctx = WithTimeout (Clock env d) Background timeout
      in waitForResponseWithContext env ctx expectedRsid expectedNAD m d)"

text \<open>
  \<open>request\<close> is the common body of the two requests below: transmit, then wait, with the deferred
  call of \<^verbatim>\<open>StopAwaitingSlaveResponse\<close> once the message has been queued.
\<close>

definition request ::
    "'d Env \<Rightarrow> byte \<Rightarrow> byte \<Rightarrow> byte list \<Rightarrow> int \<Rightarrow> LinMaster \<Rightarrow> 'd \<Rightarrow>
     ((error + LinMessage) \<times> LinMaster \<times> 'd) option" where
  "request env nad sid payload timeout m d =
     (case Transmit nad sid payload m of
        (Some err, m) \<Rightarrow> Some (Inl err, m, d)
      | (None, m) \<Rightarrow>
          (case waitForResponse env (sid + 0x40) nad timeout m d of
             None \<Rightarrow> None
           | Some (result, m, d) \<Rightarrow> Some (result, StopAwaitingSlaveResponse m, d)))"

definition AssignSlaveNad ::
    "'d Env \<Rightarrow> byte \<Rightarrow> u16 \<Rightarrow> u16 \<Rightarrow> byte \<Rightarrow> int \<Rightarrow> LinMaster \<Rightarrow> 'd \<Rightarrow>
     ((error + byte) \<times> LinMaster \<times> 'd) option" where
  "AssignSlaveNad env newNad supplierID functionID nad timeout m d =
     (let payload = PutUint16 supplierID @ PutUint16 functionID @ [newNad]
      in case request env nad AssignNadSID payload timeout m d of
           None \<Rightarrow> None
         | Some (Inl err, m, d) \<Rightarrow> Some (Inl err, m, d)
         | Some (Inr msg, m, d) \<Rightarrow> Some (Inr (NAD msg), m, d))"

definition ReadByIdentifier ::
    "'d Env \<Rightarrow> byte \<Rightarrow> u16 \<Rightarrow> u16 \<Rightarrow> byte \<Rightarrow> int \<Rightarrow> LinMaster \<Rightarrow> 'd \<Rightarrow>
     ((error + byte \<times> byte list) \<times> LinMaster \<times> 'd) option" where
  "ReadByIdentifier env identifier supplierID functionID nad timeout m d =
     (let payload = identifier # PutUint16 supplierID @ PutUint16 functionID
      in case request env nad ReadByIdentifierSID payload timeout m d of
           None \<Rightarrow> None
         | Some (Inl err, m, d) \<Rightarrow> Some (Inl err, m, d)
         | Some (Inr msg, m, d) \<Rightarrow> Some (Inr (NAD msg, Data msg), m, d))"

definition GetSlaveProductIdentifier ::
    "'d Env \<Rightarrow> u16 \<Rightarrow> u16 \<Rightarrow> byte \<Rightarrow> int \<Rightarrow> LinMaster \<Rightarrow> 'd \<Rightarrow>
     ((error + byte \<times> u16 \<times> u16 \<times> byte) \<times> LinMaster \<times> 'd) option" where
  "GetSlaveProductIdentifier env supplierID functionID nad timeout m d =
     (case ReadByIdentifier env DataIdentifierLinProductIdentifier supplierID functionID nad timeout m d of
        None \<Rightarrow> None
      | Some (Inl err, m, d) \<Rightarrow> Some (Inl err, m, d)
      | Some (Inr (respNad, payload), m, d) \<Rightarrow>
          if length payload < 5 then
            Some (Inl (ErrorText ''invalid payload length for product identifier'' []), m, d)
          else
            let respSupplierID = Uint16 payload;
                respFunctionID = Uint16 (drop 2 payload);
                variantID = payload ! 4
            in Some (Inr (respNad, respSupplierID, respFunctionID, variantID), m, d))"

definition GetSlaveSerialNumber ::
    "'d Env \<Rightarrow> u16 \<Rightarrow> u16 \<Rightarrow> byte \<Rightarrow> int \<Rightarrow> LinMaster \<Rightarrow> 'd \<Rightarrow>
     ((error + byte \<times> byte list) \<times> LinMaster \<times> 'd) option" where
  "GetSlaveSerialNumber env supplierID functionID nad timeout m d =
     (case ReadByIdentifier env DataIdentifierSerialNumber supplierID functionID nad timeout m d of
        None \<Rightarrow> None
      | Some (Inl err, m, d) \<Rightarrow> Some (Inl err, m, d)
      | Some (Inr (respNad, payload), m, d) \<Rightarrow>
          if length payload < 4 then
            Some (Inl (ErrorText ''invalid payload length for serial number'' []), m, d)
          else Some (Inr (respNad, take 4 payload), m, d))"

definition SendDiagnostic :: "byte \<Rightarrow> byte \<Rightarrow> byte list \<Rightarrow> LinMaster \<Rightarrow> error option \<times> LinMaster" where
  "SendDiagnostic nad sid payload m = Transmit nad sid payload m"

definition ReceiveDiagnostic :: "LinMaster \<Rightarrow> LinMessage option \<times> LinMaster" where
  "ReceiveDiagnostic m = Receive m"

definition ReceiveDiagnosticWithContext ::
    "'d Env \<Rightarrow> Context \<Rightarrow> LinMaster \<Rightarrow> 'd \<Rightarrow> ((error + LinMessage) \<times> LinMaster \<times> 'd) option" where
  "ReceiveDiagnosticWithContext env ctx m d = ReceiveBlocking env ctx m d"

subsection \<open>What the wait decides\<close>

text \<open>The verdict on one received message, by itself.\<close>

datatype verdict = Skip | Answer | Refuse byte byte

definition verdict :: "byte \<Rightarrow> byte \<Rightarrow> LinMessage \<Rightarrow> verdict" where
  "verdict rsid nad msg =
     (if nad \<noteq> BroadcastNAD \<and> NAD msg \<noteq> nad then Skip
      else if SID msg = rsid then Answer
      else case (SID msg = 0x7F, Data msg) of
             (True, s # nrc # _) \<Rightarrow> if s = rsid - 0x40 \<and> nrc \<noteq> 0x78 then Refuse s nrc else Skip
           | _ \<Rightarrow> Skip)"

lemma wait_step:
  "waitForResponseWithContext env ctx rsid nad m d =
     (case ReceiveBlocking env ctx m d of
        None \<Rightarrow> None
      | Some (Inl err, m, d) \<Rightarrow>
          Some (Inl (if errors_Is err DeadlineExceeded then ErrTimeout else err), m, d)
      | Some (Inr msg, m, d) \<Rightarrow>
          (case verdict rsid nad msg of
             Skip \<Rightarrow> waitForResponseWithContext env ctx rsid nad m d
           | Answer \<Rightarrow> Some (Inr msg, m, d)
           | Refuse s nrc \<Rightarrow> Some (Inl (NegativeResponseError s nrc), m, d)))"
proof -
  have len: "(2 \<le> length xs) = (\<exists>a b ys. xs = a # b # ys)" for xs :: "byte list"
    by (cases xs rule: list.exhaust; cases "tl xs") auto
  show ?thesis
    by (subst waitForResponseWithContext.simps)
       (auto simp: verdict_def len split: option.splits sum.splits list.splits)
qed

lemma ReceiveBlocking_only_message:
  assumes "chan_buf (t_rxQueue t) = m # ms"
    and "chan_buf (t_receiveErrors t) = []" and "\<not> chan_closed (t_receiveErrors t)"
    and "\<not> t_done t" and "ctx_Err (Clock env d) ctx = None"
  shows "ReceiveBlocking env ctx t d =
    Some (Inr m, t\<lparr>t_rxQueue := (t_rxQueue t)\<lparr>chan_buf := ms\<rparr>\<rparr>, d)"
  using assms by (subst ReceiveBlocking.simps) (simp add: receive_ready_def try_recv.simps)

text \<open>
  The wait picks the response out of the traffic of a shared channel. On a transport whose
  receive queue holds messages and that has no error to report, \<open>waitForResponseWithContext\<close> skips
  every message from another node, every unrelated message, every malformed or foreign negative
  response and every \<^emph>\<open>response pending\<close> (0x78), and stops at the first message that is decisive:
  it returns the response, or the negative response with its service and its code, and leaves the
  messages behind it in the queue.
\<close>

theorem wait_takes_first_decisive:
  assumes "chan_buf (t_rxQueue t) = skipped @ msg # rest"
    and "\<forall>x \<in> set skipped. verdict rsid nad x = Skip" and "verdict rsid nad msg \<noteq> Skip"
    and "chan_buf (t_receiveErrors t) = []" and "\<not> chan_closed (t_receiveErrors t)"
    and "\<not> t_done t" and "ctx_Err (Clock env d) ctx = None"
  shows "waitForResponseWithContext env ctx rsid nad t d =
    Some (case verdict rsid nad msg of
            Refuse s nrc \<Rightarrow> Inl (NegativeResponseError s nrc) | _ \<Rightarrow> Inr msg,
          t\<lparr>t_rxQueue := (t_rxQueue t)\<lparr>chan_buf := rest\<rparr>\<rparr>, d)"
  using assms
proof (induction skipped arbitrary: t)
  case Nil
  then show ?case
    by (subst wait_step) (simp add: ReceiveBlocking_only_message split: verdict.splits)
next
  case (Cons x skipped)
  let ?t = "t\<lparr>t_rxQueue := (t_rxQueue t)\<lparr>chan_buf := skipped @ msg # rest\<rparr>\<rparr>"
  have "waitForResponseWithContext env ctx rsid nad t d =
        waitForResponseWithContext env ctx rsid nad ?t d"
    using Cons.prems by (subst wait_step) (simp add: ReceiveBlocking_only_message)
  then show ?case using Cons.IH [of ?t] Cons.prems by simp
qed

theorem wait_takes_first_decisive_witness:
  "\<exists>t'. waitForResponseWithContext ticking Background 0xF2 0x10
     ((NewMaster [])\<lparr>t_rxQueue := (make_chan 10)\<lparr>chan_buf :=
        [\<lparr>NAD = 0x11, SID = 0xF2, Data = [9]\<rparr>, \<lparr>NAD = 0x10, SID = 0x7F, Data = [0xB2, 0x78]\<rparr>,
         \<lparr>NAD = 0x10, SID = 0x7F, Data = [0xB2, 0x12]\<rparr>, \<lparr>NAD = 0x10, SID = 0xF2, Data = []\<rparr>]\<rparr>\<rparr>) 0 =
     Some (Inl (NegativeResponseError 0xB2 0x12), t', 0) \<and> length (chan_buf (t_rxQueue t')) = 1"
proof -
  let ?skipped = "[\<lparr>NAD = 0x11, SID = 0xF2, Data = [9]\<rparr>, \<lparr>NAD = 0x10, SID = 0x7F, Data = [0xB2, 0x78]\<rparr>]"
  let ?msg = "\<lparr>NAD = 0x10, SID = 0x7F, Data = [0xB2, 0x12]\<rparr>"
  let ?rest = "[\<lparr>NAD = 0x10, SID = 0xF2, Data = []\<rparr>]"
  let ?t = "(NewMaster [])\<lparr>t_rxQueue := (make_chan 10)\<lparr>chan_buf := ?skipped @ ?msg # ?rest\<rparr>\<rparr>"
  have m: "chan_buf (t_receiveErrors (NewMaster [])) = []"
    "\<not> chan_closed (t_receiveErrors (NewMaster []))" "\<not> t_done (NewMaster [])"
    by (simp_all add: NewMaster_def NewTransport_def NewTransportWithConfig_def Run_def Let_def)
  show ?thesis
    using wait_takes_first_decisive [where t = ?t and skipped = ?skipped and msg = ?msg and
        rest = ?rest and rsid = "0xF2" and nad = "0x10" and env = ticking and d = 0 and ctx = Background] m
    by (simp add: verdict_def)
qed

text \<open>
  What the wait returns as a response is one: whatever the driver, the other nodes and the
  scheduler do, a message returned by \<open>waitForResponseWithContext\<close> carries the expected
  service identifier and, unless the request was a broadcast, comes from the node addressed.
\<close>

theorem wait_returns_matching:
  assumes "waitForResponseWithContext env ctx rsid nad t d = Some (Inr msg, t', d')"
  shows "SID msg = rsid \<and> (nad = BroadcastNAD \<or> NAD msg = nad)"
proof -
  have "fst r = Inr msg \<Longrightarrow> SID msg = rsid \<and> (nad = BroadcastNAD \<or> NAD msg = nad)"
    if "waitForResponseWithContext env ctx rsid nad t d = Some r" for r
    using that
  proof (induction rule: waitForResponseWithContext.raw_induct [rotated, consumes 1, case_names step])
    case (step wait env ctx rsid nad t d r)
    show ?case
    proof (cases "ReceiveBlocking env ctx t d")
      case None
      then show ?thesis using step.hyps by simp
    next
      case (Some x)
      obtain res t1 d1 where x: "x = (res, t1, d1)" by (cases x)
      show ?thesis
        using step.IH [of env ctx rsid nad t1 d1 r] step.hyps step.prems
        by (cases res) (auto simp: Some x Let_def split: if_splits)
    qed
  qed
  with assms show ?thesis by simp
qed

theorem wait_returns_matching_witness:
  "\<exists>msg t'. waitForResponseWithContext ticking Background 0xF2 0x10
       ((NewMaster [])\<lparr>t_rxQueue := (make_chan 10)\<lparr>chan_buf :=
          [\<lparr>NAD = 0x11, SID = 0xF2, Data = [1]\<rparr>, \<lparr>NAD = 0x10, SID = 0xF2, Data = [2]\<rparr>]\<rparr>\<rparr>) 0 =
     Some (Inr msg, t', 0) \<and> SID msg = 0xF2 \<and> NAD msg = 0x10"
proof -
  let ?t = "(NewMaster [])\<lparr>t_rxQueue := (make_chan 10)\<lparr>chan_buf :=
          [\<lparr>NAD = 0x11, SID = 0xF2, Data = [1]\<rparr>, \<lparr>NAD = 0x10, SID = 0xF2, Data = [2]\<rparr>]\<rparr>\<rparr>"
  have "\<exists>msg t'. waitForResponseWithContext ticking Background 0xF2 0x10 ?t 0 = Some (Inr msg, t', 0)"
    by (simp add: waitForResponseWithContext.simps NewMaster_def transport_run ticking_def
        Background_def ctx_Err_def Let_def)
  then obtain msg t' where "waitForResponseWithContext ticking Background 0xF2 0x10 ?t 0 = Some (Inr msg, t', 0)"
    by blast
  with wait_returns_matching [OF this] show ?thesis by auto
qed

subsection \<open>The wait ends\<close>

context live_env
begin

text \<open>A receive that has to wait moves the clock, one that does not takes a message.\<close>

lemma ReceiveBlocking_progress:
  assumes "ctx_deadline ctx = Some x" and "ReceiveBlocking env ctx t d = Some (Inr m, t', d')"
  shows "(Clock env d < Clock env d' \<and> Clock env d < x) \<or>
         (d' = d \<and> length (chan_buf (t_rxQueue t')) < length (chan_buf (t_rxQueue t)))"
  using assms(2)
proof (induction "nat (x - Clock env d)" arbitrary: t d rule: less_induct)
  case less
  show ?case
  proof (cases "receive_ready ctx (Clock env d) t")
    case (Cons r rs)
    define pick where "pick = (r # rs) ! (Pick env d mod length (r # rs))"
    have "pick \<in> set (receive_ready ctx (Clock env d) t)"
      unfolding pick_def Cons by (rule nth_mem) simp
    moreover have "pick = (Inr m, t') \<and> d' = d"
      using less.prems unfolding pick_def
      by (subst (asm) ReceiveBlocking.simps) (auto simp: Cons split: prod.splits)
    ultimately show ?thesis
      by (auto simp: receive_ready_def try_recv.simps split: list.splits option.splits if_splits)
  next
    case Nil
    have lt: "Clock env d < x"
    proof (rule ccontr)
      assume "\<not> Clock env d < x"
      then have "ctx_Err (Clock env d) ctx \<noteq> None" by (intro ctx_Err_deadline [OF assms(1)]) simp
      with Nil show False by (simp add: receive_ready_def split: option.splits)
    qed
    obtain t1 d1 where turn: "Turn env t d = Some (t1, d1)" using turn_total by fastforce
    have "ReceiveBlocking env ctx t1 d1 = Some (Inr m, t', d')"
      using less.prems by (subst (asm) ReceiveBlocking.simps) (simp add: Nil turn)
    moreover have "nat (x - Clock env d1) < nat (x - Clock env d)"
      using time_passes [OF turn] lt by simp
    ultimately show ?thesis
      using less.hyps [of d1 t1] time_passes [OF turn] lt by fastforce
  qed
qed

lemma waitForResponse_returns:
  assumes "ctx_deadline ctx = Some x"
  shows "\<exists>r. waitForResponseWithContext env ctx rsid nad t d = Some r"
proof (induction "(nat (x - Clock env d), length (chan_buf (t_rxQueue t)))" arbitrary: t d
    rule: wf_induct_rule [OF wf_lex_prod [OF wf_less wf_less],
      case_names less])
  case (less t d)
  obtain res t1 d1 where r: "ReceiveBlocking env ctx t d = Some (res, t1, d1)"
    using ReceiveBlocking_returns [OF assms] by (metis prod_cases3)
  show ?case
  proof (cases res)
    case (Inl err)
    then show ?thesis by (subst wait_step) (simp add: r)
  next
    case (Inr m)
    have "((nat (x - Clock env d1), length (chan_buf (t_rxQueue t1))),
           (nat (x - Clock env d), length (chan_buf (t_rxQueue t)))) \<in>
          {(x, y). x < y} <*lex*> {(x, y). x < y}"
      using ReceiveBlocking_progress [OF assms r [unfolded Inr]] by auto
    from less.hyps [OF this] show ?thesis
      by (subst wait_step) (auto simp: r Inr split: verdict.splits)
  qed
qed

lemma request_returns: "\<exists>r. request env nad sid payload timeout m d = Some r"
proof -
  obtain err m1 where t: "Transmit nad sid payload m = (err, m1)" by fastforce
  obtain x where "ctx_deadline (WithTimeout (Clock env d) Background timeout) = Some x"
    using WithTimeout_deadline by blast
  then obtain res where
    "waitForResponseWithContext env (WithTimeout (Clock env d) Background timeout) (sid + 0x40) nad m1 d
       = Some res"
    using waitForResponse_returns by blast
  then show ?thesis
    by (cases err; cases res) (simp_all add: request_def t waitForResponse_def)
qed

lemma ReadByIdentifier_returns:
  "\<exists>r. ReadByIdentifier env identifier supplierID functionID nad timeout m d = Some r"
  using request_returns [of nad ReadByIdentifierSID "identifier # PutUint16 supplierID @ PutUint16 functionID" timeout m d]
  by (auto simp: ReadByIdentifier_def Let_def split: sum.splits simp del: split_paired_Ex)

lemma AssignSlaveNad_returns:
  "\<exists>r. AssignSlaveNad env newNad supplierID functionID nad timeout m d = Some r"
  using request_returns [of nad AssignNadSID "PutUint16 supplierID @ PutUint16 functionID @ [newNad]" timeout m d]
  by (auto simp: AssignSlaveNad_def Let_def split: sum.splits simp del: split_paired_Ex)

end

end
