(* ===== verification/Response_Code.thy ===== *)
theory Response_Code
  imports Go_Prelude
begin

section \<open>Negative response codes (\<^verbatim>\<open>uds_client/response_code.go\<close>)\<close>

text \<open>
  The table of names of negative response codes and its lookup. The Go map is a composite
  literal with constant keys, which the compiler requires to be distinct.
\<close>

definition NrcTable :: "(byte \<times> string) list" where
  "NrcTable =
     [(0x00, ''PositiveResponse''),
      (0x10, ''GeneralReject''),
      (0x11, ''ServiceNotSupported''),
      (0x12, ''SubFunctionNotSupported''),
      (0x13, ''IncorrectMessageLengthOrInvalidFormat''),
      (0x14, ''ResponseTooLong''),
      (0x21, ''BusyRepeatRequest''),
      (0x22, ''ConditionsNotCorrect''),
      (0x24, ''RequestSequenceError''),
      (0x25, ''NoResponseFromSubnetComponent''),
      (0x26, ''FailurePreventsExecutionOfRequestedAction''),
      (0x31, ''RequestOutOfRange''),
      (0x33, ''SecurityAccessDenied''),
      (0x34, ''AuthenticationRequired''),
      (0x35, ''InvalidKey''),
      (0x36, ''ExceedNumberOfAttempts''),
      (0x37, ''RequiredTimeDelayNotExpired''),
      (0x38, ''SecureDataTransmissionRequired''),
      (0x39, ''SecureDataTransmissionNotAllowed''),
      (0x3A, ''SecureDataVerificationFailed''),
      (0x50, ''CertificateVerificationFailed_InvalidTimePeriod''),
      (0x51, ''CertificateVerificationFailed_InvalidSignature''),
      (0x52, ''CertificateVerificationFailed_InvalidChainOfTrust''),
      (0x53, ''CertificateVerificationFailed_InvalidType''),
      (0x54, ''CertificateVerificationFailed_InvalidFormat''),
      (0x55, ''CertificateVerificationFailed_InvalidContent''),
      (0x56, ''CertificateVerificationFailed_InvalidScope''),
      (0x57, ''CertificateVerificationFailed_InvalidCertificate''),
      (0x58, ''OwnershipVerificationFailed''),
      (0x59, ''ChallengeCalculationFailed''),
      (0x5A, ''SettingAccessRightsFailed''),
      (0x5B, ''SessionKeyCreationDerivationFailed''),
      (0x5C, ''ConfigurationDataUsageFailed''),
      (0x5D, ''DeAuthenticationFailed''),
      (0x70, ''UploadDownloadNotAccepted''),
      (0x71, ''TransferDataSuspended''),
      (0x72, ''GeneralProgrammingFailure''),
      (0x73, ''WrongBlockSequenceCounter''),
      (0x78, ''RequestCorrectlyReceived_ResponsePending''),
      (0x7E, ''SubFunctionNotSupportedInActiveSession''),
      (0x7F, ''ServiceNotSupportedInActiveSession''),
      (0x81, ''RpmTooHigh''),
      (0x82, ''RpmTooLow''),
      (0x83, ''EngineIsRunning''),
      (0x84, ''EngineIsNotRunning''),
      (0x85, ''EngineRunTimeTooLow''),
      (0x86, ''TemperatureTooHigh''),
      (0x87, ''TemperatureTooLow''),
      (0x88, ''VehicleSpeedTooHigh''),
      (0x89, ''VehicleSpeedTooLow''),
      (0x8A, ''ThrottlePedalTooHigh''),
      (0x8B, ''ThrottlePedalTooLow''),
      (0x8C, ''TransmissionRangeNotInNeutral''),
      (0x8D, ''TransmissionRangeNotInGear''),
      (0x8F, ''BrakeSwitchNotClosed''),
      (0x90, ''ShifterLeverNotInPark''),
      (0x91, ''TorqueConverterClutchLocked''),
      (0x92, ''VoltageTooHigh''),
      (0x93, ''VoltageTooLow''),
      (0x94, ''ResourceTemporarilyNotAvailable''),
      (0x38 + 3, ''TerminationWithSignatureRequested''),
      (0x38 + 4, ''AccessDenied''),
      (0x38 + 5, ''VersionNotSupported''),
      (0x38 + 6, ''SecuredLinkNotSupported''),
      (0x38 + 7, ''CertificateNotAvailable''),
      (0x38 + 8, ''AuditTrailInformationNotAvailable'')]"

definition NrcMap :: "byte \<Rightarrow> string option" where
  "NrcMap = map_of NrcTable"

definition GetNrcString :: "byte \<Rightarrow> string" where
  "GetNrcString nrc = (case NrcMap nrc of Some str \<Rightarrow> str | None \<Rightarrow> ''Unknown NRC'')"

lemma NrcTable_distinct: "distinct (map fst NrcTable)" "distinct (map snd NrcTable)"
  by code_simp+

lemma NrcTable_known: "''Unknown NRC'' \<notin> set (map snd NrcTable)"
  by code_simp

lemma map_of_snd: "map_of xs a = Some s \<Longrightarrow> s \<in> snd ` set xs"
  using map_of_SomeD by force

lemma inj_map_of:
  "distinct (map snd xs) \<Longrightarrow> map_of xs a = Some s \<Longrightarrow> map_of xs b = Some s \<Longrightarrow> a = b"
  by (induction xs) (auto dest!: map_of_snd split: if_splits)

text \<open>
  The names of negative response codes identify them: two codes of the table never share a
  name, every entry of the table is found under its code, and no code of the table is reported
  as unknown.
\<close>

theorem GetNrcString_identifies:
  "(GetNrcString a = GetNrcString b \<longleftrightarrow> a = b \<or> (NrcMap a = None \<and> NrcMap b = None)) \<and>
   ((a, s) \<in> set NrcTable \<longleftrightarrow> NrcMap a = Some s) \<and>
   (GetNrcString a = ''Unknown NRC'' \<longleftrightarrow> NrcMap a = None)"
proof -
  have known: "NrcMap x \<noteq> Some ''Unknown NRC''" for x
    using NrcTable_known map_of_SomeD [of NrcTable x] unfolding NrcMap_def by force
  have "GetNrcString a = GetNrcString b \<longleftrightarrow> a = b \<or> (NrcMap a = None \<and> NrcMap b = None)"
    using known [of a] known [of b] inj_map_of [OF NrcTable_distinct(2), of a _ b]
    by (auto simp: GetNrcString_def NrcMap_def split: option.splits)
  then show ?thesis
    using known [of a] NrcTable_distinct(1)
    by (auto simp: GetNrcString_def NrcMap_def split: option.splits)
qed

end
