(* ===== verification/Uds_Client.thy ===== *)
theory Uds_Client
  imports Master Response_Code
begin

section \<open>The UDS client (\<^verbatim>\<open>uds_client/client_lin.go\<close>)\<close>

text \<open>
  Request and response of one UDS service over a master: the request is sent as one diagnostic
  message, the wait accepts the positive or negative response of the addressed node, restarts
  its timer on every \<^emph>\<open>response pending\<close> (0x78), and is bounded by the caller's context. The
  mutex \<^verbatim>\<open>requestMu\<close> makes a request one step of the client. A result is the node address, the
  response bytes, and an error or nil; a nil slice in a result is the empty list.
\<close>

record ClientConfig =
  TargetNad :: byte
  DefaultTimeout :: int
  ResponsePendingTimeout :: int
  MaxRetries :: int
  RetryableSIDs :: "(byte \<Rightarrow> bool option) option"
  cc_Channel :: Channel
  cc_ContinuousSlavePoll :: bool

definition DefaultClientConfig :: "byte \<Rightarrow> ClientConfig" where
  "DefaultClientConfig targetNad =
     \<lparr>TargetNad = targetNad, DefaultTimeout = 2 * Second, ResponsePendingTimeout = 5 * Second,
      MaxRetries = 0, RetryableSIDs = None, cc_Channel = 0, cc_ContinuousSlavePoll = False\<rparr>"

text \<open>The copy of the map of retryable services is the identity on values.\<close>

definition normalizeClientConfig :: "ClientConfig \<Rightarrow> ClientConfig" where
  "normalizeClientConfig config =
     (let defaults = DefaultClientConfig (TargetNad config);
          config = (if DefaultTimeout config \<le> 0
                    then config\<lparr>DefaultTimeout := DefaultTimeout defaults\<rparr> else config);
          config = (if ResponsePendingTimeout config \<le> 0
                    then config\<lparr>ResponsePendingTimeout := ResponsePendingTimeout defaults\<rparr>
                    else config);
          config = (if MaxRetries config < 0 then config\<lparr>MaxRetries := 0\<rparr> else config)
      in config)"

record Client =
  c_master :: LinMaster
  c_config :: ClientConfig

definition NewClientWithConfig :: "ClientConfig \<Rightarrow> Client" where
  "NewClientWithConfig config =
     (let config = normalizeClientConfig config;
          tpCfg = DefaultTransportConfig\<lparr>ContinuousSlavePoll := cc_ContinuousSlavePoll config\<rparr>;
          master = NewMasterWithConfig tpCfg [cc_Channel config]
      in \<lparr>c_master = master, c_config = config\<rparr>)"

definition NewClient :: "byte \<Rightarrow> Client" where
  "NewClient targetNad = NewClientWithConfig (DefaultClientConfig targetNad)"

definition ClientClose :: "Client \<Rightarrow> Client" where
  "ClientClose c = c\<lparr>c_master := MasterClose (c_master c)\<rparr>"

definition responseWaitContext :: "int \<Rightarrow> Context \<Rightarrow> int \<Rightarrow> Context" where
  "responseWaitContext now parent timeout =
     (if timeout \<le> 0 then parent else WithTimeout now parent timeout)"

text \<open>The loop that empties the receive queue before a request.\<close>

function drain :: "LinMaster \<Rightarrow> LinMaster" where
  "drain m = (case ReceiveDiagnostic m of (None, m) \<Rightarrow> m | (Some msg, m) \<Rightarrow> drain m)"
  by pat_completeness auto
termination
  by (relation "measure (\<lambda>m. length (chan_buf (t_rxQueue m)))")
     (auto simp: ReceiveDiagnostic_def Receive_def try_recv.simps split: list.splits prod.splits
        received.splits if_splits)

declare drain.simps [simp del]

type_synonym uds_result = "byte \<times> byte list \<times> error option"

text \<open>The wait of \<^verbatim>\<open>sendAndRec\<close>. \<open>p2star\<close> is the configured \<^verbatim>\<open>ResponsePendingTimeout\<close>.\<close>

partial_function (option) await_uds ::
    "'d Env \<Rightarrow> int \<Rightarrow> Context \<Rightarrow> Context \<Rightarrow> byte \<Rightarrow> byte \<Rightarrow> LinMaster \<Rightarrow> 'd \<Rightarrow>
     (uds_result \<times> LinMaster \<times> 'd) option" where
  "await_uds env p2star ctx waitCtx nad sid m d =
     (case ReceiveDiagnosticWithContext env waitCtx m d of
        None \<Rightarrow> None
      | Some (Inl err, m, d) \<Rightarrow>
          Some (if errors_Is err DeadlineExceeded then
                  (case ctx_Err (Clock env d) ctx of
                     Some e \<Rightarrow> ((0, [], Some (Wrapped ''UDS request context ended'' [] e)), m, d)
                   | None \<Rightarrow> ((0, [], Some ErrResponseTimeout), m, d))
                else if errors_Is err Canceled then
                  ((0, [], Some (Wrapped ''UDS request context ended'' [] err)), m, d)
                else ((0, [], Some (Wrapped ''LIN transport failed'' [] err)), m, d))
      | Some (Inr msg, m, d) \<Rightarrow>
          if nad \<noteq> BroadcastNAD \<and> NAD msg \<noteq> nad then await_uds env p2star ctx waitCtx nad sid m d
          else if SID msg = 0x7F then
            (if length (Data msg) < 2 \<or> Data msg ! 0 \<noteq> sid then
               await_uds env p2star ctx waitCtx nad sid m d
             else if Data msg ! 1 = 0x78 then
               await_uds env p2star ctx (responseWaitContext (Clock env d) ctx p2star) nad sid m d
             else
               let fullNrcResponse = SID msg # Data msg
               in Some ((NAD msg, fullNrcResponse,
                         Some (NegativeResponseError (Data msg ! 0) (Data msg ! 1))), m, d))
          else if SID msg = sid + 0x40 then
            (let fullPositiveResponse = SID msg # Data msg
             in Some ((NAD msg, fullPositiveResponse, None), m, d))
          else await_uds env p2star ctx waitCtx nad sid m d)"

definition sendAndRec ::
    "'d Env \<Rightarrow> Context \<Rightarrow> byte \<Rightarrow> byte list \<Rightarrow> int \<Rightarrow> Client \<Rightarrow> 'd \<Rightarrow>
     (uds_result \<times> Client \<times> 'd) option" where
  "sendAndRec env ctx nad payload responseTimeout c d =
     (if length payload = 0 then Some ((0, [], Some ErrEmptyRequest), c, d)
      else
        let m = drain (c_master c);
            sid = payload ! 0;
            data = drop 1 payload
        in case SendDiagnostic nad sid data m of
             (Some err, m) \<Rightarrow>
               Some ((0, [], Some (Wrapped ''send UDS request'' [] err)), c\<lparr>c_master := m\<rparr>, d)
           | (None, m) \<Rightarrow>
               let waitCtx = responseWaitContext (Clock env d) ctx responseTimeout
               in case await_uds env (ResponsePendingTimeout (c_config c)) ctx waitCtx nad sid m d of
                    None \<Rightarrow> None
                  | Some (r, m, d) \<Rightarrow>
                      Some (r, c\<lparr>c_master := StopAwaitingSlaveResponse m\<rparr>, d))"

text \<open>The retry loop: attempts are numbered from 0.\<close>

function retry_loop ::
    "'d Env \<Rightarrow> byte \<Rightarrow> byte list \<Rightarrow> int \<Rightarrow> int \<Rightarrow> int \<Rightarrow> Client \<Rightarrow> 'd \<Rightarrow>
     (uds_result \<times> Client \<times> 'd) option" where
  "retry_loop env nad payload timeout maxRetries attempt c d =
     (case sendAndRec env Background nad payload timeout c d of
        None \<Rightarrow> None
      | Some ((responseNAD, response, err), c, d) \<Rightarrow>
          if (case err of None \<Rightarrow> True | Some e \<Rightarrow> \<not> errors_Is e ErrResponseTimeout) \<or>
             attempt \<ge> maxRetries
          then Some ((responseNAD, response, err), c, d)
          else retry_loop env nad payload timeout maxRetries (attempt + 1) c d)"
  by pat_completeness auto
termination
  by (relation "measure (\<lambda>(env, nad, payload, timeout, maxRetries, attempt, c, d).
        nat (maxRetries - attempt))") auto

declare retry_loop.simps [simp del]

definition retryable :: "ClientConfig \<Rightarrow> byte \<Rightarrow> bool" where
  "retryable config sid \<longleftrightarrow>
     (case RetryableSIDs config of None \<Rightarrow> False | Some mp \<Rightarrow> mp sid = Some True)"

definition sendAndRecWithRetries ::
    "'d Env \<Rightarrow> byte \<Rightarrow> byte list \<Rightarrow> int \<Rightarrow> Client \<Rightarrow> 'd \<Rightarrow> (uds_result \<times> Client \<times> 'd) option" where
  "sendAndRecWithRetries env nad payload timeout c d =
     (if length payload = 0 then Some ((0, [], Some ErrEmptyRequest), c, d)
      else
        let timeout = (if timeout \<le> 0 then DefaultTimeout (c_config c) else timeout);
            maxRetries = (if retryable (c_config c) (payload ! 0)
                          then MaxRetries (c_config c) else 0)
        in retry_loop env nad payload timeout maxRetries 0 c d)"

definition SendAndRec ::
    "'d Env \<Rightarrow> byte list \<Rightarrow> int \<Rightarrow> Client \<Rightarrow> 'd \<Rightarrow> (uds_result \<times> Client \<times> 'd) option" where
  "SendAndRec env payload timeout c d =
     sendAndRecWithRetries env (TargetNad (c_config c)) payload timeout c d"

definition SendAndRecWithContext ::
    "'d Env \<Rightarrow> Context \<Rightarrow> byte list \<Rightarrow> Client \<Rightarrow> 'd \<Rightarrow> (uds_result \<times> Client \<times> 'd) option" where
  "SendAndRecWithContext env ctx payload c d =
     sendAndRec env ctx (TargetNad (c_config c)) payload 0 c d"

definition SendAndRecWithNAD ::
    "'d Env \<Rightarrow> byte \<Rightarrow> byte list \<Rightarrow> int \<Rightarrow> Client \<Rightarrow> 'd \<Rightarrow> (uds_result \<times> Client \<times> 'd) option" where
  "SendAndRecWithNAD env nad payload timeout c d = sendAndRecWithRetries env nad payload timeout c d"

subsection \<open>Configuration and stale messages\<close>

definition client_config_ok :: "ClientConfig \<Rightarrow> bool" where
  "client_config_ok c \<longleftrightarrow> 0 < DefaultTimeout c \<and> 0 < ResponsePendingTimeout c \<and> 0 \<le> MaxRetries c"

lemma normalizeClientConfig_ok: "client_config_ok (normalizeClientConfig c)"
  by (simp add: normalizeClientConfig_def client_config_ok_def DefaultClientConfig_def Let_def)

lemma drain_empties: "\<not> chan_closed (t_rxQueue m) \<Longrightarrow>
   drain m = m\<lparr>t_rxQueue := (t_rxQueue m)\<lparr>chan_buf := []\<rparr>\<rparr>"
proof (induction m rule: drain.induct)
  case (1 m)
  show ?case
  proof (cases "chan_buf (t_rxQueue m)")
    case Nil
    then show ?thesis
      by (subst drain.simps) (simp add: ReceiveDiagnostic_def Receive_def try_recv.simps)
  next
    case (Cons x xs)
    let ?m = "m\<lparr>t_rxQueue := (t_rxQueue m)\<lparr>chan_buf := xs\<rparr>\<rparr>"
    have r: "ReceiveDiagnostic m = (Some x, ?m)"
      by (simp add: ReceiveDiagnostic_def Receive_def try_recv.simps Cons)
    then have "drain ?m = ?m\<lparr>t_rxQueue := (t_rxQueue ?m)\<lparr>chan_buf := []\<rparr>\<rparr>"
      using 1(1) [of "Some x" ?m x] 1(2) by simp
    then show ?thesis by (subst drain.simps) (simp add: r)
  qed
qed

subsection \<open>What the client decides\<close>

text \<open>The verdict on one received message, by itself.\<close>

datatype uds_verdict = UdsSkip | UdsPending | UdsAnswer | UdsRefuse byte

definition uds_verdict :: "byte \<Rightarrow> byte \<Rightarrow> LinMessage \<Rightarrow> uds_verdict" where
  "uds_verdict nad sid msg =
     (if nad \<noteq> BroadcastNAD \<and> NAD msg \<noteq> nad then UdsSkip
      else if SID msg = 0x7F then
        (case Data msg of
           s # nrc # _ \<Rightarrow> if s \<noteq> sid then UdsSkip else if nrc = 0x78 then UdsPending else UdsRefuse nrc
         | _ \<Rightarrow> UdsSkip)
      else if SID msg = sid + 0x40 then UdsAnswer
      else UdsSkip)"

text \<open>The result for a decisive message.\<close>

definition uds_outcome :: "byte \<Rightarrow> byte \<Rightarrow> LinMessage \<Rightarrow> uds_result" where
  "uds_outcome nad sid msg =
     (NAD msg, SID msg # Data msg,
      case uds_verdict nad sid msg of UdsRefuse nrc \<Rightarrow> Some (NegativeResponseError sid nrc) | _ \<Rightarrow> None)"

lemma await_step:
  "await_uds env p2star ctx waitCtx nad sid m d =
     (case ReceiveBlocking env waitCtx m d of
        None \<Rightarrow> None
      | Some (Inl err, m, d) \<Rightarrow>
          Some (if errors_Is err DeadlineExceeded then
                  (case ctx_Err (Clock env d) ctx of
                     Some e \<Rightarrow> ((0, [], Some (Wrapped ''UDS request context ended'' [] e)), m, d)
                   | None \<Rightarrow> ((0, [], Some ErrResponseTimeout), m, d))
                else if errors_Is err Canceled then
                  ((0, [], Some (Wrapped ''UDS request context ended'' [] err)), m, d)
                else ((0, [], Some (Wrapped ''LIN transport failed'' [] err)), m, d))
      | Some (Inr msg, m, d) \<Rightarrow>
          (case uds_verdict nad sid msg of
             UdsSkip \<Rightarrow> await_uds env p2star ctx waitCtx nad sid m d
           | UdsPending \<Rightarrow>
               await_uds env p2star ctx (responseWaitContext (Clock env d) ctx p2star) nad sid m d
           | _ \<Rightarrow> Some (uds_outcome nad sid msg, m, d)))"
proof -
  have len: "(length xs < 2) = (\<nexists>a b ys. xs = a # b # ys)" for xs :: "byte list"
    by (cases xs rule: list.exhaust; cases "tl xs") auto
  show ?thesis
    by (subst await_uds.simps)
       (auto simp: uds_verdict_def uds_outcome_def len ReceiveDiagnosticWithContext_def Let_def
         split: option.splits sum.splits list.splits)
qed

text \<open>
  C14: The wait of the UDS client takes the first decisive message of the traffic. With the messages
  in the receive queue and no error to report, it skips the messages of other nodes and services
  and foreign or malformed negative responses, restarts its timer at every \<^emph>\<open>response pending\<close>,
  and returns the address and all bytes of the first positive response, or of the first negative
  response together with its code; the messages behind stay in the queue.
\<close>

theorem uds_takes_first_decisive:
  assumes "chan_buf (t_rxQueue t) = skipped @ msg # rest"
    and "\<forall>x \<in> set skipped. uds_verdict nad sid x \<in> {UdsSkip, UdsPending}"
    and "uds_verdict nad sid msg \<notin> {UdsSkip, UdsPending}"
    and "chan_buf (t_receiveErrors t) = []" and "\<not> chan_closed (t_receiveErrors t)"
    and "\<not> t_done t" and "ctx_Err (Clock env d) waitCtx = None"
    and "ctx_Err (Clock env d) ctx = None" and "0 < p2star"
  shows "await_uds env p2star ctx waitCtx nad sid t d =
    Some (uds_outcome nad sid msg, t\<lparr>t_rxQueue := (t_rxQueue t)\<lparr>chan_buf := rest\<rparr>\<rparr>, d)"
  using assms
proof (induction skipped arbitrary: t waitCtx)
  case Nil
  then show ?case
    by (subst await_step) (auto simp: ReceiveBlocking_only_message split: uds_verdict.splits)
next
  case (Cons x skipped)
  let ?t = "t\<lparr>t_rxQueue := (t_rxQueue t)\<lparr>chan_buf := skipped @ msg # rest\<rparr>\<rparr>"
  let ?ctx = "responseWaitContext (Clock env d) ctx p2star"
  have fresh: "ctx_Err (Clock env d) ?ctx = None"
    using Cons.prems(8,9)
    by (auto simp: responseWaitContext_def WithTimeout_def ctx_Err_def split: option.splits if_splits)
  have "await_uds env p2star ctx waitCtx nad sid t d =
        await_uds env p2star ctx (if uds_verdict nad sid x = UdsPending then ?ctx else waitCtx) nad sid ?t d"
    using Cons.prems by (subst await_step) (auto simp: ReceiveBlocking_only_message)
  then show ?case using Cons.IH [of ?t] Cons.prems fresh by (simp split: if_splits)
qed

theorem uds_takes_first_decisive_witness:
  "await_uds ticking 1000 Background Background 0x10 0x22
     ((NewMaster [])\<lparr>t_rxQueue := (make_chan 10)\<lparr>chan_buf :=
        [\<lparr>NAD = 0x10, SID = 0x7F, Data = [0x22, 0x78]\<rparr>, \<lparr>NAD = 0x11, SID = 0x62, Data = [9]\<rparr>,
         \<lparr>NAD = 0x10, SID = 0x62, Data = [1, 2]\<rparr>, \<lparr>NAD = 0x10, SID = 0x62, Data = []\<rparr>]\<rparr>\<rparr>) 0 =
   Some ((0x10, [0x62, 1, 2], None), (NewMaster [])\<lparr>t_rxQueue := (make_chan 10)\<lparr>chan_buf :=
        [\<lparr>NAD = 0x10, SID = 0x62, Data = []\<rparr>]\<rparr>\<rparr>, 0)"
proof -
  let ?skipped = "[\<lparr>NAD = 0x10, SID = 0x7F, Data = [0x22, 0x78]\<rparr>, \<lparr>NAD = 0x11, SID = 0x62, Data = [9]\<rparr>]"
  let ?msg = "\<lparr>NAD = 0x10, SID = 0x62, Data = [1, 2]\<rparr>"
  let ?rest = "[\<lparr>NAD = 0x10, SID = 0x62, Data = []\<rparr>]"
  let ?t = "(NewMaster [])\<lparr>t_rxQueue := (make_chan 10)\<lparr>chan_buf := ?skipped @ ?msg # ?rest\<rparr>\<rparr>"
  have m: "chan_buf (t_receiveErrors (NewMaster [])) = []"
    "\<not> chan_closed (t_receiveErrors (NewMaster []))" "\<not> t_done (NewMaster [])"
    by (simp_all add: NewMaster_def NewTransport_def NewTransportWithConfig_def Run_def Let_def)
  show ?thesis
    using uds_takes_first_decisive [where t = ?t and skipped = ?skipped and msg = ?msg and
        rest = ?rest and nad = "0x10" and sid = "0x22" and env = ticking and d = 0 and
        ctx = Background and waitCtx = Background and ?p2star = 1000] m
    by (simp add: uds_verdict_def uds_outcome_def)
qed

lemma await_uds_sound:
  assumes "await_uds env p2star ctx waitCtx nad sid t d = Some ((n, bs, None), t', d')"
  shows "(nad = BroadcastNAD \<or> n = nad) \<and> sid + 0x40 \<noteq> 0x7F \<and> (\<exists>data. bs = (sid + 0x40) # data)"
proof -
  have "fst r = (n, bs, None) \<Longrightarrow>
      (nad = BroadcastNAD \<or> n = nad) \<and> sid + 0x40 \<noteq> 0x7F \<and> (\<exists>data. bs = (sid + 0x40) # data)"
    if "await_uds env p2star ctx waitCtx nad sid t d = Some r" for r
    using that
  proof (induction rule: await_uds.raw_induct [rotated, consumes 1, case_names step])
    case (step wait env p2star ctx waitCtx nad sid t d r)
    show ?case
    proof (cases "ReceiveBlocking env waitCtx t d")
      case None
      then show ?thesis using step.hyps by (simp add: ReceiveDiagnosticWithContext_def)
    next
      case (Some x)
      obtain res t1 d1 where x: "x = (res, t1, d1)" by (cases x)
      show ?thesis
        using step.IH [of env p2star ctx waitCtx nad sid t1 d1 r]
          step.IH [of env p2star ctx "responseWaitContext (Clock env d1) ctx p2star" nad sid t1 d1 r]
          step.hyps step.prems
        by (cases res)
           (auto simp: Some x Let_def ReceiveDiagnosticWithContext_def split: if_splits option.splits)
    qed
  qed
  with assms show ?thesis by simp
qed

text \<open>
  C6: A positive result of the UDS client is a positive response to its request, whatever the
  driver, the other nodes and the scheduler do: if \<open>sendAndRec\<close> returns no error, the
  request was not empty, the response bytes start with the requested service identifier plus
  0x40, which is not the negative-response identifier 0x7F, and, unless the request was a
  broadcast, the response comes from the node addressed.
\<close>

theorem sendAndRec_sound:
  assumes "sendAndRec env ctx nad payload timeout c d = Some ((n, bs, None), c', d')"
  shows "payload \<noteq> [] \<and> (nad = BroadcastNAD \<or> n = nad) \<and> payload ! 0 + 0x40 \<noteq> 0x7F \<and>
         (\<exists>data. bs = (payload ! 0 + 0x40) # data)"
  using assms
  by (auto simp: sendAndRec_def Let_def dest!: await_uds_sound
      split: if_splits prod.splits option.splits)

theorem sendAndRec_sound_witness:
  "\<exists>env bs c'. sendAndRec env Background 0x10 [0x22, 1] 1000 (NewClient 0x10) (0 :: int) =
     Some ((0x10, bs, None), c', 0) \<and> hd bs = 0x62"
proof -
  define env :: "int Env" where "env = \<lparr>Clock = \<lambda>d. d, Pick = \<lambda>_. 0,
     Turn = \<lambda>t d. Some (deliverMessage \<lparr>NAD = 0x10, SID = 0x62, Data = [7]\<rparr> t, d)\<rparr>"
  have "\<exists>bs c'. sendAndRec env Background 0x10 [0x22, 1] 1000 (NewClient 0x10) 0 =
     Some ((0x10, bs, None), c', 0)"
    by (simp add: sendAndRec_def NewClient_def NewClientWithConfig_def normalizeClientConfig_def
        DefaultClientConfig_def NewMasterWithConfig_def SendDiagnostic_def drain_empties
        await_uds.simps ReceiveDiagnosticWithContext_def transport_run env_def Let_def
        responseWaitContext_def WithTimeout_def Background_def ctx_Err_def)
  then obtain bs c' where r: "sendAndRec env Background 0x10 [0x22, 1] 1000 (NewClient 0x10) 0 =
     Some ((0x10, bs, None), c', 0)" by blast
  from sendAndRec_sound [OF this] have "hd bs = 0x62" by auto
  with r show ?thesis by blast
qed

subsection \<open>Retries\<close>

text \<open>The state after \<open>n\<close> attempts, with the result of the last one.\<close>

fun attempts ::
    "'d Env \<Rightarrow> byte \<Rightarrow> byte list \<Rightarrow> int \<Rightarrow> nat \<Rightarrow> Client \<Rightarrow> 'd \<Rightarrow>
     (uds_result \<times> Client \<times> 'd) option" where
  "attempts env nad payload timeout 0 c d = sendAndRec env Background nad payload timeout c d"
| "attempts env nad payload timeout (Suc n) c d =
     (case sendAndRec env Background nad payload timeout c d of
        None \<Rightarrow> None
      | Some (r, c, d) \<Rightarrow> attempts env nad payload timeout n c d)"

definition timed_out :: "uds_result \<Rightarrow> bool" where
  "timed_out r \<longleftrightarrow> (\<exists>e. snd (snd r) = Some e \<and> errors_Is e ErrResponseTimeout)"

lemma retry_loop_attempts:
  assumes "retry_loop env nad payload timeout maxRetries attempt c d = Some (r, c', d')"
  shows "\<exists>n. attempts env nad payload timeout n c d = Some (r, c', d') \<and>
     (n = 0 \<or> attempt + int n \<le> maxRetries) \<and>
     (\<forall>i < n. \<exists>r1 c1 d1. attempts env nad payload timeout i c d = Some (r1, c1, d1) \<and> timed_out r1) \<and>
     (timed_out r \<longrightarrow> maxRetries \<le> attempt + int n)"
  using assms
proof (induction env nad payload timeout maxRetries attempt c d rule: retry_loop.induct)
  case (1 env nad payload timeout maxRetries attempt c d)
  obtain a bs err c1 d1 where s: "sendAndRec env Background nad payload timeout c d = Some ((a, bs, err), c1, d1)"
    using "1.prems" by (subst (asm) retry_loop.simps) (auto split: option.splits)
  let ?stop = "(case err of None \<Rightarrow> True | Some e \<Rightarrow> \<not> errors_Is e ErrResponseTimeout) \<or> attempt \<ge> maxRetries"
  have to: "timed_out (a, bs, err) \<longleftrightarrow> \<not> (case err of None \<Rightarrow> True | Some e \<Rightarrow> \<not> errors_Is e ErrResponseTimeout)"
    by (auto simp: timed_out_def split: option.splits)
  show ?case
  proof (cases ?stop)
    case True
    then have "(r, c', d') = ((a, bs, err), c1, d1)"
      using "1.prems" by (subst (asm) retry_loop.simps) (simp add: s)
    then show ?thesis using s to True by (intro exI [of _ 0]) auto
  next
    case False
    then have "retry_loop env nad payload timeout maxRetries (attempt + 1) c1 d1 = Some (r, c', d')"
      using "1.prems" by (subst (asm) retry_loop.simps) (simp add: s)
    from "1.IH" [OF s refl refl refl refl False this] obtain n where
      n: "attempts env nad payload timeout n c1 d1 = Some (r, c', d')"
         "n = 0 \<or> attempt + 1 + int n \<le> maxRetries"
         "\<forall>i < n. \<exists>r2 c2 d2. attempts env nad payload timeout i c1 d1 = Some (r2, c2, d2) \<and> timed_out r2"
         "timed_out r \<longrightarrow> maxRetries \<le> attempt + 1 + int n"
      by blast
    have "\<exists>r2 c2 d2. attempts env nad payload timeout i c d = Some (r2, c2, d2) \<and> timed_out r2"
      if "i < Suc n" for i
      using that n(3) s to False by (cases i) auto
    then show ?thesis
      using n False s by (intro exI [of _ "Suc n"]) auto
  qed
qed

text \<open>
  C15: A request is repeated only when repeating it is allowed and pointless otherwise. The result of
  \<open>SendAndRecWithNAD\<close> is the result of one of its attempts, numbered from 0 to at most
  \<open>MaxRetries\<close>, and of the very first one if the service is not marked retryable; all attempts
  before it ended in a response timeout; and a result that is itself a response timeout is only
  returned when the permitted retries are used up.
\<close>

theorem retries_bounded:
  assumes "SendAndRecWithNAD env nad payload timeout c d = Some (r, c', d')"
    and "payload \<noteq> []" and "0 \<le> MaxRetries (c_config c)"
  shows "\<exists>n. attempts env nad payload (if timeout \<le> 0 then DefaultTimeout (c_config c) else timeout) n c d
            = Some (r, c', d') \<and>
     int n \<le> (if retryable (c_config c) (payload ! 0) then MaxRetries (c_config c) else 0) \<and>
     (\<forall>i < n. \<exists>r1 c1 d1. attempts env nad payload
        (if timeout \<le> 0 then DefaultTimeout (c_config c) else timeout) i c d = Some (r1, c1, d1) \<and> timed_out r1) \<and>
     (timed_out r \<longrightarrow> int n = (if retryable (c_config c) (payload ! 0) then MaxRetries (c_config c) else 0))"
proof -
  let ?t = "if timeout \<le> 0 then DefaultTimeout (c_config c) else timeout"
  let ?max = "if retryable (c_config c) (payload ! 0) then MaxRetries (c_config c) else 0"
  have "retry_loop env nad payload ?t ?max 0 c d = Some (r, c', d')"
    using assms(1,2) by (simp add: SendAndRecWithNAD_def sendAndRecWithRetries_def Let_def split: if_splits)
  from retry_loop_attempts [OF this] obtain n where
    n: "attempts env nad payload ?t n c d = Some (r, c', d')"
       "n = 0 \<or> int n \<le> ?max"
       "\<forall>i < n. \<exists>r1 c1 d1. attempts env nad payload ?t i c d = Some (r1, c1, d1) \<and> timed_out r1"
       "timed_out r \<longrightarrow> ?max \<le> int n"
    by auto
  have "0 \<le> ?max" using assms(3) by simp
  then have max: "int n \<le> ?max" using n(2) by linarith
  then have "timed_out r \<longrightarrow> int n = ?max" using n(4) order.antisym by blast
  then show ?thesis using n(1,3) max by blast
qed

theorem retries_bounded_witness:
  "\<exists>r c' d'. SendAndRecWithNAD ticking 0x10 [0x22] 1 (NewClientWithConfig
       ((DefaultClientConfig 0x10)\<lparr>MaxRetries := 1, RetryableSIDs := Some [0x22 \<mapsto> True]\<rparr>)) 0 =
     Some (r, c', d') \<and> timed_out r \<and>
     attempts ticking 0x10 [0x22] 1 1 (NewClientWithConfig
       ((DefaultClientConfig 0x10)\<lparr>MaxRetries := 1, RetryableSIDs := Some [0x22 \<mapsto> True]\<rparr>)) 0 =
     Some (r, c', d')"
proof -
  let ?c = "NewClientWithConfig
       ((DefaultClientConfig 0x10)\<lparr>MaxRetries := 1, RetryableSIDs := Some [0x22 \<mapsto> True]\<rparr>)"
  have "\<exists>r c' d'. SendAndRecWithNAD ticking 0x10 [0x22] 1 ?c 0 = Some (r, c', d') \<and> timed_out r"
    by (simp add: SendAndRecWithNAD_def sendAndRecWithRetries_def retry_loop.simps retryable_def timed_out_def
        sendAndRec_def NewClientWithConfig_def normalizeClientConfig_def
        DefaultClientConfig_def NewMasterWithConfig_def SendDiagnostic_def drain_empties
        await_uds.simps ReceiveDiagnosticWithContext_def transport_run ticking_def Let_def
        responseWaitContext_def WithTimeout_def Background_def ctx_Err_def)
  then obtain r c' d' where r: "SendAndRecWithNAD ticking 0x10 [0x22] 1 ?c 0 = Some (r, c', d')" "timed_out r"
    by blast
  have c: "retryable (c_config ?c) 0x22" "MaxRetries (c_config ?c) = 1"
    by (simp_all add: retryable_def NewClientWithConfig_def normalizeClientConfig_def DefaultClientConfig_def Let_def)
  from retries_bounded [OF r(1)] c r(2) have "attempts ticking 0x10 [0x22] 1 1 ?c 0 = Some (r, c', d')"
    by auto
  with r show ?thesis by blast
qed

subsection \<open>The caller's context is the last word\<close>

context live_env
begin

lemma responseWaitContext_deadline:
  "ctx_deadline ctx = Some x \<Longrightarrow> \<exists>y \<le> x. ctx_deadline (responseWaitContext now ctx timeout) = Some y"
  by (auto simp: responseWaitContext_def WithTimeout_def)

lemma await_uds_returns:
  assumes "ctx_deadline ctx = Some x" and "\<exists>y \<le> x. ctx_deadline waitCtx = Some y"
  shows "\<exists>r. await_uds env p2star ctx waitCtx nad sid t d = Some r"
  using assms(2)
proof (induction "(nat (x - Clock env d), length (chan_buf (t_rxQueue t)))" arbitrary: t d waitCtx
    rule: wf_induct_rule [OF wf_lex_prod [OF wf_less wf_less], case_names less])
  case (less t d waitCtx)
  obtain y where y: "ctx_deadline waitCtx = Some y" "y \<le> x" using less.prems by blast
  obtain res t1 d1 where r: "ReceiveBlocking env waitCtx t d = Some (res, t1, d1)"
    using ReceiveBlocking_returns [OF y(1)] by (metis prod_cases3)
  show ?case
  proof (cases res)
    case (Inl err)
    then show ?thesis by (subst await_step) (simp add: r del: split_paired_Ex)
  next
    case (Inr m)
    have dec: "((nat (x - Clock env d1), length (chan_buf (t_rxQueue t1))),
           (nat (x - Clock env d), length (chan_buf (t_rxQueue t)))) \<in>
          {(x, y). x < y} <*lex*> {(x, y). x < y}"
      using ReceiveBlocking_progress [OF y(1) r [unfolded Inr]] y(2) by auto
    show ?thesis
      using less.hyps [OF dec less.prems]
        less.hyps [OF dec responseWaitContext_deadline [OF assms(1), of "Clock env d1" p2star]]
      by (subst await_step) (auto simp: r Inr split: uds_verdict.splits simp del: split_paired_Ex)
  qed
qed

lemma SendAndRecWithContext_returns:
  assumes "ctx_deadline ctx = Some x"
  shows "\<exists>r. SendAndRecWithContext env ctx payload c d = Some r"
proof -
  let ?sid = "payload ! 0" and ?nad = "TargetNad (c_config c)"
  let ?wait = "responseWaitContext (Clock env d) ctx 0"
  obtain err m where m: "SendDiagnostic ?nad ?sid (drop 1 payload) (drain (c_master c)) = (err, m)"
    by fastforce
  obtain res where "await_uds env (ResponsePendingTimeout (c_config c)) ctx ?wait ?nad ?sid m d = Some res"
    using await_uds_returns [OF assms responseWaitContext_deadline [OF assms]] by blast
  then show ?thesis
    using m by (cases err; cases res)
      (simp_all add: SendAndRecWithContext_def sendAndRec_def Let_def del: split_paired_Ex)
qed

end

end
