(* ===== verification/Preset.thy ===== *)
theory Preset
  imports Uds_Client Driver_Common
begin

section \<open>Presets (\<^verbatim>\<open>preset/\<close>)\<close>

text \<open>
  A preset owns a device and a UDS client on one channel. A device is a driver with the two
  optional interfaces the code asks for by type assertion, \<^verbatim>\<open>MasterReader\<close> and
  \<^verbatim>\<open>driverCloser\<close>. The constructors of the hardware drivers open a device, so they are
  parameters of the factories. \<^verbatim>\<open>operationMu\<close> serialises the operations: each is one step. A nil
  preset, device or client is \<open>None\<close>.
\<close>

record 'd Device =
  dev_driver :: "'d Driver"
  dev_MasterRead :: "(byte \<Rightarrow> Channel \<Rightarrow> 'd \<Rightarrow> (error + byte list) \<times> 'd) option"
  dev_Close :: "('d \<Rightarrow> error option \<times> 'd) option"

record 'd Preset =
  p_Nad :: byte
  p_Channel :: Channel
  p_LinDevice :: "'d Device option"
  p_Client :: "Client option"
  p_closed :: bool
  p_closeOnce :: bool
  p_closeErr :: "error option"

definition newPreset :: "'d Device option \<Rightarrow> byte \<Rightarrow> Channel \<Rightarrow> error + 'd Preset" where
  "newPreset drv targetNAD channel =
     (case drv of
        None \<Rightarrow> Inl ErrNilDriver
      | Some dev \<Rightarrow>
          let config = (DefaultClientConfig targetNAD)\<lparr>cc_Channel := channel\<rparr>
          in Inr \<lparr>p_Nad = targetNAD, p_Channel = channel, p_LinDevice = Some dev,
                  p_Client = Some (NewClientWithConfig config), p_closed = False,
                  p_closeOnce = False, p_closeErr = None\<rparr>)"

definition lockOperation :: "'d Preset option \<Rightarrow> error option" where
  "lockOperation p =
     (case p of None \<Rightarrow> Some ErrPresetClosed
      | Some p \<Rightarrow> if p_closed p then Some ErrPresetClosed else None)"

definition PresetClose :: "'d Preset option \<Rightarrow> 'd \<Rightarrow> error option \<times> 'd Preset option \<times> 'd" where
  "PresetClose p d =
     (case p of
        None \<Rightarrow> (None, None, d)
      | Some p \<Rightarrow>
          if p_closeOnce p then (p_closeErr p, Some p, d)
          else
            let p = p\<lparr>p_closeOnce := True\<rparr>;
                p = p\<lparr>p_closed := True\<rparr>;
                p = p\<lparr>p_Client := map_option ClientClose (p_Client p)\<rparr>
            in case (case p_LinDevice p of None \<Rightarrow> None | Some dev \<Rightarrow> dev_Close dev) of
                 None \<Rightarrow> (p_closeErr p, Some p, d)
               | Some close \<Rightarrow>
                   (case close d of
                      (Some err, d) \<Rightarrow>
                        let p = p\<lparr>p_closeErr := Some (Wrapped ''close LIN device'' [] err)\<rparr>
                        in (p_closeErr p, Some p, d)
                    | (None, d) \<Rightarrow> (p_closeErr p, Some p, d)))"

text \<open>A request with the client's operation \<open>send\<close>.\<close>

definition preset_request ::
    "(Client \<Rightarrow> 'd \<Rightarrow> (uds_result \<times> Client \<times> 'd) option) \<Rightarrow> 'd Preset option \<Rightarrow> 'd \<Rightarrow>
     (uds_result \<times> 'd Preset option \<times> 'd) option" where
  "preset_request send p d =
     (case lockOperation p of
        Some err \<Rightarrow> Some ((0, [], Some err), p, d)
      | None \<Rightarrow>
          (case p_Client (the p) of
             None \<Rightarrow> Some ((0, [], Some ErrPresetClosed), p, d)
           | Some c \<Rightarrow>
               (case send c d of
                  None \<Rightarrow> None
                | Some (r, c, d) \<Rightarrow> Some (r, Some ((the p)\<lparr>p_Client := Some c\<rparr>), d))))"

definition Request ::
    "'d Env \<Rightarrow> byte list \<Rightarrow> int \<Rightarrow> 'd Preset option \<Rightarrow> 'd \<Rightarrow>
     (uds_result \<times> 'd Preset option \<times> 'd) option" where
  "Request env payload timeout = preset_request (SendAndRec env payload timeout)"

definition RequestWithNAD ::
    "'d Env \<Rightarrow> byte \<Rightarrow> byte list \<Rightarrow> int \<Rightarrow> 'd Preset option \<Rightarrow> 'd \<Rightarrow>
     (uds_result \<times> 'd Preset option \<times> 'd) option" where
  "RequestWithNAD env nad payload timeout = preset_request (SendAndRecWithNAD env nad payload timeout)"

definition FunctionRequest ::
    "'d Env \<Rightarrow> byte list \<Rightarrow> int \<Rightarrow> 'd Preset option \<Rightarrow> 'd \<Rightarrow>
     (uds_result \<times> 'd Preset option \<times> 'd) option" where
  "FunctionRequest env payload timeout = RequestWithNAD env BroadcastNAD payload timeout"

definition PresetMasterRead ::
    "byte \<Rightarrow> 'd Preset option \<Rightarrow> 'd \<Rightarrow> (error + byte list) \<times> 'd" where
  "PresetMasterRead frameID p d =
     (case lockOperation p of
        Some err \<Rightarrow> (Inl err, d)
      | None \<Rightarrow>
          (case (case p_LinDevice (the p) of None \<Rightarrow> None | Some dev \<Rightarrow> dev_MasterRead dev) of
             None \<Rightarrow> (Inl ErrMasterReadUnsupported, d)
           | Some read \<Rightarrow>
               (case read frameID (p_Channel (the p)) d of
                  (Inl err, d) \<Rightarrow> (Inl err, d)
                | (Inr response, d) \<Rightarrow> (Inr response, d))))"

definition PresetWrite ::
    "byte \<Rightarrow> byte list \<Rightarrow> 'd Preset option \<Rightarrow> 'd \<Rightarrow> error option \<times> 'd" where
  "PresetWrite frameID data p d =
     (case lockOperation p of
        Some err \<Rightarrow> (Some err, d)
      | None \<Rightarrow>
          (case p_LinDevice (the p) of
             None \<Rightarrow> (Some ErrPresetClosed, d)
           | Some dev \<Rightarrow>
               if frameID > 0x3F then (Some (Wrapped ''0x%02X'' [uint frameID] ErrInvalidFrameID), d)
               else if length data > 8 then
                 (Some (Wrapped ''got bytes'' [int (length data)] ErrPayloadTooLong), d)
               else
                 let checksum = EnhancedChecksum;
                     checksum =
                       (if frameID = MasterDiagnosticFrameID \<or> frameID = SlaveDiagnosticFrameID
                        then ClassicChecksum else checksum);
                     event = \<lparr>ev_Channel = p_Channel (the p), EventID = frameID, EventPayload = data,
                              ev_ChecksumType = checksum, ev_Direction = TX, ev_Timestamp = 0\<rparr>
                 in WriteMessage (dev_driver dev) (Some event) (p_Channel (the p)) d))"

text \<open>
  The factories: open a device with the driver's constructor, then build the preset. \<open>open\<close> stands
  for \<^verbatim>\<open>NewToomoss\<close>, \<^verbatim>\<open>NewTSMaster\<close>, \<^verbatim>\<open>NewPCAN\<close> and \<^verbatim>\<open>NewVector\<close>.
\<close>

definition open_preset ::
    "string \<Rightarrow> ('d \<Rightarrow> (error + 'd Device) \<times> 'd) \<Rightarrow> byte \<Rightarrow> Channel \<Rightarrow> 'd \<Rightarrow> (error + 'd Preset) \<times> 'd" where
  "open_preset what open targetNAD channel d =
     (case open d of
        (Inl err, d) \<Rightarrow> (Inl (Wrapped what [] err), d)
      | (Inr drv, d) \<Rightarrow> (newPreset (Some drv) targetNAD channel, d))"

definition NewPresetToomoss ::
    "(Channel list \<Rightarrow> 'd \<Rightarrow> (error + 'd Device) \<times> 'd) \<Rightarrow> byte \<Rightarrow> Channel \<Rightarrow> 'd \<Rightarrow>
     (error + 'd Preset) \<times> 'd" where
  "NewPresetToomoss NewToomoss targetNAD channel =
     open_preset ''initialize Toomoss LIN driver'' (NewToomoss [channel]) targetNAD channel"

definition NewPresetTSMaster ::
    "(int \<Rightarrow> Channel \<Rightarrow> 'd \<Rightarrow> (error + 'd Device) \<times> 'd) \<Rightarrow> byte \<Rightarrow> Channel \<Rightarrow> int \<Rightarrow> 'd \<Rightarrow>
     (error + 'd Preset) \<times> 'd" where
  "NewPresetTSMaster NewTSMaster targetNAD channel deviceType =
     open_preset ''initialize TSMaster LIN driver'' (NewTSMaster deviceType channel) targetNAD channel"

definition NewPresetPCAN ::
    "(Channel \<Rightarrow> 'd \<Rightarrow> (error + 'd Device) \<times> 'd) \<Rightarrow> byte \<Rightarrow> Channel \<Rightarrow> 'd \<Rightarrow>
     (error + 'd Preset) \<times> 'd" where
  "NewPresetPCAN NewPCAN targetNAD channel =
     open_preset ''initialize PCAN LIN driver'' (NewPCAN channel) targetNAD channel"

definition NewPresetVector ::
    "(int \<Rightarrow> Channel \<Rightarrow> 'd \<Rightarrow> (error + 'd Device) \<times> 'd) \<Rightarrow> byte \<Rightarrow> Channel \<Rightarrow> int \<Rightarrow> 'd \<Rightarrow>
     (error + 'd Preset) \<times> 'd" where
  "NewPresetVector NewVector targetNAD channel deviceType =
     open_preset ''initialize Vector LIN driver'' (NewVector deviceType channel) targetNAD channel"

subsection \<open>Bounds of a raw write, and closing\<close>

text \<open>
  C17: A raw write reaches the device only as a valid frame. Over a device that records its calls,
  \<open>Write\<close> on an open preset makes exactly one write call, of a frame with an identifier of at
  most 0x3F, at most eight bytes, the preset's channel and the checksum its identifier requires,
  or it makes no call and reports the identifier or the length; on a closed preset it makes no
  call.
\<close>

theorem PresetWrite_valid_frames:
  assumes "p_LinDevice p = Some dev" and "dev_driver dev = traced drv"
  shows "case PresetWrite frameID data (Some p) (d, l) of (err, d', l') \<Rightarrow>
    if p_closed p then err = Some ErrPresetClosed \<and> l' = l
    else if frameID > 0x3F then (\<exists>e. err = Some e \<and> errors_Is e ErrInvalidFrameID) \<and> l' = l
    else if length data > 8 then (\<exists>e. err = Some e \<and> errors_Is e ErrPayloadTooLong) \<and> l' = l
    else \<exists>ev. l' = l @ [Write_call (Some ev)] \<and> EventID ev = frameID \<and> EventPayload ev = data \<and>
      ev_Channel ev = p_Channel p \<and> ev_Direction ev = TX \<and>
      (ev_ChecksumType ev = ClassicChecksum \<longleftrightarrow> frameID \<in> {0x3C, 0x3D}) \<and>
      err = fst (WriteMessage drv (Some ev) (p_Channel p) d)"
  using assms
  by (auto simp: PresetWrite_def lockOperation_def Let_def traced_def split: prod.splits)

theorem PresetWrite_valid_frames_witness:
  "\<exists>p. snd (snd (PresetWrite 0x40 [1] (Some (p :: (unit \<times> driver_call list) Preset)) ((), []))) = []"
proof -
  define drv :: "unit Driver" where "drv = quiet_driver"
  define dev where "dev = \<lparr>dev_driver = traced drv, dev_MasterRead = None, dev_Close = None\<rparr>"
  define p where "p = projr (newPreset (Some dev) 1 0)"
  have "p_LinDevice p = Some dev" "dev_driver dev = traced drv" "\<not> p_closed p"
    by (simp_all add: p_def newPreset_def Let_def dev_def)
  from PresetWrite_valid_frames [OF this(1,2), where frameID = "0x40" and data = "[1]" and l = "[]"] this(3)
  show ?thesis by (intro exI [of _ p]) (auto split: prod.splits)
qed

text \<open>
  C18: Closing a preset is idempotent and final. The first \<open>Close\<close> closes the client's transport and
  the device once; a second one returns the same error without touching the device; and every
  later request, master read or write reports \<open>ErrPresetClosed\<close> and leaves the device alone.
\<close>

theorem PresetClose_final:
  assumes "PresetClose (Some p) d = (err, p', d')" and "\<not> p_closeOnce p"
  shows "d' = (case p_LinDevice p of None \<Rightarrow> d
         | Some dev \<Rightarrow> (case dev_Close dev of None \<Rightarrow> d | Some close \<Rightarrow> snd (close d))) \<and>
    map_option p_Client p' = Some (map_option ClientClose (p_Client p)) \<and>
    PresetClose p' d1 = (err, p', d1) \<and>
    RequestWithNAD env nad payload timeout p' d1 = Some ((0, [], Some ErrPresetClosed), p', d1) \<and>
    Request env payload timeout p' d1 = Some ((0, [], Some ErrPresetClosed), p', d1) \<and>
    PresetMasterRead frameID p' d1 = (Inl ErrPresetClosed, d1) \<and>
    PresetWrite frameID data p' d1 = (Some ErrPresetClosed, d1)"
proof -
  have "(\<exists>q. p' = Some q \<and> p_closeOnce q \<and> p_closed q \<and> err = p_closeErr q \<and>
        p_Client q = map_option ClientClose (p_Client p)) \<and>
      d' = (case p_LinDevice p of None \<Rightarrow> d
         | Some dev \<Rightarrow> (case dev_Close dev of None \<Rightarrow> d | Some close \<Rightarrow> snd (close d)))"
    using assms
    by (auto simp: PresetClose_def Let_def split: option.splits prod.splits)
  then show ?thesis
    by (auto simp: PresetClose_def RequestWithNAD_def Request_def preset_request_def
        PresetMasterRead_def PresetWrite_def lockOperation_def)
qed

theorem PresetClose_final_witness:
  "\<exists>p'. PresetClose p' () = (Some (Wrapped ''close LIN device'' [] ErrDriverClosed), p', ()) \<and>
     PresetWrite 0x10 [1] p' () = (Some ErrPresetClosed, ())"
proof -
  define dev :: "unit Device" where "dev =
    \<lparr>dev_driver = quiet_driver, dev_MasterRead = None, dev_Close = Some (\<lambda>d. (Some ErrDriverClosed, d))\<rparr>"
  define p where "p = projr (newPreset (Some dev) 1 0)"
  have "\<exists>p'. PresetClose (Some p) () = (Some (Wrapped ''close LIN device'' [] ErrDriverClosed), p', ())"
    and "\<not> p_closeOnce p"
    by (simp_all add: PresetClose_def p_def newPreset_def dev_def Let_def)
  then show ?thesis by (meson PresetClose_final)
qed

end
