(* ===== verification/System.thy ===== *)
theory System
  imports Slave Driver_Common Preset
begin

section \<open>A whole system\<close>

text \<open>
  A master, slaves and the simulated network together. The world of the master's blocking
  receive is the network and the slaves; its turn runs one cycle of the master's goroutine, one
  step of every slave, and lets ten milliseconds (the poll interval of both loops) pass. The
  loops of the program run concurrently and wake each other; this fixed order is one of their
  interleavings, and no theorem takes a latency from it. \<open>System_Schedule\<close> has all of them.
\<close>

record World =
  w_net :: SimulatedLinNetwork
  w_slaves :: "LinSlave list"

text \<open>The master's driver, acting on the world.\<close>

definition on_net :: "('r \<times> SimulatedLinNetwork) \<Rightarrow> World \<Rightarrow> 'r \<times> World" where
  "on_net x w = (fst x, w\<lparr>w_net := snd x\<rparr>)"

definition master_driver :: "World Driver" where
  "master_driver =
     \<lparr>ReadEvent = \<lambda>timeout c w. Some (on_net (sim_ReadEvent MasterNode timeout c (w_net w)) w),
      WriteMessage = \<lambda>e c w. on_net (sim_WriteMessage MasterNode e c (w_net w)) w,
      ScheduleSlaveResponse = \<lambda>e c w. on_net (sim_ScheduleSlaveResponse MasterNode e c (w_net w)) w,
      RequestSlaveResponse = \<lambda>i c w. on_net (sim_RequestSlaveResponse MasterNode i c (w_net w)) w\<rparr>"

text \<open>One step of each slave in order; \<open>i\<close> is the place of the first one.\<close>

fun slaves_turn ::
    "nat \<Rightarrow> LinSlave list \<Rightarrow> SimulatedLinNetwork \<Rightarrow> (LinSlave list \<times> SimulatedLinNetwork) option" where
  "slaves_turn i [] n = Some ([], n)"
| "slaves_turn i (s # ss) n =
     (case simulate (sim_driver (SlaveNode i)) n_now s n of
        None \<Rightarrow> None
      | Some (s, n) \<Rightarrow>
          (case slaves_turn (Suc i) ss n of
             None \<Rightarrow> None
           | Some (ss, n) \<Rightarrow> Some (s # ss, n)))"

definition world_turn :: "Transport \<Rightarrow> World \<Rightarrow> (Transport \<times> World) option" where
  "world_turn t w =
     (case goroutine_turn master_driver (\<lambda>w. n_now (w_net w)) Tick t w of
        None \<Rightarrow> None
      | Some (t, w) \<Rightarrow>
          (case slaves_turn 0 (w_slaves w) (w_net w) of
             None \<Rightarrow> None
           | Some (ss, n) \<Rightarrow>
               Some (t, w\<lparr>w_slaves := ss, w_net := n\<lparr>n_now := n_now n + 10 * Millisecond\<rparr>\<rparr>)))"

definition world_env :: "World Env" where
  "world_env = \<lparr>Clock = \<lambda>w. n_now (w_net w), Pick = \<lambda>_. 0, Turn = world_turn\<rparr>"

text \<open>A network with a master driver and one slave.\<close>

definition one_slave_world :: "LinSlave \<Rightarrow> World" where
  "one_slave_world s =
     (let n = snd (GetMasterDriver (NewSimulatedLinNetwork 0));
          (x, n) = CreateSlaveDriver n
      in \<lparr>w_net = n, w_slaves = [s]\<rparr>)"

subsection \<open>The world moves on\<close>

interpretation wd: finite_driver master_driver "\<lambda>c w. sim_waiting MasterNode c (w_net w)"
proof
  show "ReadEvent master_driver timeout c d \<noteq> None" for timeout c d by (simp add: master_driver_def)
  show "sim_waiting MasterNode c (w_net d') < sim_waiting MasterNode c (w_net d)"
    if "ReadEvent master_driver timeout c d = Some (Inr (Some ev), d')" for timeout c d ev d'
    using that sim.read_shrinks [of MasterNode timeout c "w_net d" ev "w_net d'"]
    by (auto simp: master_driver_def on_net_def prod_eq_iff)
  show "sim_waiting MasterNode c (w_net d') \<le> sim_waiting MasterNode c (w_net d)"
    if "ScheduleSlaveResponse master_driver e c d = (r, d')" for e c d r d'
    using that sim.schedule_keeps [of MasterNode e c "w_net d" r "w_net d'"]
    by (auto simp: master_driver_def on_net_def prod_eq_iff)
qed

interpretation wd_clock: clocked_driver master_driver "\<lambda>w. n_now (w_net w)"
  by unfold_locales (auto simp: master_driver_def on_net_def sim_now)

lemma simulate_returns:
  "\<exists>s' n'. simulate (sim_driver x) n_now s n = Some (s', n') \<and> n_now n \<le> n_now n'"
proof -
  obtain err t' n' where ex: "execute (sim_driver x) n_now (s_transport s) n = Some (err, t', n')"
    using sim.execute_returns by (metis prod_cases3)
  from sim_clock.execute_clock [OF ex] show ?thesis
    by (cases err) (auto simp: simulate_def ex split: prod.splits option.splits)
qed

lemma slaves_turn_returns:
  "\<exists>ss' n'. slaves_turn i ss n = Some (ss', n') \<and> n_now n \<le> n_now n'"
proof (induction ss arbitrary: i n)
  case (Cons s ss)
  obtain s' n1 where one: "simulate (sim_driver (SlaveNode i)) n_now s n = Some (s', n1)"
    "n_now n \<le> n_now n1"
    using simulate_returns by blast
  obtain ss' n' where "slaves_turn (Suc i) ss n1 = Some (ss', n')" "n_now n1 \<le> n_now n'"
    using Cons.IH by blast
  with one show ?case by auto
qed simp

lemma world_turn_returns:
  "\<exists>t' w'. world_turn t w = Some (t', w') \<and> n_now (w_net w) < n_now (w_net w')"
proof -
  obtain err t1 w1 where ex: "execute master_driver (\<lambda>w. n_now (w_net w)) t w = Some (err, t1, w1)"
    using wd.execute_returns by (metis prod_cases3)
  obtain ss n where ss: "slaves_turn 0 (w_slaves w1) (w_net w1) = Some (ss, n)" "n_now (w_net w1) \<le> n_now n"
    using slaves_turn_returns by blast
  show ?thesis
    using wd_clock.execute_clock [OF ex] ss
    by (simp add: world_turn_def goroutine_turn_def ex)
qed

interpretation world: live_env world_env
proof
  show "Turn world_env t d \<noteq> None" for t d
    using world_turn_returns [of t d] by (auto simp: world_env_def)
  show "Clock world_env d < Clock world_env d'" if "Turn world_env t d = Some (t', d')" for t d t' d'
    using that world_turn_returns [of t d] by (auto simp: world_env_def)
qed

text \<open>
  In a system of a master, any number of slaves and the simulated network, every request of the
  master returns: whatever the state of the transports, of the slaves and of the bus,
  \<open>ReadByIdentifier\<close> and \<open>AssignSlaveNad\<close> end with a response or an error, and a UDS request whose
  context has a deadline ends as well, even if a slave answers \<^emph>\<open>response pending\<close> for ever.
\<close>

theorem requests_return:
  "(\<exists>r. ReadByIdentifier world_env identifier supplierID functionID nad timeout m w = Some r) \<and>
   (\<exists>r. AssignSlaveNad world_env newNad supplierID functionID nad timeout m w = Some r) \<and>
   (\<exists>r. SendAndRecWithContext world_env (ctx\<lparr>ctx_deadline := Some deadline\<rparr>) payload c w = Some r)"
  using world.ReadByIdentifier_returns world.AssignSlaveNad_returns
    world.SendAndRecWithContext_returns [of "ctx\<lparr>ctx_deadline := Some deadline\<rparr>"]
  by simp

subsection \<open>Requests over the simulated bus, end to end\<close>

text \<open>
  The program's definitions as one set of rewrite rules, to run a system symbolically: the loops
  are the recursion equations, guarded by their conditions.
\<close>

lemma Uint16_bytes [simp]: "Uint16 (ucast v # ucast (drop_bit 8 v) # xs) = v"
  using Uint16_PutUint16 [of v xs] by (simp add: PutUint16_def)

lemmas net_run = sim_run world_env_def world_turn_def master_driver_def on_net_def one_slave_world_def

lemmas slave_run = simulate_def handle_message_def handleReadByIdentifier_def
  handleAssignNad_def transmitNegativeResponse_def getIDBytes_def slave_transmit_def NewSlave_def
  matchesID_def identity_of_def

lemmas master_run = NewMaster_def GetSlaveProductIdentifier_def ReadByIdentifier_def AssignSlaveNad_def
  request_def waitForResponse_def WithTimeout_def Background_def ctx_Err_def
  waitForResponseWithContext.simps

lemmas system_run = transport_run net_run slave_run master_run Let_def PutUint16_def

text \<open>
  C10: Over the simulated bus, assigning a node address works end to end: the master's
  \<open>AssignSlaveNad\<close> is answered from the old address, and afterwards the slave has the new address
  and otherwise the identity it had.
\<close>

theorem assign_nad_end_to_end:
  assumes "reqSupplier = supplier \<or> reqSupplier = BroadcastSupplierID"
    and "reqFunction = function \<or> reqFunction = BroadcastFunctionID"
    and "80 * Millisecond < timeout"
  shows "(case AssignSlaveNad world_env newNad reqSupplier reqFunction nad timeout (NewMaster [])
            (one_slave_world (NewSlave nad variant supplier function (Some serial) [])) of
            Some (r, m, w) \<Rightarrow> Some (r, map identity_of (w_slaves w)) | None \<Rightarrow> None) =
         Some (Inr nad, [\<lparr>id_nad = newNad, id_saved = 0, id_supplier = supplier,
                  id_function = function, id_variant = variant, id_serial = serial\<rparr>])"
  using assms by (simp add: system_run)

theorem assign_nad_end_to_end_witness:
  "(case AssignSlaveNad world_env 0x22 0x1234 0xFFFF 0x10 (1 * Second) (NewMaster [])
      (one_slave_world (NewSlave 0x10 3 0x1234 0x5678 (Some [9]) [])) of
      Some (r, m, w) \<Rightarrow> Some (r, map identity_of (w_slaves w)) | None \<Rightarrow> None) =
   Some (Inr 0x10, [\<lparr>id_nad = 0x22, id_saved = 0, id_supplier = 0x1234,
            id_function = 0x5678, id_variant = 3, id_serial = [9]\<rparr>])"
  by (rule assign_nad_end_to_end) simp_all

text \<open>
  A slave that does not know an identifier says so, and the master hears it: reading any
  identifier other than the product identifier and the serial number over the simulated bus
  ends with the negative response of the requested service with code 0x12.
\<close>

theorem unknown_identifier_end_to_end:
  assumes "reqSupplier = supplier \<or> reqSupplier = BroadcastSupplierID"
    and "reqFunction = function \<or> reqFunction = BroadcastFunctionID"
    and "80 * Millisecond < timeout"
    and "identifier \<noteq> 0" and "identifier \<noteq> 1"
  shows "map_option fst (ReadByIdentifier world_env identifier reqSupplier reqFunction nad timeout
            (NewMaster []) (one_slave_world (NewSlave nad variant supplier function serial []))) =
         Some (Inl (NegativeResponseError 0xB2 0x12))"
  using assms by (simp add: system_run)

theorem unknown_identifier_end_to_end_witness:
  "map_option fst (ReadByIdentifier world_env 5 0x7FFF 0xFFFF 0x10 (1 * Second)
      (NewMaster []) (one_slave_world (NewSlave 0x10 3 0x1234 0x5678 None []))) =
   Some (Inl (NegativeResponseError 0xB2 0x12))"
  by (rule unknown_identifier_end_to_end) simp_all

end
