(* ===== verification/System_Time.thy ===== *)
theory System_Time
  imports System
begin

section \<open>How long a request takes\<close>

text \<open>
  Over the simulated bus a read of an event takes no time and an empty read takes its timeout, so a
  cycle takes at most one read timeout (locale \<open>brief_driver\<close>), and a turn of the world (a cycle
  of the master, a step of every slave) at most the read timeouts of the slaves and one poll interval.
  In an environment whose turns are bounded in this way (locale \<open>timely_env\<close>) a request of the master
  returns within its timeout and one turn.
\<close>

subsection \<open>Cycles\<close>

text \<open>A cycle leaves role and configuration alone.\<close>

definition same_role :: "Transport \<Rightarrow> Transport \<Rightarrow> bool" where
  "same_role t t' \<longleftrightarrow> t_isSlave t' = t_isSlave t \<and> t_config t' = t_config t"

lemma execute_role:
  assumes "execute drv clock t d = Some (err, t', d')"
  shows "same_role t t'"
proof (rule execute_invariant [where I = "\<lambda>u d. same_role t u", OF assms])
  show "same_role t t2" if "same_role t u" "slave_send drv u d = (e, t2, d2)" for u d e t2 d2
    using that by (cases rule: slave_send_cases [of u drv d]) (auto simp: same_role_def split: option.splits)
next
  show "same_role t t2" if "same_role t u" "master_send drv b u d = (e, t2, d2)" for u d b e t2 d2
    using that by (cases rule: master_send_cases [of u drv b d]) (auto simp: same_role_def)
qed (use receiveFromDriver_channel in \<open>fastforce simp: same_role_def\<close>)+

text \<open>What a cycle of a transport may take on such a driver.\<close>

definition cycle_time :: "Transport \<Rightarrow> int" where
  "cycle_time t = (if t_isSlave t then max 0 (ReadTimeout (t_config t)) else 0)"

locale brief_driver = finite_driver drv waiting
  for drv :: "'d Driver" and waiting :: "Channel \<Rightarrow> 'd \<Rightarrow> nat" +
  fixes clock :: "'d \<Rightarrow> int"
  assumes event_brief: "ReadEvent drv timeout c d = Some (Inr (Some ev), d') \<Longrightarrow> clock d' = clock d"
    and read_brief: "ReadEvent drv timeout c d = Some (r, d') \<Longrightarrow> clock d' \<le> clock d + max 0 timeout"
    and write_brief: "clock (snd (WriteMessage drv e c d)) = clock d"
    and schedule_brief: "clock (snd (ScheduleSlaveResponse drv e c d)) = clock d"
    and request_brief: "clock (snd (RequestSlaveResponse drv i c d)) = clock d"
begin

lemma receive_brief: "receiveFromDriver drv cl e t d = (b, t', d') \<Longrightarrow> clock d' = clock d"
  using schedule_brief by (cases rule: receiveFromDriver_cases [of drv cl e t d]) auto

lemma slave_send_brief: "slave_send drv t d = (e, t', d') \<Longrightarrow> clock d' = clock d"
  using schedule_brief by (cases rule: slave_send_cases [of t drv d]) auto

lemma master_send_brief: "master_send drv b t d = (e, t', d') \<Longrightarrow> clock d' = clock d"
  using write_brief request_brief by (cases rule: master_send_cases [of t drv b d]) auto

lemma read_events_brief:
  "read_events drv cl rt b t d = Some (err, b', t', d') \<Longrightarrow> clock d' \<le> clock d + max 0 rt"
proof (induction "waiting (t_channel t) d" arbitrary: b t d rule: less_induct)
  case less
  obtain res d1 where read: "ReadEvent drv rt (t_channel t) d = Some (res, d1)"
    using read_returns [of rt "t_channel t" d] by auto
  show ?case
  proof (cases "\<exists>ev. res = Inr (Some ev)")
    case True
    then obtain ev where ev: "res = Inr (Some ev)" by blast
    obtain c t2 d2 where r: "receiveFromDriver drv cl ev t d1 = (c, t2, d2)" by (metis prod_cases3)
    have "waiting (t_channel t2) d2 < waiting (t_channel t) d"
      using receive_keeps_waiting [OF r] receiveFromDriver_channel [OF r] read_shrinks [OF read [unfolded ev]]
      by simp
    moreover have "read_events drv cl rt (if c then True else b) t2 d2 = Some (err, b', t', d')"
      using less.prems by (subst (asm) read_events.simps) (simp add: read ev r)
    ultimately have "clock d' \<le> clock d2 + max 0 rt" by (rule less.hyps)
    then show ?thesis using receive_brief [OF r] event_brief [OF read [unfolded ev]] by simp
  next
    case False
    then have "d' = d1"
      using less.prems by (subst (asm) read_events.simps) (auto simp: read split: sum.splits option.splits)
    then show ?thesis using read_brief [OF read] by simp
  qed
qed

lemma execute_brief:
  assumes "execute drv cl t d = Some (err, t', d')"
  shows "clock d' \<le> clock d + cycle_time t"
proof -
  let ?t = "checkMultiFrameTimeout (cl d) t"
  let ?rt = "if t_isSlave t then ReadTimeout (t_config t) else 0"
  consider "d' = d" | err1 b t1 d1 where "read_events drv cl ?rt False ?t d = Some (err1, b, t1, d1)"
    "d' = d1 \<or> (\<exists>e t2. slave_send drv t1 d1 = (e, t2, d')) \<or> (\<exists>e t2. master_send drv b t1 d1 = (e, t2, d'))"
    using assms
    by (auto simp: execute_def Let_def split: if_splits option.splits prod.splits)
  then show ?thesis
  proof cases
    case 1
    then show ?thesis by (simp add: cycle_time_def)
  next
    case 2
    then have "clock d' \<le> clock d + max 0 ?rt"
      using read_events_brief [OF 2(1)] slave_send_brief master_send_brief by metis
    then show ?thesis by (simp add: cycle_time_def split: if_splits)
  qed
qed

end

interpretation sim_brief: brief_driver "sim_driver x" "sim_waiting x" n_now for x
  by unfold_locales
     (auto simp: sim_now sim_ReadEvent_def split: option.splits prod.splits if_splits)

interpretation wd_brief: brief_driver master_driver "\<lambda>c w. sim_waiting MasterNode c (w_net w)"
    "\<lambda>w. n_now (w_net w)"
proof
  show "n_now (w_net d') = n_now (w_net d)"
    if "ReadEvent master_driver timeout c d = Some (Inr (Some ev), d')" for timeout c d ev d'
    using that sim_brief.event_brief [of MasterNode timeout c "w_net d" ev "w_net d'"]
    by (auto simp: master_driver_def on_net_def prod_eq_iff)
  show "n_now (w_net d') \<le> n_now (w_net d) + max 0 timeout"
    if "ReadEvent master_driver timeout c d = Some (r, d')" for timeout c d r d'
    using that sim_brief.read_brief [of MasterNode timeout c "w_net d" r "w_net d'"]
    by (auto simp: master_driver_def on_net_def prod_eq_iff)
qed (simp_all add: master_driver_def on_net_def sim_now)

subsection \<open>A turn of the world\<close>

text \<open>What a turn may take: the read timeouts of the slaves and the poll interval.\<close>

definition slaves_time :: "LinSlave list \<Rightarrow> int" where
  "slaves_time ss = sum_list (map (\<lambda>s. cycle_time (s_transport s)) ss)"

definition turn_time :: "World \<Rightarrow> int" where
  "turn_time w = slaves_time (w_slaves w) + 10 * Millisecond"

lemma Transmit_role: "same_role t (snd (Transmit nad sid payload t))"
  by (auto simp: Transmit_def signal_wake_def same_role_def Let_def split: sum.splits)

lemma handle_message_role: "same_role (s_transport s) (s_transport (handle_message msg s))"
  using Transmit_role
  by (auto simp: handle_message_def handleReadByIdentifier_def handleAssignNad_def slave_transmit_def
      transmitNegativeResponse_def Let_def same_role_def split: option.splits prod.splits)

lemma same_role_time: "same_role t t' \<Longrightarrow> cycle_time t' = cycle_time t"
  by (simp add: same_role_def cycle_time_def)

lemma simulate_brief:
  assumes "simulate (sim_driver x) n_now s n = Some (s', n')"
  shows "n_now n' \<le> n_now n + cycle_time (s_transport s) \<and>
    cycle_time (s_transport s') = cycle_time (s_transport s)"
proof -
  obtain err t' n1 where ex: "execute (sim_driver x) n_now (s_transport s) n = Some (err, t', n1)"
    using assms by (auto simp: simulate_def split: option.splits)
  have rx: "same_role t' (snd (Receive t'))"
    by (auto simp: Receive_def try_recv.simps same_role_def split: list.splits)
  have "n' = n1" "same_role t' (s_transport s')"
    using assms rx handle_message_role [of "s\<lparr>s_transport := snd (Receive t')\<rparr>"]
    by (auto simp: simulate_def ex same_role_def split: option.splits prod.splits)
  then show ?thesis
    using sim_brief.execute_brief [OF ex] same_role_time [OF execute_role [OF ex]] same_role_time by simp
qed

lemma slaves_turn_brief:
  "slaves_turn i ss n = Some (ss', n') \<Longrightarrow>
   n_now n' \<le> n_now n + slaves_time ss \<and> slaves_time ss' = slaves_time ss"
proof (induction ss arbitrary: i n ss' n')
  case (Cons s ss)
  obtain s1 n1 ss1 where "simulate (sim_driver (SlaveNode i)) n_now s n = Some (s1, n1)"
    and "slaves_turn (Suc i) ss n1 = Some (ss1, n')" and "ss' = s1 # ss1"
    using Cons.prems by (auto split: option.splits)
  then show ?case
    using Cons.IH [of "Suc i" n1 ss1 n'] simulate_brief [of "SlaveNode i" s n s1 n1]
    by (simp add: slaves_time_def)
qed (simp add: slaves_time_def)

lemma master_driver_slaves:
  "ReadEvent master_driver timeout c w = Some (r, w') \<Longrightarrow> w_slaves w' = w_slaves w"
  "w_slaves (snd (WriteMessage master_driver e c w)) = w_slaves w"
  "w_slaves (snd (ScheduleSlaveResponse master_driver e c w)) = w_slaves w"
  "w_slaves (snd (RequestSlaveResponse master_driver i c w)) = w_slaves w"
  by (auto simp: master_driver_def on_net_def)

lemma execute_slaves:
  assumes "execute master_driver clock t w = Some (err, t', w')"
  shows "w_slaves w' = w_slaves w"
proof (rule execute_invariant [where I = "\<lambda>t v. w_slaves v = w_slaves w", OF assms refl])
  show "w_slaves v' = w_slaves w"
    if "w_slaves v = w_slaves w" "ReadEvent master_driver rt (t_channel u) v = Some (r, v')" for rt u v r v'
    using that master_driver_slaves(1) [OF that(2)] by simp
next
  show "w_slaves v' = w_slaves w" if "w_slaves v = w_slaves w" "slave_send master_driver u v = (r, u', v')"
    for u v r u' v'
    using that master_driver_slaves by (cases rule: slave_send_cases [of u master_driver v]) auto
next
  show "w_slaves v' = w_slaves w" if "w_slaves v = w_slaves w" "master_send master_driver b u v = (r, u', v')"
    for u v b r u' v'
    using that master_driver_slaves by (cases rule: master_send_cases [of u master_driver b v]) auto
next
  show "w_slaves v2 = w_slaves w"
    if "w_slaves v1 = w_slaves w" "receiveFromDriver master_driver clock ev u v1 = (c, u2, v2)"
    for u ev v1 c u2 v2
    using that master_driver_slaves by (cases rule: receiveFromDriver_cases [of master_driver clock ev u v1]) auto
qed

lemma world_turn_brief:
  assumes "world_turn t w = Some (t', w')" and "\<not> t_isSlave t"
  shows "n_now (w_net w') \<le> n_now (w_net w) + turn_time w \<and> \<not> t_isSlave t' \<and> turn_time w' = turn_time w"
proof -
  obtain err t1 w1 ss n where ex: "execute master_driver (\<lambda>w. n_now (w_net w)) t w = Some (err, t1, w1)"
    and ss: "slaves_turn 0 (w_slaves w1) (w_net w1) = Some (ss, n)"
    and res: "t' = reportError err t1" "w' = w1\<lparr>w_slaves := ss, w_net := n\<lparr>n_now := n_now n + 10 * Millisecond\<rparr>\<rparr>"
    using assms(1) by (auto simp: world_turn_def goroutine_turn_def split: option.splits prod.splits)
  have "n_now (w_net w1) \<le> n_now (w_net w)"
    using wd_brief.execute_brief [OF ex] assms(2) by (simp add: cycle_time_def)
  then show ?thesis
    using slaves_turn_brief [OF ss] execute_slaves [OF ex] execute_role [OF ex] assms(2)
    by (simp add: res turn_time_def same_role_def)
qed

subsection \<open>Requests\<close>

lemma drain_role: "same_role m (drain m)"
proof (induction m rule: drain.induct)
  case (1 m)
  have "same_role m (snd (ReceiveDiagnostic m))"
    by (auto simp: ReceiveDiagnostic_def Receive_def try_recv.simps same_role_def split: list.splits)
  then show ?case
    using 1 by (subst drain.simps) (auto simp: same_role_def split: prod.splits option.splits)
qed

text \<open>An environment whose turns take no longer than \<open>step\<close> while it is \<open>steady\<close>.\<close>

locale timely_env = live_env env
  for env :: "'d Env" +
  fixes steady :: "'d \<Rightarrow> bool" and step :: int
  assumes turn_brief: "Turn env t d = Some (t', d') \<Longrightarrow> \<not> t_isSlave t \<Longrightarrow> steady d \<Longrightarrow>
      Clock env d' \<le> Clock env d + step \<and> \<not> t_isSlave t' \<and> steady d'"
begin

text \<open>Neither a receive nor a wait takes the clock beyond \<open>b\<close>, if that is one turn past the deadline.\<close>

definition in_time :: "int \<Rightarrow> Transport \<times> 'd \<Rightarrow> bool" where
  "in_time b s \<longleftrightarrow> \<not> t_isSlave (fst s) \<and> steady (snd s) \<and> Clock env (snd s) \<le> b"

lemma ReceiveBlocking_brief:
  assumes "ctx_deadline ctx = Some x" and "ReceiveBlocking env ctx t d = Some (r, t', d')"
    and "in_time b (t, d)" and "x + step \<le> b"
  shows "in_time b (t', d')"
  using assms(2,3)
proof (induction "nat (x - Clock env d)" arbitrary: t d rule: less_induct)
  case less
  show ?case
  proof (cases "receive_ready ctx (Clock env d) t")
    case (Cons a as)
    define pick where "pick = (a # as) ! (Pick env d mod length (a # as))"
    have "pick \<in> set (receive_ready ctx (Clock env d) t)"
      unfolding pick_def Cons by (rule nth_mem) simp
    moreover have "pick = (r, t') \<and> d' = d"
      using less.prems unfolding pick_def
      by (subst (asm) ReceiveBlocking.simps) (auto simp: Cons split: prod.splits)
    ultimately have "d' = d" "t_isSlave t' = t_isSlave t"
      by (auto simp: receive_ready_def try_recv.simps split: list.splits option.splits if_splits)
    with less.prems show ?thesis by (simp add: in_time_def)
  next
    case Nil
    have lt: "Clock env d < x"
    proof (rule ccontr)
      assume "\<not> Clock env d < x"
      then have "ctx_Err (Clock env d) ctx \<noteq> None" by (intro ctx_Err_deadline [OF assms(1)]) simp
      with Nil show False by (simp add: receive_ready_def split: option.splits)
    qed
    obtain t1 d1 where turn: "Turn env t d = Some (t1, d1)" using turn_total by fastforce
    have "in_time b (t1, d1)"
      using turn_brief [OF turn] less.prems(2) assms(4) lt by (auto simp: in_time_def)
    moreover have "ReceiveBlocking env ctx t1 d1 = Some (r, t', d')"
      using less.prems by (subst (asm) ReceiveBlocking.simps) (simp add: Nil turn)
    moreover have "nat (x - Clock env d1) < nat (x - Clock env d)"
      using time_passes [OF turn] lt by simp
    ultimately show ?thesis using less.hyps by blast
  qed
qed

lemma wait_brief:
  assumes "ctx_deadline ctx = Some x"
    and "waitForResponseWithContext env ctx rsid nad t d = Some (r, t', d')" and "in_time b (t, d)"
    and "x + step \<le> b"
  shows "in_time b (t', d')"
proof -
  have "in_time b (snd res)"
    if "waitForResponseWithContext e ctx rsid nad t d = Some res" "e = env" "ctx_deadline ctx = Some x"
      "in_time b (t, d)" for e res
    using that
  proof (induction rule: waitForResponseWithContext.raw_induct [rotated, consumes 1, case_names step])
    case (step wait e ctx rsid nad t d res)
    show ?case
    proof (cases "ReceiveBlocking env ctx t d")
      case None
      then show ?thesis using step.hyps step.prems by simp
    next
      case (Some y)
      obtain a t1 d1 where y: "y = (a, t1, d1)" by (cases y)
      have "in_time b (t1, d1)"
        using ReceiveBlocking_brief [OF step.prems(2) Some [unfolded y] step.prems(3) assms(4)] .
      then show ?thesis
        using step.IH [of env ctx rsid nad t1 d1 res] step.hyps step.prems
        by (cases a) (auto simp: Some y Let_def split: if_splits)
    qed
  qed
  with assms show ?thesis by fastforce
qed

lemma request_brief:
  assumes "request env nad sid payload timeout m d = Some (r, m', d')" and "\<not> t_isSlave m" and "steady d"
    and "0 \<le> step"
  shows "Clock env d' \<le> Clock env d + max 0 timeout + step"
proof -
  obtain err m1 where tr: "Transmit nad sid payload m = (err, m1)" by fastforce
  show ?thesis
  proof (cases err)
    case None
    define ctx where "ctx = WithTimeout (Clock env d) Background timeout"
    obtain m2 where wait: "waitForResponseWithContext env ctx (sid + 0x40) nad m1 d = Some (r, m2, d')"
      using assms(1) by (auto simp: request_def tr None waitForResponse_def ctx_def split: option.splits)
    have "ctx_deadline ctx = Some (Clock env d + timeout)"
      by (simp add: ctx_def WithTimeout_def Background_def)
    moreover have "in_time (Clock env d + max 0 timeout + step) (m1, d)"
      using assms(2-4) Transmit_role [of m nad sid payload] by (simp add: in_time_def same_role_def tr)
    ultimately show ?thesis
      using wait_brief [OF _ wait, of _ "Clock env d + max 0 timeout + step"] by (simp add: in_time_def)
  next
    case (Some e)
    then show ?thesis using assms by (auto simp: request_def tr)
  qed
qed

lemma await_uds_brief:
  assumes "ctx_deadline ctx = Some x" and "\<exists>y \<le> x. ctx_deadline waitCtx = Some y"
    and "await_uds env p2star ctx waitCtx nad sid t d = Some (r, t', d')" and "in_time b (t, d)"
    and "x + step \<le> b"
  shows "in_time b (t', d')"
proof -
  have "in_time b (snd res)"
    if "await_uds e p2star ctx waitCtx nad sid t d = Some res" "e = env" "ctx_deadline ctx = Some x"
      "\<exists>y \<le> x. ctx_deadline waitCtx = Some y" "in_time b (t, d)" for e res
    using that
  proof (induction rule: await_uds.raw_induct [rotated, consumes 1, case_names step])
    case (step wait e p2star ctx waitCtx nad sid t d res)
    obtain y where y: "ctx_deadline waitCtx = Some y" "y + step \<le> b" using step.prems assms(5) by auto
    show ?case
    proof (cases "ReceiveBlocking env waitCtx t d")
      case None
      then show ?thesis using step.hyps step.prems by (simp add: ReceiveDiagnosticWithContext_def)
    next
      case (Some z)
      obtain a t1 d1 where z: "z = (a, t1, d1)" by (cases z)
      have "in_time b (t1, d1)"
        using ReceiveBlocking_brief [OF y(1) Some [unfolded z] step.prems(4) y(2)] .
      then show ?thesis
        using step.IH [OF _ refl step.prems(2), of p2star _ nad sid t1 d1 res] step.hyps step.prems
          responseWaitContext_deadline [OF step.prems(2), of "Clock env d1" p2star]
        by (cases a) (auto simp: Some z ReceiveDiagnosticWithContext_def Let_def split: if_splits option.splits)
    qed
  qed
  with assms show ?thesis by fastforce
qed

lemma uds_request_brief:
  assumes "SendAndRecWithContext env ctx payload c d = Some (r, c', d')" and "ctx_deadline ctx = Some x"
    and "\<not> t_isSlave (c_master c)" and "steady d" and "0 \<le> step"
  shows "Clock env d' \<le> max (Clock env d) x + step"
proof -
  let ?b = "max (Clock env d) x + step"
  obtain err m where send: "SendDiagnostic (TargetNad (c_config c)) (payload ! 0) (drop 1 payload) (drain (c_master c)) = (err, m)"
    by fastforce
  have "same_role (c_master c) (drain (c_master c))" by (rule drain_role)
  then have "in_time ?b (m, d)"
    using assms Transmit_role [of "drain (c_master c)" "TargetNad (c_config c)" "payload ! 0" "drop 1 payload"] send
    by (simp add: in_time_def same_role_def SendDiagnostic_def)
  then show ?thesis
    using assms(1,3-5) await_uds_brief [OF assms(2) responseWaitContext_deadline [OF assms(2)], where t = m and d = d and b = ?b]
    by (auto simp: SendAndRecWithContext_def sendAndRec_def send [simplified] in_time_def Let_def
        split: if_splits option.splits)
qed

end

interpretation world_timely: timely_env world_env "\<lambda>w. turn_time w = T" T for T
proof
  show "Clock world_env d' \<le> Clock world_env d + T \<and> \<not> t_isSlave t' \<and> turn_time d' = T"
    if "Turn world_env t d = Some (t', d')" "\<not> t_isSlave t" "turn_time d = T" for t d t' d'
    using world_turn_brief [of t d t' d'] that by (simp add: world_env_def)
qed

lemma turn_time_nonneg: "0 \<le> turn_time w"
  by (auto simp: turn_time_def slaves_time_def cycle_time_def intro!: add_nonneg_nonneg sum_list_nonneg)

lemma world_request_in_time:
  assumes "\<not> t_isSlave m" and "request world_env nad sid payload timeout m w = Some (r, m', w')"
  shows "n_now (w_net w') \<le> n_now (w_net w) + max 0 timeout + turn_time w"
  using world_timely.request_brief [OF assms(2,1) refl turn_time_nonneg] by (simp add: world_env_def)

lemma world_reads_in_time:
  assumes "\<not> t_isSlave m"
  shows "\<exists>r m' w'. ReadByIdentifier world_env identifier supplierID functionID nad timeout m w = Some (r, m', w') \<and>
    n_now (w_net w') \<le> n_now (w_net w) + max 0 timeout + turn_time w"
proof -
  obtain r m' w' where "ReadByIdentifier world_env identifier supplierID functionID nad timeout m w = Some (r, m', w')"
    using world.ReadByIdentifier_returns by (metis prod_cases3)
  moreover from this have "n_now (w_net w') \<le> n_now (w_net w) + max 0 timeout + turn_time w"
    using world_request_in_time [OF assms]
    by (auto simp: ReadByIdentifier_def split: option.splits sum.splits prod.splits)
  ultimately show ?thesis by blast
qed

lemma world_assigns_in_time:
  assumes "\<not> t_isSlave m"
  shows "\<exists>r m' w'. AssignSlaveNad world_env newNad supplierID functionID nad timeout m w = Some (r, m', w') \<and>
    n_now (w_net w') \<le> n_now (w_net w) + max 0 timeout + turn_time w"
proof -
  obtain r m' w' where "AssignSlaveNad world_env newNad supplierID functionID nad timeout m w = Some (r, m', w')"
    using world.AssignSlaveNad_returns by (metis prod_cases3)
  moreover from this have "n_now (w_net w') \<le> n_now (w_net w) + max 0 timeout + turn_time w"
    using world_request_in_time [OF assms]
    by (auto simp: AssignSlaveNad_def Let_def split: option.splits sum.splits prod.splits)
  ultimately show ?thesis by blast
qed

lemma world_uds_in_time:
  assumes "\<not> t_isSlave (c_master c)"
  shows "\<exists>r c' w'. SendAndRecWithContext world_env (ctx\<lparr>ctx_deadline := Some deadline\<rparr>) payload c w = Some (r, c', w') \<and>
    n_now (w_net w') \<le> max (n_now (w_net w)) deadline + turn_time w"
proof -
  let ?ctx = "ctx\<lparr>ctx_deadline := Some deadline\<rparr>"
  obtain r c' w' where r: "SendAndRecWithContext world_env ?ctx payload c w = Some (r, c', w')"
    using world.SendAndRecWithContext_returns [of ?ctx deadline payload c w] by auto
  then have "n_now (w_net w') \<le> max (n_now (w_net w)) deadline + turn_time w"
    using world_timely.uds_request_brief [OF r _ assms refl turn_time_nonneg] by (simp add: world_env_def)
  with r show ?thesis by blast
qed

text \<open>
  C7: In a system of a master, any number of slaves and the simulated network every request of the
  master returns, and in time: whatever the states of the master's transport, of the slaves and of
  the bus, \<open>ReadByIdentifier\<close> and \<open>AssignSlaveNad\<close> end with a response or an error at most one turn of
  the world after their timeout (the read timeouts of the slaves and the poll interval), and a UDS
  request whose context has a deadline at most one turn after that deadline. Neither other traffic
  nor a slave that answers \<^emph>\<open>response pending\<close> for ever extends the wait.
\<close>

theorem requests_in_time:
  assumes "\<not> t_isSlave m" and "\<not> t_isSlave (c_master c)"
  shows "(\<exists>r m' w'. ReadByIdentifier world_env ident supplierID functionID nad timeout m w = Some (r, m', w') \<and>
      n_now (w_net w') \<le> n_now (w_net w) + max 0 timeout + turn_time w) \<and>
    (\<exists>r m' w'. AssignSlaveNad world_env newNad supplierID functionID nad timeout m w = Some (r, m', w') \<and>
      n_now (w_net w') \<le> n_now (w_net w) + max 0 timeout + turn_time w) \<and>
    (\<exists>r c' w'. SendAndRecWithContext world_env (ctx\<lparr>ctx_deadline := Some deadline\<rparr>) payload c w = Some (r, c', w') \<and>
      n_now (w_net w') \<le> max (n_now (w_net w)) deadline + turn_time w)"
  by (intro conjI world_reads_in_time world_assigns_in_time world_uds_in_time assms)

text \<open>A new master, UDS client and slave: one turn takes at most the two intervals of 10 ms.\<close>

theorem requests_in_time_witness:
  "\<exists>r m' w'. ReadByIdentifier world_env 0 0x7FFF 0xFFFF 0x11 (1 * Second) (NewMaster [])
      (one_slave_world (NewSlave 0x10 3 0x1234 0x5678 None [])) = Some (r, m', w') \<and>
    n_now (w_net w') \<le> 1 * Second + 20 * Millisecond"
proof -
  have "\<not> t_isSlave (NewMaster [])" "\<not> t_isSlave (c_master (NewClient 0x11))"
    by (simp_all add: NewMaster_def NewClient_def NewClientWithConfig_def NewMasterWithConfig_def
        NewTransport_def Run_def Let_def)
  moreover have "turn_time (one_slave_world (NewSlave 0x10 3 0x1234 0x5678 None [])) = 20 * Millisecond"
    "n_now (w_net (one_slave_world (NewSlave 0x10 3 0x1234 0x5678 None []))) = 0"
    by (simp_all add: turn_time_def slaves_time_def cycle_time_def one_slave_world_def NewSlave_def
        transport_run sim_run Let_def)
  ultimately show ?thesis
    using requests_in_time [where m = "NewMaster []" and c = "NewClient 0x11" and ident = 0 and
        supplierID = "0x7FFF" and functionID = "0xFFFF" and nad = "0x11" and timeout = "1 * Second" and
        w = "one_slave_world (NewSlave 0x10 3 0x1234 0x5678 None [])"] by simp
qed

end
