(* ===== verification/System_Schedule.thy ===== *)
theory System_Schedule
  imports System "HOL-Library.Sublist"
begin

section \<open>A request under any interleaving of the loops\<close>

text \<open>
  \<open>world_turn\<close> of \<open>System\<close> runs the loops of the master and of the slaves in one fixed order. Here
  the order is a parameter: a plan, a list of the cycles of either loop and of pauses, in
  any interleaving and of any length. A cycle of the master's goroutine starts on a wake signal or on its
  timer (\<open>trigger\<close>); a cycle of a slave is one \<open>simulate\<close>. A cycle runs as a whole. When the plan is
  over only time passes. Which ready case the \<^verbatim>\<open>select\<close> of the waiting caller takes is a parameter as well.
\<close>

datatype loop_step =
    MasterCycle trigger
  | SlaveCycle
  | Pause nat

definition world_step :: "loop_step \<Rightarrow> Transport \<Rightarrow> World \<Rightarrow> (Transport \<times> World) option" where
  "world_step a t w =
     (case a of
        MasterCycle trigger \<Rightarrow> goroutine_turn master_driver (\<lambda>w. n_now (w_net w)) trigger t w
      | SlaveCycle \<Rightarrow>
          (case slaves_turn 0 (w_slaves w) (w_net w) of
             None \<Rightarrow> None
           | Some (ss, n) \<Rightarrow> Some (t, w\<lparr>w_slaves := ss, w_net := n\<rparr>))
      | Pause n \<Rightarrow> Some (t, w\<lparr>w_net := (w_net w)\<lparr>n_now := n_now (w_net w) + int n\<rparr>\<rparr>))"

fun plan_turn :: "Transport \<Rightarrow> World \<times> loop_step list \<Rightarrow> (Transport \<times> World \<times> loop_step list) option" where
  "plan_turn t (w, []) = map_option (\<lambda>(t, w). (t, w, [])) (world_step (Pause 1) t w)"
| "plan_turn t (w, a # plan) = map_option (\<lambda>(t, w). (t, w, plan)) (world_step a t w)"

definition plan_env :: "(World \<times> loop_step list \<Rightarrow> nat) \<Rightarrow> (World \<times> loop_step list) Env" where
  "plan_env pick = \<lparr>Clock = \<lambda>(w, plan). n_now (w_net w), Pick = pick, Turn = plan_turn\<rparr>"

text \<open>A cycle of the slave waits for its read timeout; a master with work to do does not wait.\<close>

fun step_time :: "loop_step \<Rightarrow> int" where
  "step_time (MasterCycle trigger) = 0"
| "step_time SlaveCycle = 10 * Millisecond"
| "step_time (Pause n) = int n"

definition plan_time :: "loop_step list \<Rightarrow> int" where
  "plan_time plan = sum_list (map step_time plan)"

lemma step_time_nonneg [simp]: "0 \<le> step_time a"
  by (cases a) simp_all

lemma plan_time_simps [simp]:
  "plan_time [] = 0" "plan_time (a # plan) = step_time a + plan_time plan" "0 \<le> plan_time plan"
  by (simp_all add: plan_time_def) (rule sum_list_nonneg, auto)

text \<open>Whose cycle a step is, and the cycles that a request and its answer take.\<close>

datatype party = Requester | Responder

fun party_of :: "loop_step \<Rightarrow> party option" where
  "party_of (MasterCycle trigger) = Some Requester"
| "party_of SlaveCycle = Some Responder"
| "party_of (Pause n) = None"

definition cycles :: "loop_step list \<Rightarrow> party list" where
  "cycles plan = List.map_filter party_of plan"

lemma cycles_simps [simp]:
  "cycles [] = []" "cycles (MasterCycle trigger # plan) = Requester # cycles plan"
  "cycles (SlaveCycle # plan) = Responder # cycles plan" "cycles (Pause n # plan) = cycles plan"
  by (simp_all add: cycles_def map_filter_simps)

definition exchange :: "party list" where
  "exchange = [Requester, Responder, Responder, Requester, Requester]"

subsection \<open>The stages of an exchange\<close>

text \<open>
  The states of the system during an exchange of the single frames \<open>req\<close> and \<open>resp\<close>, but for the wake
  signals (\<open>wk\<close>), the queues not yet created (\<open>mf\<close>, \<open>sf\<close>) and the time stamps.
\<close>

definition master_at :: "LinEvent list \<Rightarrow> LinMessage list \<Rightarrow> unit chan \<Rightarrow> Transport" where
  "master_at tx rx wk = (NewMaster [])\<lparr>t_txQueue := (t_txQueue (NewMaster []))\<lparr>chan_buf := tx\<rparr>,
     t_rxQueue := (t_rxQueue (NewMaster []))\<lparr>chan_buf := rx\<rparr>, t_awaitingSlaveResponse := True, t_wake := wk\<rparr>"

definition responder_at :: "LinEvent list \<Rightarrow> LinMessage list \<Rightarrow> LinEvent option \<Rightarrow> unit chan \<Rightarrow> Transport" where
  "responder_at tx rx scheduled wk = (NewTransport True [])\<lparr>
     t_txQueue := (t_txQueue (NewTransport True []))\<lparr>chan_buf := tx\<rparr>,
     t_rxQueue := (t_rxQueue (NewTransport True []))\<lparr>chan_buf := rx\<rparr>,
     t_scheduledTxEvent := scheduled, t_wake := wk\<rparr>"

definition slave_at :: "LinSlave \<Rightarrow> LinEvent list \<Rightarrow> LinEvent option \<Rightarrow> unit chan \<Rightarrow> LinSlave" where
  "slave_at s tx scheduled wk = s\<lparr>s_transport := responder_at tx [] scheduled wk\<rparr>"

definition holding :: "LinEvent list \<Rightarrow> Channel \<Rightarrow> LinEvent chan option" where
  "holding es = [0 \<mapsto> (make_chan 20)\<lparr>chan_buf := es\<rparr>]"

definition queue_of :: "LinEvent list \<Rightarrow> (Channel \<Rightarrow> LinEvent chan option) set" where
  "queue_of es = {holding es} \<union> (if es = [] then {Map.empty} else {})"

definition net_at ::
    "int \<Rightarrow> (Channel \<Rightarrow> LinEvent chan option) \<Rightarrow> (Channel \<Rightarrow> LinEvent chan option) \<Rightarrow> LinEvent option \<Rightarrow>
     SimulatedLinNetwork" where
  "net_at now mf sf resp =
     \<lparr>n_slaveResponses = (\<lambda>_. None)((0, SlaveDiagnosticFrameID) := resp),
      n_masterDriver = Some \<lparr>d_isSlave = False, d_eventQueues = mf\<rparr>,
      n_slaveDrivers = [\<lparr>d_isSlave = True, d_eventQueues = sf\<rparr>], n_now = now\<rparr>"

definition bus_at ::
    "int \<Rightarrow> (Channel \<Rightarrow> LinEvent chan option) \<Rightarrow> (Channel \<Rightarrow> LinEvent chan option) \<Rightarrow> LinEvent option \<Rightarrow>
     LinSlave \<Rightarrow> World" where
  "bus_at now mf sf resp s = \<lparr>w_net = net_at now mf sf resp, w_slaves = [s]\<rparr>"

lemma bus_at_sel [simp]:
  "w_net (bus_at now mf sf resp s) = net_at now mf sf resp" "w_slaves (bus_at now mf sf resp s) = [s]"
  "n_now (net_at now mf sf resp) = now"
  "(bus_at now mf sf resp s)\<lparr>w_net := (net_at now mf sf resp)\<lparr>n_now := x\<rparr>\<rparr> = bus_at x mf sf resp s"
  "(bus_at now mf sf resp s)\<lparr>w_slaves := [s2], w_net := net_at now2 mf2 sf2 resp2\<rparr> = bus_at now2 mf2 sf2 resp2 s2"
  by (simp_all add: bus_at_def net_at_def)

lemma queue_of_holding [simp]: "holding es \<in> queue_of es"
  by (simp add: queue_of_def)

lemmas net_ops = master_driver_def on_net_def sim_run bus_at_def net_at_def queue_of_def holding_def make_chan_def
  try_recv.simps try_send_def Let_def

text \<open>What the operations of the two drivers do on these states.\<close>

lemma master_reads:
  "mf \<in> queue_of [] \<Longrightarrow> ReadEvent master_driver 0 0 (bus_at now mf sf resp s) =
     Some (Inr None, bus_at now (holding []) sf resp s)"
  "mf \<in> queue_of (e # es) \<Longrightarrow> ReadEvent master_driver 0 0 (bus_at now mf sf resp s) =
     Some (Inr (Some e), bus_at now (holding es) sf resp s)"
  by (auto simp: net_ops)

lemma master_writes:
  "sf \<in> queue_of [] \<Longrightarrow> WriteMessage master_driver (Some e) 0 (bus_at now (holding []) sf resp s) =
     (None, bus_at now (holding [stamped TX now (e\<lparr>ev_Channel := 0\<rparr>)]) (holding [stamped RX now (e\<lparr>ev_Channel := 0\<rparr>)]) resp s)"
  by (auto simp: net_ops)

lemma master_requests:
  "RequestSlaveResponse master_driver SlaveDiagnosticFrameID 0 (bus_at now mf sf None s) = (None, bus_at now mf sf None s)"
  "sf \<in> queue_of [] \<Longrightarrow> ev_Channel e = 0 \<Longrightarrow>
   RequestSlaveResponse master_driver SlaveDiagnosticFrameID 0 (bus_at now (holding []) sf (Some e) s) =
     (None, bus_at now (holding [stamped RX now e]) (holding [stamped TX now e]) None s)"
  by (auto simp: net_ops)

lemma slave_reads:
  "sf \<in> queue_of [] \<Longrightarrow> 0 < timeout \<Longrightarrow> sim_ReadEvent (SlaveNode 0) timeout 0 (net_at now mf sf resp) =
     (Inr None, net_at (now + timeout) mf (holding []) resp)"
  "sf \<in> queue_of (e # es) \<Longrightarrow> sim_ReadEvent (SlaveNode 0) timeout 0 (net_at now mf sf resp) =
     (Inr (Some e), net_at now mf (holding es) resp)"
  by (auto simp: net_ops)

lemma slave_schedules:
  "EventID e = SlaveDiagnosticFrameID \<Longrightarrow> sim_ScheduleSlaveResponse (SlaveNode 0) (Some e) 0 (net_at now mf sf resp) =
     (None, net_at now mf sf (Some (e\<lparr>ev_Channel := 0\<rparr>)))"
  by (auto simp: net_ops)

text \<open>A message in a single frame, as the master and the slave send it.\<close>

definition request_frame :: "LinMessage \<Rightarrow> LinEvent" where
  "request_frame m = diagnosticEvent (NewMaster []) MasterDiagnosticFrameID (payloadSF (NAD m) (SID m) (Data m))"

definition response_frame :: "LinMessage \<Rightarrow> LinEvent" where
  "response_frame m = diagnosticEvent (NewMaster []) SlaveDiagnosticFrameID (payloadSF (NAD m) (SID m) (Data m))"

text \<open>
  0: the request is queued; 1: it is on the bus, and the master may have its echo to read; 2: the slave
  has handled it and queued the response; 3: the response is scheduled; 4: it is on the bus, and
  the slave may have its echo to read; 5: the master has received it. \<open>s\<close> and \<open>s'\<close> are the slave
  before and after it handles the request.
\<close>

definition echoes :: "LinMessage \<Rightarrow> (Channel \<Rightarrow> LinEvent chan option) set" where
  "echoes m = queue_of [] \<union> (\<Union>ts. queue_of [stamped TX ts (request_frame m)])"

inductive stage :: "LinMessage \<Rightarrow> LinSlave \<Rightarrow> LinSlave \<Rightarrow> LinMessage \<Rightarrow> nat \<Rightarrow> Transport \<Rightarrow> World \<Rightarrow> bool"
  for m s s' r where
  queued: "mf \<in> queue_of [] \<Longrightarrow> sf \<in> queue_of [] \<Longrightarrow>
    stage m s s' r 0 (master_at [request_frame m] [] wk) (bus_at now mf sf None (slave_at s [] None wk2))"
| written: "mf \<in> echoes m \<Longrightarrow> sf \<in> queue_of [stamped RX ts (request_frame m)] \<Longrightarrow>
    stage m s s' r 1 (master_at [] [] wk) (bus_at now mf sf None (slave_at s [] None wk2))"
| handled: "mf \<in> echoes m \<Longrightarrow> sf \<in> queue_of [] \<Longrightarrow>
    stage m s s' r 2 (master_at [] [] wk) (bus_at now mf sf None (slave_at s' [response_frame r] None wk2))"
| scheduled: "mf \<in> echoes m \<Longrightarrow> sf \<in> queue_of [] \<Longrightarrow>
    stage m s s' r 3 (master_at [] [] wk)
      (bus_at now mf sf (Some (response_frame r)) (slave_at s' [] (Some (response_frame r)) wk2))"
| answered: "mf \<in> queue_of [stamped RX ts (response_frame r)] \<Longrightarrow>
    sched = Some (response_frame r) \<and> sf \<in> queue_of [stamped TX ts (response_frame r)] \<or>
      sched = None \<and> sf \<in> queue_of [] \<Longrightarrow>
    stage m s s' r 4 (master_at [] [] wk) (bus_at now mf sf None (slave_at s' [] sched wk2))"
| received: "stage m s s' r 5 (master_at [] [r] wk) w"

lemma in_echoes: "holding [stamped TX ts (request_frame m)] \<in> echoes m" "holding [] \<in> echoes m"
  unfolding echoes_def using queue_of_holding by blast+

lemma pause_stage:
  "stage m s s' r k t w \<Longrightarrow> stage m s s' r k t (w\<lparr>w_net := (w_net w)\<lparr>n_now := x\<rparr>\<rparr>)"
  by (erule stage.cases; simp only: bus_at_sel; rule stage.intros; assumption?)

lemma frame_sel [simp]:
  "ev_Channel (request_frame m) = 0" "EventID (request_frame m) = MasterDiagnosticFrameID"
  "ev_Channel (response_frame m) = 0" "EventID (response_frame m) = SlaveDiagnosticFrameID"
  "(request_frame m)\<lparr>ev_Channel := 0\<rparr> = request_frame m" "(response_frame m)\<lparr>ev_Channel := 0\<rparr> = response_frame m"
  by (simp_all add: request_frame_def response_frame_def diagnosticEvent_def NewMaster_def transport_run)

lemma stamped_sel [simp]:
  "ev_Channel (stamped dir ts e) = ev_Channel e" "EventID (stamped dir ts e) = EventID e"
  "EventPayload (stamped dir ts e) = EventPayload e" "ev_Direction (stamped dir ts e) = dir"
  by (simp_all add: stamped_def)

subsection \<open>The transports at the stages\<close>

lemma master_at_sel [simp]:
  "t_isSlave (master_at tx rx wk) = False" "t_channel (master_at tx rx wk) = 0"
  "t_closed (master_at tx rx wk) = False" "t_done (master_at tx rx wk) = False"
  "t_awaitingSlaveResponse (master_at tx rx wk) = True"
  "chan_buf (t_txQueue (master_at tx rx wk)) = tx" "chan_buf (t_rxQueue (master_at tx rx wk)) = rx"
  "t_receiveErrors (master_at tx rx wk) = make_chan 16" "t_wake (master_at tx rx wk) = wk"
  "t_remainingBytes (master_at tx rx wk) = 0" "resetState (master_at tx rx wk) = master_at tx rx wk"
  "(master_at tx rx wk)\<lparr>t_wake := wk2\<rparr> = master_at tx rx wk2"
  "try_recv (t_txQueue (master_at (e # tx) rx wk)) = (t_txQueue (master_at tx rx wk), Received e)"
  "try_recv (t_txQueue (master_at [] rx wk)) = (t_txQueue (master_at [] rx wk), Empty)"
  "(master_at tx rx wk)\<lparr>t_txQueue := t_txQueue (master_at tx2 rx2 wk2)\<rparr> = master_at tx2 rx wk"
  "deliverMessage m (master_at tx [] wk) = master_at tx [m] wk"
  by (simp_all add: master_at_def NewMaster_def transport_run)

lemma single_frame_received:
  assumes "length (Data m) \<le> 5" and "EventPayload e = payloadSF (NAD m) (SID m) (Data m)" and "ev_Direction e = RX"
    and "isMasterReceiving e t \<or> isSlaveReceiving e t"
  shows "receiveDiagnostic now e t = (True, deliverMessage m (resetState t))"
proof -
  let ?p = "payloadSF (NAD m) (SID m) (Data m)"
  note f = payloadSF_simps [OF assms(1), of "NAD m" "SID m"] payloadSF_pci [OF assms(1), of "NAD m" "SID m"]
  have "receiveSF ?p t = (True, deliverMessage m (resetState t))"
    unfolding receiveSF_def Let_def f(1,2,4) f(7) using f(5) assms(1) by (cases m) simp
  moreover have "?p \<noteq> []" using f(1) by auto
  ultimately show ?thesis using assms(2-4) f(1,6) by (simp add: receiveDiagnostic_def Let_def)
qed

lemma responder_at_sel [simp]:
  "t_isSlave (responder_at tx rx sched wk) = True" "t_channel (responder_at tx rx sched wk) = 0"
  "t_closed (responder_at tx rx sched wk) = False" "t_remainingBytes (responder_at tx rx sched wk) = 0"
  "ReadTimeout (t_config (responder_at tx rx sched wk)) = 10 * Millisecond"
  "t_scheduledTxEvent (responder_at tx rx sched wk) = sched"
  "resetState (responder_at tx rx sched wk) = responder_at tx rx sched wk"
  "(responder_at tx rx sched wk)\<lparr>t_scheduledTxEvent := sched2\<rparr> = responder_at tx rx sched2 wk"
  "try_recv (t_txQueue (responder_at (e # tx) rx sched wk)) = (t_txQueue (responder_at tx rx sched wk), Received e)"
  "try_recv (t_txQueue (responder_at [] rx sched wk)) = (t_txQueue (responder_at [] rx sched wk), Empty)"
  "(responder_at tx rx sched wk)\<lparr>t_txQueue := t_txQueue (responder_at tx2 rx2 sched2 wk2)\<rparr> = responder_at tx2 rx sched wk"
  "deliverMessage m (responder_at tx [] sched wk) = responder_at tx [m] sched wk"
  "Receive (responder_at tx [] sched wk) = (None, responder_at tx [] sched wk)"
  "Receive (responder_at tx [m] sched wk) = (Some m, responder_at tx [] sched wk)"
  by (simp_all add: responder_at_def transport_run)

lemma slave_at_sel [simp]:
  "s_transport (slave_at s tx sched wk) = responder_at tx [] sched wk"
  "(slave_at s tx sched wk)\<lparr>s_transport := responder_at tx2 [] sched2 wk2\<rparr> = slave_at s tx2 sched2 wk2"
  by (simp_all add: slave_at_def)

lemmas cycle_run = execute_def checkMultiFrameTimeout_def chan_len_def shouldRequestSlaveResponse_def read_events.simps
  master_send_def slave_send_def receiveFromDriver_def Let_def

lemma cycle_clock [simp]: "(\<lambda>w. n_now (w_net w)) (bus_at now mf sf resp s) = now"
  by simp

text \<open>The cycles of the master.\<close>

lemma master_cycle:
  assumes "execute master_driver (\<lambda>w. n_now (w_net w)) (master_at tx [] (if trigger = Wake then fst (try_recv wk) else wk)) w =
    Some (None, t', w')"
  shows "world_step (MasterCycle trigger) (master_at tx [] wk) w = Some (t', w')"
  using assms by (simp add: world_step_def goroutine_turn_def reportError_def split: if_splits)

lemma requester_writes:
  assumes "mf \<in> queue_of []" "sf \<in> queue_of []"
  shows "execute master_driver (\<lambda>w. n_now (w_net w)) (master_at [request_frame m] [] wk) (bus_at now mf sf resp s) =
    Some (None, master_at [] [] wk,
      bus_at now (holding [stamped TX now (request_frame m)]) (holding [stamped RX now (request_frame m)]) resp s)"
  using assms by (simp add: cycle_run master_reads master_writes)

lemma requester_polls:
  assumes "mf \<in> echoes m"
  shows "execute master_driver (\<lambda>w. n_now (w_net w)) (master_at [] [] wk) (bus_at now mf sf None s) =
      Some (None, master_at [] [] wk, bus_at now (holding []) sf None s)"
    and "sf \<in> queue_of [] \<Longrightarrow>
      execute master_driver (\<lambda>w. n_now (w_net w)) (master_at [] [] wk) (bus_at now mf sf (Some (response_frame r)) s) =
      Some (None, master_at [] [] wk,
        bus_at now (holding [stamped RX now (response_frame r)]) (holding [stamped TX now (response_frame r)]) None s)"
  using assms
  by (auto simp: echoes_def cycle_run master_reads master_requests receiveDiagnostic_def)

lemma requester_receives:
  assumes "mf \<in> queue_of [stamped RX ts (response_frame r)]" and "length (Data r) \<le> 5"
  shows "execute master_driver (\<lambda>w. n_now (w_net w)) (master_at [] [] wk) (bus_at now mf sf resp s) =
    Some (None, master_at [] [r] wk, bus_at now (holding []) sf resp s)"
proof -
  have "receiveDiagnostic now (stamped RX ts (response_frame r)) (master_at [] [] wk) = (True, master_at [] [r] wk)"
    using single_frame_received [OF assms(2), of "stamped RX ts (response_frame r)" "master_at [] [] wk"]
    by (simp add: isMasterReceiving_def) (simp add: response_frame_def diagnosticEvent_def)
  then show ?thesis using assms(1) by (simp add: cycle_run master_reads)
qed

text \<open>The cycles of the slave.\<close>

lemma responder_waits:
  assumes "sf \<in> queue_of []" and "tx = [] \<or> sched \<noteq> None"
  shows "slaves_turn 0 [slave_at s tx sched wk] (net_at now mf sf resp) =
    Some ([slave_at s tx sched wk], net_at (now + 10 * Millisecond) mf (holding []) resp)"
  using assms by (auto simp: simulate_def cycle_run slave_reads)

lemma responder_schedules:
  assumes "sf \<in> queue_of []"
  shows "slaves_turn 0 [slave_at s [response_frame r] None wk] (net_at now mf sf resp) =
    Some ([slave_at s [] (Some (response_frame r)) wk],
      net_at (now + 10 * Millisecond) mf (holding []) (Some (response_frame r)))"
  using assms by (simp add: simulate_def cycle_run slave_reads slave_schedules)

lemma responder_confirms:
  assumes "sf \<in> queue_of [stamped TX ts (response_frame r)]"
  shows "slaves_turn 0 [slave_at s [] (Some (response_frame r)) wk] (net_at now mf sf resp) =
    Some ([slave_at s [] None wk], net_at (now + 10 * Millisecond) mf (holding []) resp)"
  using assms by (simp add: simulate_def cycle_run slave_reads)

lemma responder_handles:
  assumes "sf \<in> queue_of [stamped RX ts (request_frame m)]" and "length (Data m) \<le> 5"
    and "handle_message m (slave_at s [] None wk) = slave_at s' [response_frame r] None wk2"
  shows "slaves_turn 0 [slave_at s [] None wk] (net_at now mf sf resp) =
    Some ([slave_at s' [response_frame r] None wk2], net_at (now + 10 * Millisecond) mf (holding []) resp)"
proof -
  have "receiveDiagnostic now (stamped RX ts (request_frame m)) (responder_at [] [] None wk) = (True, responder_at [] [m] None wk)"
    using single_frame_received [OF assms(2), of "stamped RX ts (request_frame m)" "responder_at [] [] None wk"]
    by (simp add: isSlaveReceiving_def) (simp add: request_frame_def diagnosticEvent_def)
  then show ?thesis using assms(1,3) by (simp add: simulate_def cycle_run slave_reads slave_at_def)
qed

subsection \<open>Every plan makes the exchange progress\<close>

definition answers :: "LinSlave \<Rightarrow> LinMessage \<Rightarrow> LinSlave \<Rightarrow> LinMessage \<Rightarrow> bool" where
  "answers s m s' r \<longleftrightarrow> length (Data m) \<le> 5 \<and> length (Data r) \<le> 5 \<and>
     (\<forall>wk. \<exists>wk2. handle_message m (slave_at s [] None wk) = slave_at s' [response_frame r] None wk2)"

lemma master_stage_step:
  assumes "stage m s s' r k t w" and "k < 5" and "answers s m s' r"
  shows "\<exists>t' w'. world_step (MasterCycle trigger) t w = Some (t', w') \<and> n_now (w_net w') = n_now (w_net w) \<and>
    stage m s s' r (if exchange ! k = Requester then Suc k else k) t' w'"
proof -
  have step: "?thesis" if "t = master_at tx [] wk" "w = bus_at now mf sf resp s0"
    "execute master_driver (\<lambda>w. n_now (w_net w)) (master_at tx [] wk3) (bus_at now mf sf resp s0) =
      Some (None, master_at tx2 rx2 wk3, bus_at now mf2 sf2 resp2 s1)"
    "wk3 = (if trigger = Wake then fst (try_recv wk) else wk)"
    "stage m s s' r k2 (master_at tx2 rx2 wk3) (bus_at now mf2 sf2 resp2 s1)"
    "k2 = (if exchange ! k = Requester then Suc k else k)"
    for wk3 tx wk now mf sf resp s0 tx2 rx2 mf2 sf2 resp2 s1 k2
    using master_cycle that by auto
  show ?thesis
    using assms(1)
  proof cases
    case (queued mf sf wk now wk2)
    show ?thesis
      by (rule step [OF queued(2,3) requester_writes [OF queued(4,5)] refl
            stage.written [OF in_echoes(1) queue_of_holding]])
        (simp add: queued(1) exchange_def)
  next
    case (written mf sf ts wk now wk2)
    show ?thesis
      by (rule step [OF written(2,3) requester_polls(1) [OF written(4)] refl
            stage.written [OF in_echoes(2) written(5)]])
        (simp add: written(1) exchange_def)
  next
    case (handled mf sf wk now wk2)
    show ?thesis
      by (rule step [OF handled(2,3) requester_polls(1) [OF handled(4)] refl stage.handled])
        (simp_all add: in_echoes handled(1,5) exchange_def)
  next
    case (scheduled mf sf wk now wk2)
    show ?thesis
      by (rule step [OF scheduled(2,3) requester_polls(2) [OF scheduled(4,5)] refl stage.answered])
        (rule queue_of_holding, simp_all add: scheduled(1) exchange_def)
  next
    case (answered mf ts sched sf wk now wk2)
    have "length (Data r) \<le> 5" using assms(3) by (simp add: answers_def)
    from requester_receives [OF answered(4) this] show ?thesis
      by (rule step [OF answered(2,3) _ refl stage.received]) (simp add: answered(1) exchange_def)
  next
    case (received wk)
    then show ?thesis using assms(2) by simp
  qed
qed

lemma slave_stage_step:
  assumes "stage m s s' r k t w" and "k < 5" and "answers s m s' r"
  shows "\<exists>w'. world_step SlaveCycle t w = Some (t, w') \<and> n_now (w_net w') = n_now (w_net w) + 10 * Millisecond \<and>
    stage m s s' r (if exchange ! k = Responder then Suc k else k) t w'"
proof -
  have step: "?thesis" if "w = bus_at now mf sf resp s0" "t = t2"
    "slaves_turn 0 [s0] (net_at now mf sf resp) = Some ([s1], net_at (now + 10 * Millisecond) mf2 sf2 resp2)"
    "stage m s s' r k2 t2 (bus_at (now + 10 * Millisecond) mf2 sf2 resp2 s1)"
    "k2 = (if exchange ! k = Responder then Suc k else k)"
    for now mf sf resp s0 s1 mf2 sf2 resp2 k2 t2
    using that by (simp add: world_step_def)
  show ?thesis
    using assms(1)
  proof cases
    case (queued mf sf wk now wk2)
    show ?thesis
      by (rule step [OF queued(3,2) responder_waits [OF queued(5)] stage.queued])
        (simp_all add: queued(1,4) exchange_def)
  next
    case (written mf sf ts wk now wk2)
    from assms(3) obtain wk3 where
      a: "length (Data m) \<le> 5" "handle_message m (slave_at s [] None wk2) = slave_at s' [response_frame r] None wk3"
      unfolding answers_def by blast
    show ?thesis
      by (rule step [OF written(3,2) responder_handles [OF written(5) a] stage.handled])
        (simp_all add: written(1,4) exchange_def)
  next
    case (handled mf sf wk now wk2)
    show ?thesis
      by (rule step [OF handled(3,2) responder_schedules [OF handled(5)] stage.scheduled])
        (simp_all add: handled(1,4) exchange_def)
  next
    case (scheduled mf sf wk now wk2)
    show ?thesis
      by (rule step [OF scheduled(3,2) responder_waits [OF scheduled(5)] stage.scheduled])
        (simp_all add: scheduled(1,4) exchange_def)
  next
    case (answered mf ts sched sf wk now wk2)
    show ?thesis
    proof (cases "sf \<in> queue_of []")
      case True
      with answered(5) have tx: "sched = None" by (auto simp: queue_of_def holding_def make_chan_def fun_eq_iff split: if_splits)
      show ?thesis
        by (rule step [OF answered(3,2) responder_waits [OF True] stage.answered [OF answered(4)]])
          (simp_all add: tx answered(1) exchange_def)
    next
      case False
      with answered(5) have sf: "sf \<in> queue_of [stamped TX ts (response_frame r)]" "sched = Some (response_frame r)" by auto
      show ?thesis
        by (rule step [OF answered(3) [unfolded sf(2)] answered(2) responder_confirms [OF sf(1)] stage.answered [OF answered(4)]])
          (simp_all add: answered(1) exchange_def)
    qed
  next
    case (received wk)
    then show ?thesis using assms(2) by simp
  qed
qed

lemma stage_step:
  assumes "stage m s s' r k t w" and "k < 5" and "answers s m s' r"
  shows "\<exists>t' w'. world_step a t w = Some (t', w') \<and> n_now (w_net w') = n_now (w_net w) + step_time a \<and>
    stage m s s' r (if party_of a = Some (exchange ! k) then Suc k else k) t' w'"
proof (cases a)
  case (MasterCycle trigger)
  with master_stage_step [OF assms, of trigger] show ?thesis by (auto split: if_splits)
next
  case SlaveCycle
  with slave_stage_step [OF assms] show ?thesis by (auto split: if_splits)
next
  case (Pause n)
  with pause_stage [OF assms(1), of "n_now (w_net w) + int n"] show ?thesis by (simp add: world_step_def)
qed

lemma stage_master: "stage m s s' r k t w \<Longrightarrow> k < 5 \<Longrightarrow> \<exists>tx wk. t = master_at tx [] wk"
  by (erule stage.cases) auto

text \<open>A plan that holds the cycles of the rest of the exchange brings the response to the waiting caller.\<close>

lemma exchange_received:
  assumes "stage m s s' r k t w" and "k \<le> 5" and "answers s m s' r"
    and "subseq (drop k exchange) (cycles plan)"
    and "\<And>now. now \<le> n_now (w_net w) + plan_time plan \<Longrightarrow> ctx_Err now ctx = None"
  shows "\<exists>wk x. ReceiveBlocking (plan_env pick) ctx t (w, plan @ rest) = Some (Inr r, master_at [] [] wk, x)"
  using assms(1,2,4,5)
proof (induction plan arbitrary: k t w)
  have now: "ctx_Err (n_now (w_net w)) ctx = None"
    if "\<And>now. now \<le> n_now (w_net w) + plan_time plan \<Longrightarrow> ctx_Err now ctx = None" for w plan
    using that [of "n_now (w_net w)"] by simp
  have done_5: "\<exists>wk x. ReceiveBlocking (plan_env pick) ctx t (w, plan) = Some (Inr r, master_at [] [] wk, x)"
    if "stage m s s' r 5 t w" "ctx_Err (n_now (w_net w)) ctx = None" for t w plan
  proof -
    from that(1) obtain wk where t: "t = master_at [] [r] wk" by cases simp_all
    have "receive_ready ctx (Clock (plan_env pick) (w, plan)) t = [(Inr r, master_at [] [] wk)]"
      using that(2) by (simp add: receive_ready_def t plan_env_def try_recv.simps) (simp add: master_at_def)
    then show ?thesis by (subst ReceiveBlocking.simps) auto
  qed
  {
    case Nil
    then have "length (drop k exchange) \<le> 0" using list_emb_length by fastforce
    with Nil.prems(2) have "k = 5" by (simp add: exchange_def)
    with Nil done_5 now show ?case by simp
  next
    case (Cons a plan)
    show ?case
    proof (cases "k = 5")
      case True
      with Cons.prems done_5 now show ?thesis by blast
    next
      case False
      then have k: "k < 5" using Cons.prems(2) by simp
      obtain t' w' where step: "world_step a t w = Some (t', w')" "n_now (w_net w') = n_now (w_net w) + step_time a"
        and st: "stage m s s' r (if party_of a = Some (exchange ! k) then Suc k else k) t' w'"
        using stage_step [OF Cons.prems(1) k assms(3), of a] by blast
      obtain tx wk where t: "t = master_at tx [] wk" using stage_master [OF Cons.prems(1) k] by blast
      have "ctx_Err (n_now (w_net w)) ctx = None" by (rule now [OF Cons.prems(4)])
      then have "receive_ready ctx (Clock (plan_env pick) (w, (a # plan) @ rest)) t = []"
        by (simp add: receive_ready_def t plan_env_def try_recv.simps)
      then have wait: "ReceiveBlocking (plan_env pick) ctx t (w, (a # plan) @ rest) =
          ReceiveBlocking (plan_env pick) ctx t' (w', plan @ rest)"
        by (subst ReceiveBlocking.simps) (simp add: plan_env_def step(1))
      have "drop k exchange = exchange ! k # drop (Suc k) exchange"
        using k by (intro Cons_nth_drop_Suc [symmetric]) (simp add: exchange_def)
      with Cons.prems(3) have "subseq (drop (if party_of a = Some (exchange ! k) then Suc k else k) exchange) (cycles plan)"
        by (cases a) (auto simp: subseq_Cons2_iff dest: subseq_Cons')
      then show ?thesis
        unfolding wait using Cons.IH [OF st] Cons.prems(4) k step(2) by (simp add: add.assoc)
    qed
  }
qed

subsection \<open>Reading the product identifier\<close>

lemma product_identifier_answered:
  assumes "reqSupplier = supplier \<or> reqSupplier = BroadcastSupplierID"
    and "reqFunction = function \<or> reqFunction = BroadcastFunctionID"
  shows "answers (NewSlave nad variant supplier function serial [])
    \<lparr>NAD = nad, SID = ReadByIdentifierSID,
     Data = DataIdentifierLinProductIdentifier # PutUint16 reqSupplier @ PutUint16 reqFunction\<rparr>
    (NewSlave nad variant supplier function serial [])
    \<lparr>NAD = nad, SID = ReadByIdentifierSID + 0x40, Data = PutUint16 supplier @ PutUint16 function @ [variant]\<rparr>"
  using assms
  by (auto simp: answers_def slave_run slave_at_def responder_at_def response_frame_def master_run transport_run Let_def PutUint16_def)

lemma request_stage:
  assumes "length (Data m) \<le> 5"
  shows "\<exists>t. Transmit (NAD m) (SID m) (Data m) (NewMaster []) = (None, t) \<and>
    stage m (NewSlave nad variant supplier function serial []) s' r 0 t
      (one_slave_world (NewSlave nad variant supplier function serial []))"
proof -
  let ?s = "NewSlave nad variant supplier function serial []"
  have "one_slave_world ?s = bus_at 0 Map.empty Map.empty None (slave_at ?s [] None (make_chan 1))"
    by (simp add: one_slave_world_def net_ops slave_at_def responder_at_def NewSlave_def transport_run)
  moreover have "Transmit (NAD m) (SID m) (Data m) (NewMaster []) =
      (None, master_at [request_frame m] [] (fst (try_send () (make_chan 1))))"
    using assms by (simp add: master_at_def request_frame_def NewMaster_def transport_run Let_def)
  ultimately show ?thesis
    using stage.queued [of Map.empty Map.empty] by (simp add: queue_of_def)
qed

text \<open>
  C11: Over the simulated bus, a master that asks for the product identifier of a slave gets exactly the
  slave's own identifiers, from the slave's address, however the loops of the two are
  interleaved: for every address, every identity, every way to name the slave (its own identifiers or
  the wildcards), and every plan, however long, that has, in this order and with any other
  cycles and pauses between them, a cycle of the master, two of the slave, and two more of the master
  before the timeout.
\<close>

theorem product_identifier_end_to_end:
  assumes "reqSupplier = supplier \<or> reqSupplier = BroadcastSupplierID"
    and "reqFunction = function \<or> reqFunction = BroadcastFunctionID"
    and "subseq [Requester, Responder, Responder, Requester, Requester] (cycles plan)"
    and "plan_time plan < timeout"
  shows "map_option fst (GetSlaveProductIdentifier (plan_env pick) reqSupplier reqFunction nad timeout (NewMaster [])
      (one_slave_world (NewSlave nad variant supplier function serial []), plan @ rest)) =
    Some (Inr (nad, supplier, function, variant))"
proof -
  let ?s = "NewSlave nad variant supplier function serial []"
  let ?data = "DataIdentifierLinProductIdentifier # PutUint16 reqSupplier @ PutUint16 reqFunction"
  let ?m = "\<lparr>NAD = nad, SID = ReadByIdentifierSID, Data = ?data\<rparr>"
  let ?r = "\<lparr>NAD = nad, SID = ReadByIdentifierSID + 0x40, Data = PutUint16 supplier @ PutUint16 function @ [variant]\<rparr>"
  obtain t where t: "Transmit nad ReadByIdentifierSID ?data (NewMaster []) = (None, t)"
    and st: "stage ?m ?s ?s ?r 0 t (one_slave_world ?s)"
    using request_stage [of ?m nad variant supplier "function" serial ?s ?r] by (auto simp: PutUint16_def)
  let ?ctx = "WithTimeout 0 Background timeout"
  have "\<exists>wk x. ReceiveBlocking (plan_env pick) ?ctx t (one_slave_world ?s, plan @ rest) = Some (Inr ?r, master_at [] [] wk, x)"
    using exchange_received [OF st _ product_identifier_answered [OF assms(1,2)], of plan ?ctx pick rest] assms(3,4)
    by (simp add: exchange_def one_slave_world_def net_ops WithTimeout_def Background_def ctx_Err_def)
  then obtain wk x where "ReceiveBlocking (plan_env pick) ?ctx t (one_slave_world ?s, plan @ rest) =
      Some (Inr ?r, master_at [] [] wk, x)" by blast
  moreover have "Clock (plan_env pick) (one_slave_world ?s, plan @ rest) = 0"
    by (simp add: plan_env_def one_slave_world_def net_ops)
  ultimately have "ReadByIdentifier (plan_env pick) DataIdentifierLinProductIdentifier reqSupplier reqFunction nad timeout
      (NewMaster []) (one_slave_world ?s, plan @ rest) =
    Some (Inr (nad, PutUint16 supplier @ PutUint16 function @ [variant]),
      StopAwaitingSlaveResponse (master_at [] [] wk), x)"
    unfolding ReadByIdentifier_def request_def Let_def t
    by (simp add: waitForResponse_def waitForResponseWithContext.simps)
  then show ?thesis by (simp add: GetSlaveProductIdentifier_def PutUint16_def)
qed

text \<open>The slave runs first, the master is woken up and polls early, and there are pauses.\<close>

theorem product_identifier_end_to_end_witness:
  "map_option fst (GetSlaveProductIdentifier (plan_env (\<lambda>_. 0)) 0x7FFF 0x5678 0x10 (1 * Second) (NewMaster [])
      (one_slave_world (NewSlave 0x10 3 0x1234 0x5678 None []),
       [SlaveCycle, MasterCycle Wake, MasterCycle Tick, Pause 300, SlaveCycle, MasterCycle Tick, SlaveCycle,
        MasterCycle Tick, SlaveCycle, MasterCycle Tick] @ [])) =
   Some (Inr (0x10, 0x1234, 0x5678, 3))"
  by (rule product_identifier_end_to_end) simp_all

end
