(* ===== verification/Transport_Starvation.thy ===== *)
theory Transport_Starvation
  imports Transport_Lifecycle
begin

section \<open>When the cycle of a slave does not end\<close>

text \<open>
  A slave reads its driver with the configured \<^verbatim>\<open>ReadTimeout\<close> until a read comes back empty, and
  handles every event before it sends. So a cycle ends unless the driver has an event for every
  read, or a read of the driver itself never returns: \<open>flooded\<close> is that condition, and the theorem says there is no other. The example is a bus
  with a frame of some other node every five milliseconds.
\<close>

coinductive flooded ::
    "'d Driver \<Rightarrow> ('d \<Rightarrow> int) \<Rightarrow> int \<Rightarrow> Transport \<Rightarrow> 'd \<Rightarrow> bool" for drv clock timeout where
  read_hangs: "ReadEvent drv timeout (t_channel t) d = None \<Longrightarrow> flooded drv clock timeout t d"
| read_event:
  "ReadEvent drv timeout (t_channel t) d = Some (Inr (Some ev), d1) \<Longrightarrow>
   receiveFromDriver drv clock ev t d1 = (complete, t2, d2) \<Longrightarrow>
   flooded drv clock timeout t2 d2 \<Longrightarrow> flooded drv clock timeout t d"

lemma flooded_iff:
  "flooded drv clock rt t d \<longleftrightarrow>
     ReadEvent drv rt (t_channel t) d = None \<or>
     (\<exists>ev d1. ReadEvent drv rt (t_channel t) d = Some (Inr (Some ev), d1) \<and>
        (case receiveFromDriver drv clock ev t d1 of (c, t2, d2) \<Rightarrow> flooded drv clock rt t2 d2))"
  by (subst flooded.simps) (fastforce split: prod.splits)

lemma flooded_never_returns:
  assumes "read_events drv clock rt b t d = Some res" shows "\<not> flooded drv clock rt t d"
proof -
  have "dr = drv \<longrightarrow> cl = clock \<longrightarrow> r = rt \<longrightarrow> \<not> flooded drv clock rt t d"
    if "read_events dr cl r b t d = Some res" for dr cl r b t d res
    using that
  proof (induction rule: read_events.raw_induct [rotated, consumes 1, case_names step])
    case (step rec dr cl r b t d res)
    show ?case
    proof (intro impI notI)
      assume eq: "dr = drv" "cl = clock" "r = rt" and "flooded drv clock rt t d"
      from this(4) obtain ev d1 c t2 d2
        where ev: "ReadEvent drv rt (t_channel t) d = Some (Inr (Some ev), d1)"
          and rcv: "receiveFromDriver drv clock ev t d1 = (c, t2, d2)"
          and fl: "flooded drv clock rt t2 d2"
        using step.hyps eq by (cases rule: flooded.cases) auto
      have "rec dr cl r (if c then True else b) t2 d2 = Some res"
        using step.hyps step.prems eq by (simp add: ev rcv)
      then show False using step.IH eq fl by blast
    qed
  qed
  with assms show ?thesis by blast
qed

lemma read_events_None: "read_events drv clock rt b t d = None \<longleftrightarrow> flooded drv clock rt t d"
proof
  assume "read_events drv clock rt b t d = None"
  then show "flooded drv clock rt t d"
  proof (coinduction arbitrary: b t d)
    case flooded
    show ?case
    proof (cases "ReadEvent drv rt (t_channel t) d")
      case (Some x)
      then obtain r d1 where r: "ReadEvent drv rt (t_channel t) d = Some (r, d1)" by (cases x) simp
      from flooded obtain ev where ev: "r = Inr (Some ev)"
        by (subst (asm) read_events.simps) (auto simp: r split: sum.splits option.splits)
      obtain c t2 d2 where rcv: "receiveFromDriver drv clock ev t d1 = (c, t2, d2)"
        by (cases "receiveFromDriver drv clock ev t d1") auto
      from flooded have "read_events drv clock rt (if c then True else b) t2 d2 = None"
        by (subst (asm) read_events.simps) (simp add: r ev rcv)
      with r ev rcv show ?thesis by blast
    qed blast
  qed
next
  assume "flooded drv clock rt t d"
  then show "read_events drv clock rt b t d = None"
    using flooded_never_returns [of drv clock rt b t d]
    by (cases "read_events drv clock rt b t d") blast+
qed

text \<open>
  C9: The cycle of an open slave fails to end exactly when its driver reports an event to every
  read of the loop, each within the read timeout (or a read of the driver itself never returns). Then the slave does not take a queued response
  to the driver, and a call of \<open>Close\<close>, which waits for the cycle, does not return.
\<close>

theorem slave_starves:
  assumes "t_isSlave t" and "\<not> t_closed t"
  shows "execute drv clock t d = None \<longleftrightarrow>
    flooded drv clock (ReadTimeout (t_config t)) (checkMultiFrameTimeout (clock d) t) d"
  using assms read_events_None [of drv clock "ReadTimeout (t_config t)" False "checkMultiFrameTimeout (clock d) t" d]
  by (auto simp: execute_def Let_def split: option.splits)

definition busy_driver :: "int Driver" where
  "busy_driver =
     \<lparr>ReadEvent = \<lambda>timeout c d.
        if 5 * Millisecond \<le> timeout then Some (Inr (Some (rx_event 0x10 [1, 2])), d + 5 * Millisecond)
        else Some (Inr None, d + max 0 timeout),
      WriteMessage = \<lambda>e c d. (None, d),
      ScheduleSlaveResponse = \<lambda>e c d. (None, d), RequestSlaveResponse = \<lambda>i c d. (None, d)\<rparr>"

lemma busy_flooded: "5 * Millisecond \<le> timeout \<Longrightarrow> flooded busy_driver (\<lambda>d. d) timeout t d"
proof (coinduction arbitrary: t d)
  case flooded
  then show ?case
    by (auto simp: busy_driver_def split_paired_all [symmetric] intro: prod_cases3)
qed

theorem slave_starves_witness:
  "execute busy_driver (\<lambda>d. d) (NewTransport True []) 0 = None \<and>
   execute busy_driver (\<lambda>d. d) (SetAwaitingSlaveResponse True (NewTransport False [])) 0 \<noteq> None"
proof -
  have "t_isSlave (NewTransport True [])" "\<not> t_closed (NewTransport True [])"
    "ReadTimeout (t_config (NewTransport True [])) = 10 * Millisecond"
    by (simp_all add: transport_run)
  then have "execute busy_driver (\<lambda>d. d) (NewTransport True []) 0 = None"
    using busy_flooded by (simp add: slave_starves)
  moreover have "execute busy_driver (\<lambda>d. d) (SetAwaitingSlaveResponse True (NewTransport False [])) 0 \<noteq> None"
    by (simp add: transport_run SetAwaitingSlaveResponse_def busy_driver_def Let_def)
  ultimately show ?thesis ..
qed

end
