(* ===== verification/Simulation_Timer.thy ===== *)
theory Simulation_Timer
  imports Driver_Common
begin

section \<open>The timed read of the simulation (\<^verbatim>\<open>tplin/simulation.go\<close>)\<close>

text \<open>
  \<open>Simulation\<close> takes a read that finds nothing as one step in which the timeout passes. Here is the
  read as the code does it, with the timer that each channel of a driver reuses: the timer is
  restarted, a \<^verbatim>\<open>select\<close> waits for an event or the tick, and the timer is stopped when the event
  comes first. While the read waits, the rest of the program runs (\<open>turn\<close>): it may push events, and
  time passes. When both cases are ready Go picks one, which \<open>late\<close> does. The mutex of the read state
  makes reads of one channel exclude each other, so a read has its timer to itself.

  A timer is due at an instant, or has fired and holds a tick that nobody has received, or is idle. Its
  operations are those of Go 1.23 and later (\<^verbatim>\<open>go.mod\<close> asks for 1.24): \<^verbatim>\<open>Stop\<close> says whether
  there was a tick to prevent or to discard, and neither \<^verbatim>\<open>Stop\<close> nor \<^verbatim>\<open>Reset\<close> leaves an old tick.
\<close>

subsection \<open>Timers\<close>

record Timer =
  tmr_due :: "int option"
  tmr_tick :: bool

definition idle_timer :: Timer where
  "idle_timer = \<lparr>tmr_due = None, tmr_tick = False\<rparr>"

text \<open>The runtime at an instant: a timer that is due fires.\<close>

definition timer_at :: "int \<Rightarrow> Timer \<Rightarrow> Timer" where
  "timer_at now timer =
     (case tmr_due timer of
        Some due \<Rightarrow> if due \<le> now then \<lparr>tmr_due = None, tmr_tick = True\<rparr> else timer
      | None \<Rightarrow> timer)"

definition timer_Stop :: "int \<Rightarrow> Timer \<Rightarrow> bool \<times> Timer" where
  "timer_Stop now timer =
     (let timer = timer_at now timer
      in (tmr_due timer \<noteq> None \<or> tmr_tick timer, idle_timer))"

definition timer_Reset :: "int \<Rightarrow> int \<Rightarrow> Timer \<Rightarrow> Timer" where
  "timer_Reset now timeout timer = \<lparr>tmr_due = Some (now + timeout), tmr_tick = False\<rparr>"

text \<open>A receive from \<^verbatim>\<open>timer.C\<close> that does not wait.\<close>

definition timer_receive :: "int \<Rightarrow> Timer \<Rightarrow> bool \<times> Timer" where
  "timer_receive now timer =
     (let timer = timer_at now timer in (tmr_tick timer, timer\<lparr>tmr_tick := False\<rparr>))"

definition stopTimer :: "int \<Rightarrow> Timer \<Rightarrow> Timer" where
  "stopTimer now timer =
     (case timer_Stop now timer of
        (stopped, timer) \<Rightarrow> if \<not> stopped then snd (timer_receive now timer) else timer)"

definition resetTimer :: "int \<Rightarrow> int \<Rightarrow> Timer \<Rightarrow> Timer" where
  "resetTimer now timeout timer =
     (let timer = stopTimer now timer in timer_Reset now timeout timer)"

subsection \<open>The read\<close>

text \<open>A driver with the timers of its channels; the clock is that of the program.\<close>

record TimedDriver =
  td_driver :: SimulatedLinDriver
  td_readStates :: "Channel \<Rightarrow> Timer option"
  td_now :: int

text \<open>\<open>readState\<close>: the timer of a channel, made on first use (for an hour) and stopped.\<close>

definition readState :: "Channel \<Rightarrow> TimedDriver \<Rightarrow> Timer \<times> TimedDriver" where
  "readState channel d =
     (case td_readStates d channel of
        Some timer \<Rightarrow> (timer, d)
      | None \<Rightarrow>
          let timer = \<lparr>tmr_due = Some (td_now d + 3600 * Second), tmr_tick = False\<rparr>;
              timer = snd (timer_Stop (td_now d) timer)
          in (timer, d\<lparr>td_readStates := (td_readStates d)(channel \<mapsto> timer)\<rparr>))"

definition put_timer :: "Channel \<Rightarrow> Timer \<Rightarrow> TimedDriver \<Rightarrow> TimedDriver" where
  "put_timer channel timer d = d\<lparr>td_readStates := (td_readStates d)(channel \<mapsto> timer)\<rparr>"

text \<open>
  The \<^verbatim>\<open>select\<close>: the result of the case that is taken, or a turn of the rest of the program, which
  does not touch the timers.
\<close>

definition select_round ::
    "(TimedDriver \<Rightarrow> bool) \<Rightarrow> (SimulatedLinDriver \<times> int \<Rightarrow> SimulatedLinDriver \<times> int) \<Rightarrow> Channel \<Rightarrow>
     Timer \<times> TimedDriver \<Rightarrow> (LinEvent option \<times> TimedDriver) + Timer \<times> TimedDriver" where
  "select_round late turn channel s =
     (let (timer, d) = s;
          (event, driver) = readQueue channel (td_driver d);
          (tick, ticked) = timer_receive (td_now d) timer
      in case event of
           Some e \<Rightarrow>
             if tick \<and> late d then Inl (None, put_timer channel ticked d)
             else Inl (Some e, put_timer channel (stopTimer (td_now d) timer) (d\<lparr>td_driver := driver\<rparr>))
         | None \<Rightarrow>
             if tick then Inl (None, put_timer channel ticked (d\<lparr>td_driver := driver\<rparr>))
             else let (driver, now) = turn (driver, td_now d)
                  in Inr (timer, d\<lparr>td_driver := driver, td_now := now\<rparr>))"

definition timed_ReadEvent ::
    "(TimedDriver \<Rightarrow> bool) \<Rightarrow> (SimulatedLinDriver \<times> int \<Rightarrow> SimulatedLinDriver \<times> int) \<Rightarrow>
     int \<Rightarrow> Channel \<Rightarrow> TimedDriver \<Rightarrow> (LinEvent option \<times> TimedDriver) option" where
  "timed_ReadEvent late turn timeout channel d =
     (if timeout \<le> 0 then
        let (event, driver) = readQueue channel (td_driver d)
        in Some (event, d\<lparr>td_driver := driver\<rparr>)
      else
        let (timer, d) = readState channel d;
            timer = resetTimer (td_now d) timeout timer
        in loop (select_round late turn channel) (timer, d))"

subsection \<open>Its guarantees\<close>

lemma stopTimer_idle [simp]: "stopTimer now timer = idle_timer"
  by (simp add: stopTimer_def timer_Stop_def timer_receive_def timer_at_def idle_timer_def Let_def)

lemma resetTimer_eq [simp]: "resetTimer now timeout timer = \<lparr>tmr_due = Some (now + timeout), tmr_tick = False\<rparr>"
  by (simp add: resetTimer_def timer_Reset_def)

text \<open>A round, while the timer runs until an instant.\<close>

lemma select_round_cases:
  assumes "select_round late turn c (\<lparr>tmr_due = Some due, tmr_tick = False\<rparr>, d) = z"
  obtains (event) e driver where "readQueue c (td_driver d) = (Some e, driver)"
      "z = Inl (Some e, put_timer c idle_timer (d\<lparr>td_driver := driver\<rparr>))"
  | (tick) driver where "due \<le> td_now d" "z = Inl (None, put_timer c idle_timer (d\<lparr>td_driver := driver\<rparr>))"
      "driver = td_driver d \<or> readQueue c (td_driver d) = (None, driver)"
  | (wait) driver driver' now where "td_now d < due" "readQueue c (td_driver d) = (None, driver)"
      "turn (driver, td_now d) = (driver', now)"
      "z = Inr (\<lparr>tmr_due = Some due, tmr_tick = False\<rparr>, d\<lparr>td_driver := driver', td_now := now\<rparr>)"
proof -
  obtain e driver where q: "readQueue c (td_driver d) = (e, driver)" by fastforce
  obtain driver' now where t: "turn (driver, td_now d) = (driver', now)" by fastforce
  note z = assms [unfolded select_round_def, simplified q timer_receive_def timer_at_def Let_def, simplified, symmetric]
  show thesis
  proof (cases "due \<le> td_now d")
    case True
    then show thesis
      using event [of _ driver] tick [of "td_driver d"] tick [of driver] z q
      by (cases e) (auto simp: idle_timer_def split: if_splits)
  next
    case False
    then show thesis
      using event [of _ driver] wait [of driver driver' now] z q t by (cases e) auto
  qed
qed

lemma readQueue_head:
  "pending c d = e # es \<Longrightarrow> fst (readQueue c d) = Some e \<and> pending c (snd (readQueue c d)) = es"
  by (auto simp: readQueue_def eventQueue_def pending_def try_recv.simps split: option.splits)

abbreviation (input) running :: "int \<Rightarrow> Timer" where
  "running due \<equiv> \<lparr>tmr_due = Some due, tmr_tick = False\<rparr>"

lemma readState_keeps [simp]:
  "td_now (snd (readState c d)) = td_now d" "td_driver (snd (readState c d)) = td_driver d"
  by (simp_all add: readState_def Let_def split: option.splits)

lemma timed_ReadEvent_loop:
  "0 < timeout \<Longrightarrow> timed_ReadEvent late turn timeout c d =
     loop (select_round late turn c) (running (td_now d + timeout), snd (readState c d))"
  by (simp add: timed_ReadEvent_def split_def Let_def)

lemma select_returns:
  assumes "\<And>driver now. now < snd (turn (driver, now))"
  shows "\<exists>r. loop (select_round late turn c) (running due, d) = Some r"
proof (induction "nat (due - td_now d)" arbitrary: d rule: less_induct)
  case less
  from refl [of "select_round late turn c (running due, d)"] show ?case
  proof (cases rule: select_round_cases)
    case (wait driver driver' now)
    then have "td_now d < now" using assms [of "td_now d" driver] by simp
    then show ?thesis
      using wait less [of "d\<lparr>td_driver := driver', td_now := now\<rparr>"]
      by (simp add: loop_Inr [of "select_round late turn c" "(running due, d)", OF wait(4)])
  qed (auto intro: loop_Inl)
qed

lemma select_waiting:
  "readQueue c (td_driver d) = (Some e, q) \<Longrightarrow> td_now d < due \<Longrightarrow>
   loop (select_round late turn c) (running due, d) = Some (Some e, put_timer c idle_timer (d\<lparr>td_driver := q\<rparr>))"
  by (rule loop_Inl) (simp add: select_round_def timer_receive_def timer_at_def Let_def)

lemma select_bounds:
  assumes "loop (select_round late turn c) (running due, d) = Some (r, d')" and "td_now d < due + step"
    and "\<And>driver now. now < snd (turn (driver, now)) \<and> snd (turn (driver, now)) \<le> now + step"
  shows "td_readStates d' c = Some idle_timer \<and> td_now d \<le> td_now d' \<and> td_now d' < due + step \<and>
    (r = None \<longrightarrow> due \<le> td_now d')"
proof -
  let ?P = "\<lambda>s. fst s = running due \<and> td_now d \<le> td_now (snd s) \<and> td_now (snd s) < due + step"
  let ?Q = "\<lambda>x. td_readStates (snd x) c = Some idle_timer \<and> td_now d \<le> td_now (snd x) \<and>
    td_now (snd x) < due + step \<and> (fst x = None \<longrightarrow> due \<le> td_now (snd x))"
  have "?Q (r, d')"
  proof (rule loop_keeps [OF assms(1), where P = ?P and Q = ?Q])
    fix s s' assume go: "select_round late turn c s = Inr s'" and P: "?P s"
    then obtain d1 where s: "s = (running due, d1)" by (cases s) simp
    from go [unfolded s] show "?P s'"
    proof (cases rule: select_round_cases)
      case (wait driver driver' now)
      then show ?thesis using P assms(3) [of "td_now d1" driver] by (simp add: s)
    qed simp_all
  next
    fix s x assume ret: "select_round late turn c s = Inl x" and P: "?P s"
    then obtain d1 where s: "s = (running due, d1)" by (cases s) simp
    from ret [unfolded s] show "?Q x"
      by (cases rule: select_round_cases) (use P in \<open>simp_all add: s put_timer_def\<close>)
  qed (use assms(2) in simp)
  then show ?thesis by simp
qed

text \<open>
  C19: A timed read of the simulation neither hangs nor ends early nor oversleeps, whatever the other
  goroutines push meanwhile and in whatever state an earlier read left the timer. If every step of
  the rest of the program takes time, and at most \<open>step\<close>, a read with a positive timeout returns; it
  comes back empty only when its own timeout has passed, and always before the timeout and one
  step have passed; an event that waits already is returned at once; and the timer is idle again,
  so that no old tick can end the next read.
\<close>

theorem timed_ReadEvent_correct:
  assumes "0 < timeout"
    and "\<And>driver now. now < snd (turn (driver, now)) \<and> snd (turn (driver, now)) \<le> now + step"
  shows "\<exists>r d'. timed_ReadEvent late turn timeout c d = Some (r, d') \<and>
    td_readStates d' c = Some idle_timer \<and>
    td_now d \<le> td_now d' \<and> td_now d' < td_now d + timeout + step \<and>
    (r = None \<longrightarrow> td_now d + timeout \<le> td_now d') \<and>
    (\<forall>e es. pending c (td_driver d) = e # es \<longrightarrow>
       r = Some e \<and> td_now d' = td_now d \<and> pending c (td_driver d') = es)"
proof -
  let ?d0 = "snd (readState c d)" and ?due = "td_now d + timeout"
  have step: "0 < step" using assms(2) [of 0 undefined] by linarith
  obtain r d' where r: "loop (select_round late turn c) (running ?due, ?d0) = Some (r, d')"
    using select_returns assms(2) by (metis surj_pair)
  have "r = Some e \<and> td_now d' = td_now d \<and> pending c (td_driver d') = es"
    if waiting: "pending c (td_driver d) = e # es" for e es
  proof -
    obtain q where q: "readQueue c (td_driver d) = (Some e, q)" "pending c q = es"
      using readQueue_head [OF waiting] by (metis surjective_pairing)
    then show ?thesis
      using select_waiting [of c ?d0 e q ?due late turn] r assms(1) by (auto simp: put_timer_def)
  qed
  then show ?thesis
    using select_bounds [OF r _ assms(2)] assms(1) step by (auto simp: timed_ReadEvent_loop r)
qed

text \<open>
  The one-step read of \<open>Simulation\<close> is the timed read of a program in which nothing else happens: the
  result, the queues and the clock are the same, for every timeout.
\<close>

definition only_time :: "SimulatedLinDriver \<times> int \<Rightarrow> SimulatedLinDriver \<times> int" where
  "only_time s = (fst s, snd s + 1)"

lemma readQueue_again: "readQueue c q = (None, q') \<Longrightarrow> readQueue c q' = (None, q')"
  by (auto simp: readQueue_def eventQueue_def try_recv.simps make_chan_def Let_def
      split: option.splits list.splits if_splits)

theorem timed_read_refines_simulation:
  assumes "driver_at x n = Some (td_driver d)" and "n_now n = td_now d"
  shows "map_option (\<lambda>(r, d'). (Inr r, put_driver x (td_driver d') (n\<lparr>n_now := td_now d'\<rparr>)))
      (timed_ReadEvent late only_time timeout c d) = Some (sim_ReadEvent x timeout c n)"
proof -
  obtain r0 q where q: "readQueue c (td_driver d) = (r0, q)" by fastforce
  show ?thesis
  proof (cases "timeout \<le> 0")
    case True
    then show ?thesis
      using assms q by (cases r0) (simp_all add: timed_ReadEvent_def sim_ReadEvent_def Let_def flip: assms(2))
  next
    case pos: False
    let ?timer = "running (td_now d + timeout)" and ?d0 = "snd (readState c d)"
    obtain r d' where loop: "loop (select_round late only_time c) (?timer, ?d0) = Some (r, d')"
      using select_returns [of only_time late c "td_now d + timeout" ?d0] by (auto simp: only_time_def)
    then have run: "timed_ReadEvent late only_time timeout c d = Some (r, d')"
      using pos by (simp add: timed_ReadEvent_loop)
    show ?thesis
    proof (cases r0)
      case None
      let ?P = "\<lambda>s. fst s = ?timer \<and> readQueue c (td_driver (snd s)) = (None, q) \<and>
        td_now (snd s) \<le> td_now d + timeout"
      let ?Q = "\<lambda>x. fst x = None \<and> td_driver (snd x) = q \<and> td_now (snd x) = td_now d + timeout"
      have "?Q (r, d')"
      proof (rule loop_keeps [OF loop, where P = ?P and Q = ?Q])
        show "?P (?timer, ?d0)" using q None pos by simp
      next
        fix s s' assume go: "select_round late only_time c s = Inr s'" and P: "?P s"
        then obtain d1 where s: "s = (?timer, d1)" by (cases s) simp
        from go [unfolded s] show "?P s'"
          by (cases rule: select_round_cases)
             (use P readQueue_again in \<open>auto simp: s only_time_def\<close>)
      next
        fix s y assume ret: "select_round late only_time c s = Inl y" and P: "?P s"
        then obtain d1 where s: "s = (?timer, d1)" by (cases s) simp
        from ret P show "?Q y"
          by (auto simp: s select_round_def timer_receive_def timer_at_def put_timer_def Let_def split_def
              split: if_splits)
      qed
      then show ?thesis using run assms q None pos by (simp add: sim_ReadEvent_def)
    next
      case (Some e)
      have "r = Some e" "d' = put_timer c idle_timer (?d0\<lparr>td_driver := q\<rparr>)"
        using select_waiting [of c ?d0 e q "td_now d + timeout" late only_time] loop q Some pos by auto
      then show ?thesis
        using run assms q pos by (simp add: sim_ReadEvent_def Some put_timer_def flip: assms(2))
    qed
  qed
qed

text \<open>
  An example: the timer of an earlier read has fired and nobody took the tick. A read of one
  millisecond of a silent bus still lasts one millisecond.
\<close>

theorem timed_ReadEvent_correct_witness:
  "\<exists>d'. timed_ReadEvent (\<lambda>_. True) only_time Millisecond 0
     \<lparr>td_driver = newSimulatedLinDriver True, td_readStates = [0 \<mapsto> \<lparr>tmr_due = None, tmr_tick = True\<rparr>],
      td_now = 5\<rparr> = Some (None, d') \<and> td_now d' = 5 + Millisecond"
proof -
  let ?d = "\<lparr>td_driver = newSimulatedLinDriver True, td_readStates = [0 \<mapsto> \<lparr>tmr_due = None, tmr_tick = True\<rparr>],
      td_now = 5\<rparr>"
  obtain r d' where d': "timed_ReadEvent (\<lambda>_. True) only_time Millisecond 0 ?d = Some (r, d')"
      "td_now d' < 5 + Millisecond + 1" "r = None \<longrightarrow> 5 + Millisecond \<le> td_now d'"
    using timed_ReadEvent_correct [where timeout = Millisecond and turn = only_time and step = 1
        and late = "\<lambda>_. True" and c = 0 and d = ?d]
    by (auto simp: only_time_def)
  let ?n = "(NewSimulatedLinNetwork 5)\<lparr>n_masterDriver := Some (newSimulatedLinDriver True)\<rparr>"
  have "map_option (\<lambda>(r, d'). (Inr r, put_driver MasterNode (td_driver d') (?n\<lparr>n_now := td_now d'\<rparr>)))
      (timed_ReadEvent (\<lambda>_. True) only_time Millisecond 0 ?d) = Some (sim_ReadEvent MasterNode Millisecond 0 ?n)"
    by (rule timed_read_refines_simulation)
       (simp_all add: driver_at_def NewSimulatedLinNetwork_def)
  from this [unfolded d'(1)] have "r = None"
    by (simp add: sim_ReadEvent_def driver_at_def newSimulatedLinDriver_def readQueue_def eventQueue_def
        make_chan_def try_recv.simps Let_def)
  with d' show ?thesis by simp
qed

end
