(* ===== verification/Hardware_Master.thy ===== *)
theory Hardware_Master
  imports Uds_Client Driver_Common
begin

section \<open>A master over a hardware driver\<close>

text \<open>
  What makes the requests of a master return when its transport runs over an adapter. A master
  never blocks in a read: its cycle reads with timeout zero. The locale \<open>quick_polling\<close> adds to
  \<open>polling\<close> what such a read needs (an event read leaves fewer events waiting, no round turns back
  the clock), and \<open>master_hardware\<close> is a driver with these reads. In \<open>hardware_env\<close> the rest of the
  program is the master's own goroutine, which runs one cycle and then waits for the next tick
  (\<open>pause\<close>); a transport in the role of a slave, which a master never has, only waits. A read that
  never returns makes the cycle, the turn and the request \<open>None\<close>.
\<close>

locale quick_polling = polling dry now waiting good frame body
  for dry :: bool
    and now :: "'s \<Rightarrow> int"
    and waiting :: "Channel \<Rightarrow> 's \<Rightarrow> nat"
    and good :: "'s \<Rightarrow> bool"
    and frame :: "Channel \<Rightarrow> LinEvent \<Rightarrow> bool"
    and body :: "int \<Rightarrow> Channel \<Rightarrow> int \<Rightarrow> 's \<Rightarrow> ((error + LinEvent option) \<times> 's) + 's" +
  assumes return_clock: "dry \<Longrightarrow> body timeout c deadline s = Inl (r, s') \<Longrightarrow> now s \<le> now s'"
    and return_shrinks: "dry \<Longrightarrow> body timeout c deadline s = Inl (Inr (Some ev), s') \<Longrightarrow>
      waiting c s' < waiting c s"
begin

lemma read_clock:
  assumes dry and "loop (body timeout c deadline) s = Some (r, s')"
  shows "now s \<le> now s'"
proof -
  have "now s \<le> now (snd (r, s'))"
  proof (rule loop_keeps [where P = "\<lambda>t. now s \<le> now t" and Q = "\<lambda>r. now s \<le> now (snd r)", OF assms(2)])
    show "now s \<le> now t'" if "body timeout c deadline t = Inr t'" "now s \<le> now t" for t t'
      using again_dry [OF assms(1) that(1)] that(2) by auto
    show "now s \<le> now (snd x)" if "body timeout c deadline t = Inl x" "now s \<le> now t" for t x
      using return_clock [OF assms(1), of timeout c deadline t "fst x" "snd x"] that by simp
  qed simp
  then show ?thesis by simp
qed

text \<open>A read whose deadline has come does not sleep, so it only takes events away.\<close>

lemma due_read_shrinks:
  assumes dry and "loop (body timeout c deadline) s = Some (Inr (Some ev), s')" and "deadline \<le> now s"
  shows "waiting c s' < waiting c s"
proof -
  let ?P = "\<lambda>t. deadline \<le> now t \<and> waiting c t \<le> waiting c s"
  let ?Q = "\<lambda>r. fst r = (Inr (Some ev) :: error + LinEvent option) \<longrightarrow> waiting c (snd r) < waiting c s"
  have "?Q (Inr (Some ev), s')"
  proof (rule loop_keeps [where P = ?P and Q = ?Q, OF assms(2)])
    show "?P t'" if "body timeout c deadline t = Inr t'" "?P t" for t t'
      using again_dry [OF assms(1) that(1)] that(2) by auto
    show "?Q r" if "body timeout c deadline t = Inl r" "?P t" for t r
      using return_shrinks [OF assms(1), of timeout c deadline t ev "snd r"] that by (cases r) auto
  qed (use assms(3) in simp)
  then show ?thesis by simp
qed

lemma polled_reads:
  assumes dry and polled: "\<And>timeout c s. \<exists>err q. now q = now s \<and> waiting c q = waiting c s \<and>
    read timeout c s = (case err of Some err \<Rightarrow> Some (Inl err, s)
      | None \<Rightarrow> loop (body timeout c (now s + timeout)) q)"
  shows "read timeout c s \<noteq> None"
    and "read timeout c s = Some (r, s') \<Longrightarrow> now s \<le> now s'"
    and "read 0 c s = Some (Inr (Some ev), s') \<Longrightarrow> waiting c s' < waiting c s"
proof -
  from polled [of s c timeout] show "read timeout c s \<noteq> None"
    using read_returns [OF assms(1)] by (fastforce split: option.splits)
  from polled [of s c timeout] show "now s \<le> now s'" if "read timeout c s = Some (r, s')"
    using read_clock [OF assms(1)] that by (fastforce split: option.splits)
  from polled [of s c 0] show "waiting c s' < waiting c s" if "read 0 c s = Some (Inr (Some ev), s')"
    using due_read_shrinks [OF assms(1)] that by (fastforce split: option.splits)
qed

end

definition hardware_turn ::
    "'d Driver \<Rightarrow> ('d \<Rightarrow> int) \<Rightarrow> ('d \<Rightarrow> 'd) \<Rightarrow> Transport \<Rightarrow> 'd \<Rightarrow> (Transport \<times> 'd) option" where
  "hardware_turn drv clock pause t d =
     (if t_isSlave t then Some (t, pause d)
      else case goroutine_turn drv clock Tick t d of
             None \<Rightarrow> None
           | Some (t, d) \<Rightarrow> Some (t, pause d))"

definition hardware_env :: "'d Driver \<Rightarrow> ('d \<Rightarrow> int) \<Rightarrow> ('d \<Rightarrow> 'd) \<Rightarrow> ('d \<Rightarrow> nat) \<Rightarrow> 'd Env" where
  "hardware_env drv clock pause pick =
     \<lparr>Clock = clock, Pick = pick, Turn = hardware_turn drv clock pause\<rparr>"

locale master_hardware = clocked_driver drv clock
  for drv :: "'d Driver" and clock :: "'d \<Rightarrow> int" +
  fixes waiting :: "Channel \<Rightarrow> 'd \<Rightarrow> nat" and pause :: "'d \<Rightarrow> 'd"
  assumes zero_read_returns: "ReadEvent drv 0 c d \<noteq> None"
    and zero_read_shrinks: "ReadEvent drv 0 c d = Some (Inr (Some ev), d') \<Longrightarrow> waiting c d' < waiting c d"
    and pause_lasts: "clock d < clock (pause d)"
begin

lemma master_read_returns:
  "\<not> t_isSlave t \<Longrightarrow> \<exists>r. read_events drv cl 0 b t d = Some r"
proof (induction "waiting (t_channel t) d" arbitrary: b t d rule: less_induct)
  case less
  obtain res d1 where read: "ReadEvent drv 0 (t_channel t) d = Some (res, d1)"
    using zero_read_returns [of "t_channel t" d] by auto
  show ?case
  proof (cases res rule: read_result_cases)
    case (event ev)
    obtain c t2 where r: "receiveFromDriver drv cl ev t d1 = (c, t2, d1)"
      using less.prems by (cases "receiveDiagnostic (cl d1) ev t") (simp add: receiveFromDriver_def)
    have "waiting (t_channel t2) d1 < waiting (t_channel t) d"
      using zero_read_shrinks read event receiveFromDriver_channel [OF r] by simp
    then obtain x where "read_events drv cl 0 (if c then True else b) t2 d1 = Some x"
      using less.hyps [of t2 d1] receiveFromDriver_channel [OF r] less.prems by blast
    then show ?thesis
      by (subst read_events.simps) (simp add: read event r del: split_paired_Ex)
  qed (subst read_events.simps, simp add: read)+
qed

lemma master_execute_returns:
  assumes "\<not> t_isSlave t"
  shows "\<exists>err t' d'. execute drv cl t d = Some (err, t', d') \<and> clock d \<le> clock d'"
proof -
  let ?t = "checkMultiFrameTimeout (cl d) t"
  obtain err received t' d' where "read_events drv cl 0 False ?t d = Some (err, received, t', d')"
    using master_read_returns [of ?t cl False d] assms by (metis checkMultiFrameTimeout_sel(1) prod_cases4)
  then have "\<exists>r. execute drv cl t d = Some r"
    using assms by (cases err) (auto simp: execute_def Let_def simp del: split_paired_Ex)
  then show ?thesis using execute_clock by (metis prod_cases3)
qed

lemma hardware_turn_returns:
  "\<exists>t' d'. hardware_turn drv clock pause t d = Some (t', d') \<and> clock d < clock d'"
proof (cases "t_isSlave t")
  case True
  then show ?thesis by (simp add: hardware_turn_def pause_lasts)
next
  case False
  then obtain err t1 d1 where "execute drv clock t d = Some (err, t1, d1)" "clock d \<le> clock d1"
    using master_execute_returns by blast
  with False pause_lasts [of d1] show ?thesis
    by (simp add: hardware_turn_def goroutine_turn_def)
qed

end

sublocale master_hardware \<subseteq> hardware: live_env "hardware_env drv clock pause pick" for pick
proof
  show "Turn (hardware_env drv clock pause pick) t d \<noteq> None" for t d
    using hardware_turn_returns [of t d] by (auto simp: hardware_env_def)
  show "Clock (hardware_env drv clock pause pick) d < Clock (hardware_env drv clock pause pick) d'"
    if "Turn (hardware_env drv clock pause pick) t d = Some (t', d')" for t d t' d'
    using that hardware_turn_returns [of t d] by (auto simp: hardware_env_def)
qed

context master_hardware
begin

text \<open>Every request of a master over such a driver returns.\<close>

lemma hardware_requests_return:
  "(\<exists>r. ReadByIdentifier (hardware_env drv clock pause pick) identifier supplierID functionID nad timeout m d = Some r) \<and>
   (\<exists>r. AssignSlaveNad (hardware_env drv clock pause pick) newNad supplierID functionID nad timeout m d = Some r) \<and>
   (\<exists>r. SendAndRecWithContext (hardware_env drv clock pause pick) (ctx\<lparr>ctx_deadline := Some deadline\<rparr>)
      payload client d = Some r)"
  using hardware.ReadByIdentifier_returns hardware.AssignSlaveNad_returns
    hardware.SendAndRecWithContext_returns [of "ctx\<lparr>ctx_deadline := Some deadline\<rparr>"]
  by simp

end

end
