(* ===== verification/Pcan.thy ===== *)
theory Pcan
  imports Driver_Common Transport_Cycle
begin

section \<open>The PCAN driver (\<^verbatim>\<open>driver/pcan.go\<close>)\<close>

text \<open>
  The driver of PEAK LIN adapters. The functions of the vendor's library \<^verbatim>\<open>PLinApi.dll\<close> are a
  parameter (\<open>PLIN\<close>): each takes and returns the state \<open>'x\<close> of the adapter, which also holds the
  clock, and yields the error code and what the real function writes through its pointers.
  The library is loaded in \<open>Library_Search\<close> and \<open>Driver_Libraries\<close>; logging and the reset of counters
  by the vendor's code are not modelled.
  A driver is never nil here. The locks make a driver operation one step. The read loop releases
  them while it sleeps; an event that another goroutine queues meanwhile is read by the next round.
\<close>

abbreviation (input) pcanMinBaudrate :: u16 where "pcanMinBaudrate \<equiv> 1000"
abbreviation (input) pcanMaxBaudrate :: u16 where "pcanMaxBaudrate \<equiv> 20000"
abbreviation (input) pcanDirectionPublisher :: byte where "pcanDirectionPublisher \<equiv> 1"
abbreviation (input) pcanDirectionSubscriber :: byte where "pcanDirectionSubscriber \<equiv> 2"
abbreviation (input) pcanChecksumClassic :: byte where "pcanChecksumClassic \<equiv> 1"
abbreviation (input) pcanChecksumEnhanced :: byte where "pcanChecksumEnhanced \<equiv> 2"
abbreviation (input) pcanMessageTypeStandard :: byte where "pcanMessageTypeStandard \<equiv> 0"
abbreviation (input) pcanFrameFlagResponseEnable :: u16 where "pcanFrameFlagResponseEnable \<equiv> 1"
abbreviation (input) pcanFrameFlagSingleShot :: u16 where "pcanFrameFlagSingleShot \<equiv> 2"
abbreviation (input) pcanErrorOK :: u32 where "pcanErrorOK \<equiv> 0"
abbreviation (input) pcanErrorReceiveQueueEmpty :: u32 where "pcanErrorReceiveQueueEmpty \<equiv> 3"
abbreviation (input) pcanErrorBufferInsufficient :: u32 where "pcanErrorBufferInsufficient \<equiv> 13"
abbreviation (input) pcanHardwareParamDeviceNumber :: u16 where "pcanHardwareParamDeviceNumber \<equiv> 2"
abbreviation (input) pcanHardwareParamChannelNumber :: u16 where "pcanHardwareParamChannelNumber \<equiv> 3"
abbreviation (input) pcanHardwareParamBaudrate :: u16 where "pcanHardwareParamBaudrate \<equiv> 6"
abbreviation (input) pcanHardwareParamMode :: u16 where "pcanHardwareParamMode \<equiv> 7"
abbreviation (input) pcanEventQueueSize :: nat where "pcanEventQueueSize \<equiv> 128"
abbreviation (input) pcanReadPollDelay :: int where "pcanReadPollDelay \<equiv> Millisecond"

type_synonym PCANMode = byte
abbreviation (input) PCANSlave :: PCANMode where "PCANSlave \<equiv> 1"
abbreviation (input) PCANMaster :: PCANMode where "PCANMaster \<equiv> 2"

record PCANConfig =
  ClientName :: string
  pcfg_Mode :: PCANMode
  Baudrate :: u16
  Channels :: "Channel list"
  pcfg_HardwareHandles :: "Channel \<Rightarrow> u16 option"

definition DefaultPCANConfig :: "Channel list \<Rightarrow> PCANConfig" where
  "DefaultPCANConfig channels =
     (let channels = (if length channels = 0 then [0] else channels)
      in \<lparr>ClientName = ''linbuskit'', pcfg_Mode = PCANMaster, Baudrate = 19200,
          Channels = channels, pcfg_HardwareHandles = (\<lambda>_. None)\<rparr>)"

definition pcanErrorNames :: "u32 \<Rightarrow> string option" where
  "pcanErrorNames = map_of
     [(0, ''success''), (1, ''transmit queue full''), (2, ''illegal period''),
      (3, ''receive queue empty''), (4, ''illegal checksum type''),
      (5, ''illegal hardware handle''), (6, ''illegal client handle''),
      (7, ''wrong parameter type''), (8, ''wrong parameter value''), (9, ''illegal direction''),
      (10, ''illegal length''), (11, ''illegal baudrate''), (12, ''illegal frame ID''),
      (13, ''buffer insufficient''), (14, ''illegal schedule number''),
      (15, ''illegal slot count''), (16, ''illegal index''), (17, ''illegal byte range''),
      (18, ''illegal hardware state''), (19, ''illegal scheduler state''),
      (20, ''illegal frame configuration''), (21, ''schedule slot pool full''),
      (22, ''illegal schedule''), (23, ''illegal hardware mode''), (1001, ''out of resources''),
      (1002, ''LIN manager not loaded''), (1003, ''LIN manager not responding''),
      (1004, ''memory access violation''), (0xFFFE, ''not implemented''),
      (0xFFFF, ''unknown PLIN error'')]"

subsection \<open>The vendor's library\<close>

record pcanMessage =
  m_FrameID :: byte
  m_Length :: byte
  m_Direction :: byte
  m_ChecksumType :: byte
  m_Data :: "byte list"
  m_Checksum :: byte

record pcanReceiveMessage =
  r_Type :: byte
  r_FrameID :: byte
  r_Length :: byte
  r_Direction :: byte
  r_ChecksumType :: byte
  r_Data :: "byte list"
  r_Checksum :: byte
  r_ErrorFlags :: u32
  r_Timestamp :: u64
  r_Hardware :: u16

record pcanFrameEntry =
  e_FrameID :: byte
  e_Length :: byte
  e_Direction :: byte
  e_ChecksumType :: byte
  e_Flags :: u16
  e_InitialData :: "byte list"

record 'x PLIN =
  lin_RegisterClient :: "string \<Rightarrow> 'x \<Rightarrow> u32 \<times> byte \<times> 'x"
  lin_RemoveClient :: "byte \<Rightarrow> 'x \<Rightarrow> u32 \<times> 'x"
  lin_ConnectClient :: "byte \<Rightarrow> u16 \<Rightarrow> 'x \<Rightarrow> u32 \<times> 'x"
  lin_DisconnectClient :: "byte \<Rightarrow> u16 \<Rightarrow> 'x \<Rightarrow> u32 \<times> 'x"
  lin_ResetClient :: "byte \<Rightarrow> 'x \<Rightarrow> u32 \<times> 'x"
  lin_SetClientFilter :: "byte \<Rightarrow> u16 \<Rightarrow> u64 \<Rightarrow> 'x \<Rightarrow> u32 \<times> 'x"
  lin_Read :: "byte \<Rightarrow> 'x \<Rightarrow> u32 \<times> pcanReceiveMessage \<times> 'x"
  lin_Write :: "byte \<Rightarrow> u16 \<Rightarrow> pcanMessage \<Rightarrow> 'x \<Rightarrow> u32 \<times> 'x"
  lin_InitializeHardware :: "byte \<Rightarrow> u16 \<Rightarrow> byte \<Rightarrow> u16 \<Rightarrow> 'x \<Rightarrow> u32 \<times> 'x"
  lin_GetAvailableHardware :: "nat \<Rightarrow> 'x \<Rightarrow> u32 \<times> u16 list \<times> u32 \<times> 'x"
  lin_GetHardwareParam :: "u16 \<Rightarrow> u16 \<Rightarrow> 'x \<Rightarrow> u32 \<times> int \<times> 'x"
  lin_SetFrameEntry :: "byte \<Rightarrow> u16 \<Rightarrow> pcanFrameEntry \<Rightarrow> 'x \<Rightarrow> u32 \<times> 'x"
  lin_UpdateByteArray :: "byte \<Rightarrow> u16 \<Rightarrow> byte \<Rightarrow> byte list \<Rightarrow> 'x \<Rightarrow> u32 \<times> 'x"
  lin_CalculateChecksum :: "pcanMessage \<Rightarrow> 'x \<Rightarrow> u32 \<times> pcanMessage \<times> 'x"
  lin_FreeLibrary :: "'x \<Rightarrow> error option \<times> 'x"
  lin_now :: "'x \<Rightarrow> int"
  lin_sleep :: "int \<Rightarrow> 'x \<Rightarrow> 'x"

text \<open>\<open>pcanCall\<close>: a call whose only result is its code.\<close>

definition pcanCall :: "string \<Rightarrow> u32 \<times> 'x \<Rightarrow> error option \<times> 'x" where
  "pcanCall operation r =
     (let (code, x) = r
      in if code \<noteq> pcanErrorOK then (Some (Wrapped operation [] (PCANError code)), x) else (None, x))"

lemma pcanCall_state: "snd (pcanCall operation r) = snd r"
  by (cases r) (simp add: pcanCall_def)

record PCAN =
  pc_api :: bool
  pc_client :: byte
  pc_mode :: PCANMode
  pc_baudrate :: u16
  pc_closed :: bool
  pc_closeOnce :: bool
  pc_hardwareByChannel :: "Channel \<Rightarrow> u16 option"
  pc_channelByHardware :: "u16 \<Rightarrow> Channel option"
  pc_connectedHardware :: "u16 list"
  pc_eventChans :: queues
  pc_closeErr :: "error list"
  pc_masterReadLocks :: channelMutexes

subsection \<open>Configuration\<close>

fun check_channels :: "(Channel \<Rightarrow> u16 option) \<Rightarrow> Channel set \<Rightarrow> Channel list \<Rightarrow> error option" where
  "check_channels handles seen [] = None"
| "check_channels handles seen (channel # cs) =
     (if channel \<in> seen then Some (ErrorText ''duplicate PCAN channel'' [uint channel])
      else
        let seen = insert channel seen
        in if handles channel = Some 0
           then Some (ErrorText ''invalid hardware handle 0 for PCAN channel'' [uint channel])
           else check_channels handles seen cs)"

definition normalizePCANConfig :: "PCANConfig \<Rightarrow> error + PCANConfig" where
  "normalizePCANConfig config =
     (let config = (if ClientName config = '''' then config\<lparr>ClientName := ''linbuskit''\<rparr> else config)
      in if CHR 0x00 \<in> set (ClientName config)
         then Inl (ErrorText ''PCAN client name contains a NUL byte'' [])
         else
           let config = (if pcfg_Mode config = 0 then config\<lparr>pcfg_Mode := PCANMaster\<rparr> else config)
           in if pcfg_Mode config \<noteq> PCANMaster \<and> pcfg_Mode config \<noteq> PCANSlave
              then Inl (ErrorText ''invalid PCAN mode'' [uint (pcfg_Mode config)])
              else
                let config = (if Baudrate config = 0 then config\<lparr>Baudrate := 19200\<rparr> else config)
                in if Baudrate config < pcanMinBaudrate \<or> Baudrate config > pcanMaxBaudrate
                   then Inl (ErrorText ''invalid PCAN baudrate'' [uint (Baudrate config)])
                   else
                     let config = (if length (Channels config) = 0
                                   then config\<lparr>Channels := [0]\<rparr> else config)
                     in case check_channels (pcfg_HardwareHandles config) {} (Channels config) of
                          Some err \<Rightarrow> Inl err
                        | None \<Rightarrow> Inr config)"

text \<open>The loop of \<open>mapHardware\<close>; \<open>used\<close> are the handles taken so far.\<close>

fun mapHardware_loop ::
    "PCANConfig \<Rightarrow> u16 list \<Rightarrow> (u16 \<Rightarrow> Channel option) \<Rightarrow> Channel list \<Rightarrow> PCAN \<Rightarrow> error option \<times> PCAN" where
  "mapHardware_loop config available used [] p = (None, p)"
| "mapHardware_loop config available used (channel # cs) p =
     (let pick = (case pcfg_HardwareHandles config channel of
                    None \<Rightarrow>
                      (let index = unat channel
                       in if index \<ge> length available
                          then Inl (ErrorText ''PCAN channel selects hardware index''
                                     [uint channel, int index, int (length available)])
                          else Inr (available ! index))
                  | Some handle \<Rightarrow>
                      if handle \<notin> set available
                      then Inl (ErrorText ''PCAN hardware handle is not available''
                                 [uint handle, uint channel])
                      else Inr handle)
      in case pick of
           Inl err \<Rightarrow> (Some err, p)
         | Inr handle \<Rightarrow>
             (case used handle of
                Some previous \<Rightarrow>
                  (Some (ErrorText ''PCAN channels map to the same hardware handle''
                          [uint previous, uint channel, uint handle]), p)
              | None \<Rightarrow>
                  let p = p\<lparr>pc_hardwareByChannel := (pc_hardwareByChannel p)(channel \<mapsto> handle),
                            pc_channelByHardware := (pc_channelByHardware p)(handle \<mapsto> channel)\<rparr>
                  in mapHardware_loop config available (used(handle \<mapsto> channel)) cs p))"

definition mapHardware :: "PCANConfig \<Rightarrow> u16 list \<Rightarrow> PCAN \<Rightarrow> error option \<times> PCAN" where
  "mapHardware config available p =
     mapHardware_loop config available (\<lambda>_. None) (Channels config) p"

subsection \<open>Opening\<close>

definition register_client :: "'x PLIN \<Rightarrow> string \<Rightarrow> PCAN \<Rightarrow> 'x \<Rightarrow> error option \<times> PCAN \<times> 'x" where
  "register_client api clientName p x =
     (if CHR 0x00 \<in> set clientName
      then (Some (Wrapped ''encode PCAN client name'' [] (ErrorText ''invalid argument'' [])), p, x)
      else
        let (code, client, x) = lin_RegisterClient api clientName x;
            p = p\<lparr>pc_client := client\<rparr>
        in case pcanCall ''LIN_RegisterClient'' (code, x) of
             (Some err, x) \<Rightarrow> (Some err, p, x)
           | (None, x) \<Rightarrow>
               if pc_client p = 0
               then (Some (ErrorText ''LIN_RegisterClient returned an invalid client handle'' []), p, x)
               else (None, p, x))"

text \<open>The list of handles is read twice: its length, then its elements into a buffer of that length.\<close>

definition availableHardware :: "'x PLIN \<Rightarrow> 'x \<Rightarrow> (error + u16 list) \<times> 'x" where
  "availableHardware api x =
     (let (code, _, count, x) = lin_GetAvailableHardware api 0 x
      in if code \<noteq> pcanErrorOK \<and> code \<noteq> pcanErrorBufferInsufficient
         then (Inl (Wrapped ''LIN_GetAvailableHardware(count)'' [] (PCANError code)), x)
         else if count = 0 then (Inl (ErrorText ''no PCAN LIN hardware found'' []), x)
         else if count > 0x7FFF then (Inl (ErrorText ''invalid PCAN hardware count'' [uint count]), x)
         else
           let (code, handles, returned, x) = lin_GetAvailableHardware api (unat count) x
           in if code \<noteq> pcanErrorOK
              then (Inl (Wrapped ''LIN_GetAvailableHardware'' [] (PCANError code)), x)
              else if unat returned > unat count
              then (Inl (ErrorText ''PCAN hardware list changed while reading''
                          [uint returned, uint count]), x)
              else (Inr (take (unat returned) handles), x))"

definition hardwareParameter :: "'x PLIN \<Rightarrow> u16 \<Rightarrow> u16 \<Rightarrow> 'x \<Rightarrow> (error + int) \<times> 'x" where
  "hardwareParameter api hardware parameter x =
     (let (code, value, x) = lin_GetHardwareParam api hardware parameter x
      in case pcanCall ''LIN_GetHardwareParam'' (code, x) of
           (Some err, x) \<Rightarrow> (Inl err, x)
         | (None, x) \<Rightarrow> (Inr value, x))"

text \<open>The same call, for a caller that holds the lock already.\<close>

definition hardwareParameterUnlocked :: "'x PLIN \<Rightarrow> u16 \<Rightarrow> u16 \<Rightarrow> 'x \<Rightarrow> (error + int) \<times> 'x" where
  "hardwareParameterUnlocked api hardware parameter x =
     (let (code, value, x) = lin_GetHardwareParam api hardware parameter x
      in case pcanCall ''LIN_GetHardwareParam'' (code, x) of
           (Some err, x) \<Rightarrow> (Inl err, x)
         | (None, x) \<Rightarrow> (Inr value, x))"

definition connectAndInitialize :: "'x PLIN \<Rightarrow> u16 \<Rightarrow> PCAN \<Rightarrow> 'x \<Rightarrow> error option \<times> PCAN \<times> 'x" where
  "connectAndInitialize api hardware p x =
     (case pcanCall ''LIN_ConnectClient'' (lin_ConnectClient api (pc_client p) hardware x) of
        (Some err, x) \<Rightarrow> (Some err, p, x)
      | (None, x) \<Rightarrow>
          let p = p\<lparr>pc_connectedHardware := pc_connectedHardware p @ [hardware]\<rparr>
          in case hardwareParameter api hardware pcanHardwareParamMode x of
               (Inl err, x) \<Rightarrow> (Some err, p, x)
             | (Inr currentMode, x) \<Rightarrow>
                 (case hardwareParameter api hardware pcanHardwareParamBaudrate x of
                    (Inl err, x) \<Rightarrow> (Some err, p, x)
                  | (Inr currentBaudrate, x) \<Rightarrow>
                      let (err, x) =
                        (if currentMode \<noteq> uint (pc_mode p) \<or> currentBaudrate \<noteq> uint (pc_baudrate p)
                         then pcanCall ''LIN_InitializeHardware''
                                (lin_InitializeHardware api (pc_client p) hardware (pc_mode p) (pc_baudrate p) x)
                         else (None, x))
                      in case err of
                           Some err \<Rightarrow> (Some err, p, x)
                         | None \<Rightarrow>
                             (case pcanCall ''LIN_SetClientFilter''
                                     (lin_SetClientFilter api (pc_client p) hardware (NOT 0) x) of
                                (Some err, x) \<Rightarrow> (Some err, p, x)
                              | (None, x) \<Rightarrow> (None, p, x))))"

fun connect_channels :: "'x PLIN \<Rightarrow> Channel list \<Rightarrow> PCAN \<Rightarrow> 'x \<Rightarrow> error option \<times> PCAN \<times> 'x" where
  "connect_channels api [] p x = (None, p, x)"
| "connect_channels api (channel # cs) p x =
     (let hardware = (case pc_hardwareByChannel p channel of None \<Rightarrow> 0 | Some h \<Rightarrow> h)
      in case connectAndInitialize api hardware p x of
           (Some err, p, x) \<Rightarrow>
             (Some (Wrapped ''initialize PCAN channel'' [uint channel, uint hardware] err), p, x)
         | (None, p, x) \<Rightarrow> connect_channels api cs p x)"

text \<open>
  \<open>Close\<close> releases the handles in ascending order; the errors of all steps are joined (the list
  is empty when the joined error is nil).
\<close>

fun disconnect_all :: "'x PLIN \<Rightarrow> byte \<Rightarrow> u16 list \<Rightarrow> 'x \<Rightarrow> error list \<times> 'x" where
  "disconnect_all api client [] x = ([], x)"
| "disconnect_all api client (hardware # hs) x =
     (let (err, x) = pcanCall ''LIN_DisconnectClient'' (lin_DisconnectClient api client hardware x);
          (errs, x) = disconnect_all api client hs x
      in (case err of Some e \<Rightarrow> e # errs | None \<Rightarrow> errs, x))"

definition PCAN_Close :: "'x PLIN \<Rightarrow> PCAN \<Rightarrow> 'x \<Rightarrow> error list \<times> PCAN \<times> 'x" where
  "PCAN_Close api p x =
     (if pc_closeOnce p then (pc_closeErr p, p, x)
      else
        let p = p\<lparr>pc_closeOnce := True, pc_closed := True\<rparr>;
            (errs, p, x) =
              (if pc_api p \<and> pc_client p \<noteq> 0 then
                 let handles = sort (pc_connectedHardware p);
                     (errs, x) = disconnect_all api (pc_client p) handles x;
                     (err, x) = pcanCall ''LIN_RemoveClient'' (lin_RemoveClient api (pc_client p) x);
                     errs = (case err of Some e \<Rightarrow> errs @ [e] | None \<Rightarrow> errs)
                 in (errs, p\<lparr>pc_client := 0\<rparr>, x)
               else ([], p, x));
            (errs, p, x) =
              (if pc_api p then
                 let (err, x) = lin_FreeLibrary api x;
                     errs = (case err of Some e \<Rightarrow> errs @ [Wrapped ''unload PLinApi.dll'' [] e] | None \<Rightarrow> errs)
                 in (errs, p\<lparr>pc_api := False\<rparr>, x)
               else (errs, p, x));
            p = p\<lparr>pc_closeErr := errs\<rparr>
        in (pc_closeErr p, p, x))"

text \<open>The deferred cleanup closes the driver on every error path.\<close>

definition NewPCANWithConfig :: "'x PLIN \<Rightarrow> PCANConfig \<Rightarrow> 'x \<Rightarrow> (error + PCAN) \<times> 'x" where
  "NewPCANWithConfig api config x =
     (case normalizePCANConfig config of
        Inl err \<Rightarrow> (Inl err, x)
      | Inr normalized \<Rightarrow>
          let p = \<lparr>pc_api = True, pc_client = 0, pc_mode = pcfg_Mode normalized,
                   pc_baudrate = Baudrate normalized, pc_closed = False, pc_closeOnce = False,
                   pc_hardwareByChannel = (\<lambda>_. None), pc_channelByHardware = (\<lambda>_. None),
                   pc_connectedHardware = [], pc_eventChans = (\<lambda>_. None), pc_closeErr = [],
                   pc_masterReadLocks = \<lparr>locks = (\<lambda>_. None)\<rparr>\<rparr>;
              cleanup = (\<lambda>err p x. (Inl err, snd (snd (PCAN_Close api p x))))
          in case register_client api (ClientName normalized) p x of
               (Some err, p, x) \<Rightarrow> cleanup err p x
             | (None, p, x) \<Rightarrow>
                 (case availableHardware api x of
                    (Inl err, x) \<Rightarrow> cleanup err p x
                  | (Inr available, x) \<Rightarrow>
                      (case mapHardware normalized available p of
                         (Some err, p) \<Rightarrow> cleanup err p x
                       | (None, p) \<Rightarrow>
                           (case connect_channels api (Channels normalized) p x of
                              (Some err, p, x) \<Rightarrow> cleanup err p x
                            | (None, p, x) \<Rightarrow> (Inr p, x)))))"

definition NewPCAN :: "'x PLIN \<Rightarrow> Channel list \<Rightarrow> 'x \<Rightarrow> (error + PCAN) \<times> 'x" where
  "NewPCAN api channels x = NewPCANWithConfig api (DefaultPCANConfig channels) x"

subsection \<open>Checks\<close>

definition validateChannelStateOnly :: "PCAN \<Rightarrow> error option" where
  "validateChannelStateOnly p =
     (if pc_closed p \<or> \<not> pc_api p \<or> pc_client p = 0 then Some ErrDriverClosed else None)"

definition validateChannel :: "Channel \<Rightarrow> PCAN \<Rightarrow> error option" where
  "validateChannel channel p =
     (if pc_closed p \<or> \<not> pc_api p \<or> pc_client p = 0 then Some ErrDriverClosed
      else if pc_hardwareByChannel p channel = None
      then Some (Wrapped '''' [uint channel] ErrInvalidChannel) else None)"

definition validateModeAndChannel :: "PCANMode \<Rightarrow> Channel \<Rightarrow> PCAN \<Rightarrow> error option" where
  "validateModeAndChannel mode channel p =
     (case validateChannel channel p of
        Some err \<Rightarrow> Some err
      | None \<Rightarrow>
          if pc_mode p \<noteq> mode
          then Some (ErrorText ''PCAN channel is initialized in another mode''
                      [uint channel, uint (pc_mode p), uint mode])
          else None)"

definition validatePCANEvent :: "LinEvent option \<Rightarrow> error option" where
  "validatePCANEvent event =
     (case event of
        None \<Rightarrow> Some (ErrorText ''nil LIN event'' [])
      | Some e \<Rightarrow>
          if EventID e > 0x3F then Some (ErrorText ''invalid LIN frame ID'' [uint (EventID e)])
          else if length (EventPayload e) = 0 \<or> length (EventPayload e) > 8
          then Some (ErrorText ''invalid LIN payload length'' [int (length (EventPayload e))])
          else None)"

definition pcanChecksumType :: "byte \<Rightarrow> ChecksumType \<Rightarrow> byte" where
  "pcanChecksumType frameID checksum =
     (if frameID = 0x3C \<or> frameID = 0x3D \<or> checksum = ClassicChecksum then pcanChecksumClassic
      else pcanChecksumEnhanced)"

definition defaultPCANFrameLength :: "byte \<Rightarrow> byte" where
  "defaultPCANFrameLength frameID =
     (if frameID = 0x3C \<or> frameID = 0x3D then 8
      else if frameID \<le> 0x1F then 2
      else if frameID \<le> 0x2F then 4
      else 8)"

definition protectedLINID :: "byte \<Rightarrow> byte" where
  "protectedLINID frameID =
     (let i = frameID AND 0x3F;
          p0 = (drop_bit 0 i XOR drop_bit 1 i XOR drop_bit 2 i XOR drop_bit 4 i) AND 1;
          p1 = NOT (drop_bit 1 i XOR drop_bit 3 i XOR drop_bit 4 i XOR drop_bit 5 i) AND 1
      in i OR push_bit 6 p0 OR push_bit 7 p1)"

subsection \<open>Events\<close>

definition eventChannel :: "Channel \<Rightarrow> PCAN \<Rightarrow> LinEvent chan \<times> PCAN" where
  "eventChannel channel p =
     (let (q, qs) = queue_at pcanEventQueueSize channel (pc_eventChans p)
      in (q, p\<lparr>pc_eventChans := qs\<rparr>))"

definition enqueueEvent :: "Channel \<Rightarrow> LinEvent \<Rightarrow> PCAN \<Rightarrow> PCAN" where
  "enqueueEvent channel event p =
     p\<lparr>pc_eventChans := queue_put pcanEventQueueSize channel event (pc_eventChans p)\<rparr>"

text \<open>The next event of a channel's queue, if any.\<close>

definition dequeueEvent :: "Channel \<Rightarrow> PCAN \<Rightarrow> LinEvent option \<times> PCAN" where
  "dequeueEvent channel p =
     (let (event, qs) = queue_get pcanEventQueueSize channel (pc_eventChans p)
      in (event, p\<lparr>pc_eventChans := qs\<rparr>))"

text \<open>A result of \<open>readOne\<close>: a message, an empty queue, or an error.\<close>

definition readOne :: "'x PLIN \<Rightarrow> PCAN \<times> 'x \<Rightarrow> (error + pcanReceiveMessage option) \<times> PCAN \<times> 'x" where
  "readOne api s =
     (let (p, x) = s
      in case validateChannelStateOnly p of
           Some err \<Rightarrow> (Inl err, p, x)
         | None \<Rightarrow>
             let (code, message, x) = lin_Read api (pc_client p) x
             in if code = pcanErrorReceiveQueueEmpty then (Inr None, p, x)
                else if code \<noteq> pcanErrorOK
                then (Inl (Wrapped ''LIN_Read'' [] (PCANError code)), p, x)
                else (Inr (Some message), p, x))"

definition pcanEvent :: "int \<Rightarrow> pcanReceiveMessage \<Rightarrow> Channel \<Rightarrow> LinEvent" where
  "pcanEvent now message channel =
     (let len = min (unat (r_Length message)) 8;
          direction = (if r_Direction message = pcanDirectionPublisher then TX else RX);
          checksum = (if r_ChecksumType message = pcanChecksumClassic then ClassicChecksum
                      else EnhancedChecksum)
      in \<lparr>ev_Channel = channel, EventID = r_FrameID message AND 0x3F,
          EventPayload = take len (r_Data message), ev_ChecksumType = checksum,
          ev_Direction = direction, ev_Timestamp = now\<rparr>)"

text \<open>
  The body of the loop of \<open>ReadEvent\<close>: take a queued event, or else one message of the adapter,
  which may be of another channel, and wait before the next poll when there is a timeout.
\<close>

definition pcan_round ::
    "'x PLIN \<Rightarrow> int \<Rightarrow> Channel \<Rightarrow> int \<Rightarrow> PCAN \<times> 'x \<Rightarrow>
     ((error + LinEvent option) \<times> PCAN \<times> 'x) + PCAN \<times> 'x" where
  "pcan_round api timeout channel deadline s =
     (let (p, x) = s
      in case dequeueEvent channel p of
        (Some event, p) \<Rightarrow> Inl (Inr (Some event), p, x)
      | (None, p) \<Rightarrow>
          if timeout > 0 \<and> \<not> lin_now api x < deadline then Inl (Inr None, p, x)
          else
            (case readOne api (p, x) of
               (Inl err, p, x) \<Rightarrow> Inl (Inl err, p, x)
             | (Inr (Some message), p, x) \<Rightarrow>
                 if r_Type message \<noteq> pcanMessageTypeStandard then Inr (p, x)
                 else
                   (case pc_channelByHardware p (r_Hardware message) of
                      None \<Rightarrow> Inr (p, x)
                    | Some messageChannel \<Rightarrow>
                        if r_ErrorFlags message \<noteq> 0 then Inr (p, x)
                        else
                          let event = pcanEvent (lin_now api x) message messageChannel
                          in if messageChannel = channel then Inl (Inr (Some event), p, x)
                             else Inr (enqueueEvent messageChannel event p, x))
             | (Inr None, p, x) \<Rightarrow>
                 if timeout \<le> 0 then Inl (Inr None, p, x)
                 else
                   let remaining = deadline - lin_now api x
                   in if remaining \<le> 0 then Inl (Inr None, p, x)
                      else
                        let wait = min remaining pcanReadPollDelay
                        in Inr (p, lin_sleep api wait x)))"

definition pcan_ReadEvent ::
    "'x PLIN \<Rightarrow> int \<Rightarrow> Channel \<Rightarrow> PCAN \<times> 'x \<Rightarrow> ((error + LinEvent option) \<times> PCAN \<times> 'x) option" where
  "pcan_ReadEvent api timeout channel s =
     (case validateChannel channel (fst s) of
        Some err \<Rightarrow> Some (Inl err, s)
      | None \<Rightarrow>
          let p = snd (eventChannel channel (fst s));
              deadline = lin_now api (snd s) + timeout
          in loop (pcan_round api timeout channel deadline) (p, snd s))"

subsection \<open>Frames\<close>

definition pcan_write :: "'x PLIN \<Rightarrow> pcanMessage \<Rightarrow> Channel \<Rightarrow> PCAN \<times> 'x \<Rightarrow> error option \<times> PCAN \<times> 'x" where
  "pcan_write api message channel s =
     (let (p, x) = s
      in case validateChannelStateOnly p of
           Some err \<Rightarrow> (Some err, p, x)
         | None \<Rightarrow>
             (case pc_hardwareByChannel p channel of
                None \<Rightarrow> (Some (Wrapped '' '' [uint channel] ErrInvalidChannel), p, x)
              | Some hardware \<Rightarrow>
                  let (code, message, x) = lin_CalculateChecksum api message x
                  in case pcanCall ''LIN_CalculateChecksum'' (code, x) of
                       (Some err, x) \<Rightarrow> (Some err, p, x)
                     | (None, x) \<Rightarrow>
                         (case pcanCall ''LIN_Write'' (lin_Write api (pc_client p) hardware message x) of
                            (Some err, x) \<Rightarrow> (Some err, p, x)
                          | (None, x) \<Rightarrow> (None, p, x))))"

definition pcan_WriteMessage ::
    "'x PLIN \<Rightarrow> LinEvent option \<Rightarrow> Channel \<Rightarrow> PCAN \<times> 'x \<Rightarrow> error option \<times> PCAN \<times> 'x" where
  "pcan_WriteMessage api event channel s =
     (case validatePCANEvent event of
        Some err \<Rightarrow> (Some err, s)
      | None \<Rightarrow>
          (case validateModeAndChannel PCANMaster channel (fst s) of
             Some err \<Rightarrow> (Some err, s)
           | None \<Rightarrow>
               let e = the event;
                   message =
                     \<lparr>m_FrameID = protectedLINID (EventID e),
                      m_Length = of_nat (length (EventPayload e)),
                      m_Direction = pcanDirectionPublisher,
                      m_ChecksumType = pcanChecksumType (EventID e) (ev_ChecksumType e),
                      m_Data = copy_at 0 (EventPayload e) (replicate 8 0), m_Checksum = 0\<rparr>
               in case pcan_write api message channel s of
                    (Some err, s) \<Rightarrow> (Some err, s)
                  | (None, p, x) \<Rightarrow>
                      let txEvent = e\<lparr>ev_Channel := channel, ev_Direction := TX,
                                      ev_Timestamp := lin_now api x\<rparr>
                      in (None, enqueueEvent channel txEvent p, x)))"

definition pcan_RequestSlaveResponse ::
    "'x PLIN \<Rightarrow> byte \<Rightarrow> Channel \<Rightarrow> PCAN \<times> 'x \<Rightarrow> error option \<times> PCAN \<times> 'x" where
  "pcan_RequestSlaveResponse api frameID channel s =
     (if frameID > 0x3F then (Some (ErrorText ''invalid LIN frame ID'' [uint frameID]), s)
      else case validateModeAndChannel PCANMaster channel (fst s) of
             Some err \<Rightarrow> (Some err, s)
           | None \<Rightarrow>
               let message =
                     \<lparr>m_FrameID = protectedLINID frameID, m_Length = defaultPCANFrameLength frameID,
                      m_Direction = pcanDirectionSubscriber,
                      m_ChecksumType = pcanChecksumType frameID EnhancedChecksum,
                      m_Data = replicate 8 0, m_Checksum = 0\<rparr>
               in case pcan_write api message channel s of
                    (Some err, s) \<Rightarrow> (Some err, s)
                  | (None, s) \<Rightarrow> (None, s))"

definition pcan_ScheduleSlaveResponse ::
    "'x PLIN \<Rightarrow> LinEvent option \<Rightarrow> Channel \<Rightarrow> PCAN \<times> 'x \<Rightarrow> error option \<times> PCAN \<times> 'x" where
  "pcan_ScheduleSlaveResponse api event channel s =
     (case validatePCANEvent event of
        Some err \<Rightarrow> (Some err, s)
      | None \<Rightarrow>
          (case validateModeAndChannel PCANSlave channel (fst s) of
             Some err \<Rightarrow> (Some err, s)
           | None \<Rightarrow>
               let e = the event;
                   entry =
                     \<lparr>e_FrameID = EventID e, e_Length = of_nat (length (EventPayload e)),
                      e_Direction = pcanDirectionPublisher,
                      e_ChecksumType = pcanChecksumType (EventID e) (ev_ChecksumType e),
                      e_Flags = pcanFrameFlagResponseEnable OR pcanFrameFlagSingleShot,
                      e_InitialData = copy_at 0 (EventPayload e) (replicate 8 0)\<rparr>;
                   (p, x) = s
               in case validateChannelStateOnly p of
                    Some err \<Rightarrow> (Some err, p, x)
                  | None \<Rightarrow>
                      (case pc_hardwareByChannel p channel of
                         None \<Rightarrow> (Some (Wrapped '' '' [uint channel] ErrInvalidChannel), p, x)
                       | Some hardware \<Rightarrow>
                           (case pcanCall ''LIN_SetFrameEntry''
                                   (lin_SetFrameEntry api (pc_client p) hardware entry x) of
                              (Some err, x) \<Rightarrow> (Some err, p, x)
                            | (None, x) \<Rightarrow>
                                (case pcanCall ''LIN_UpdateByteArray''
                                        (lin_UpdateByteArray api (pc_client p) hardware (EventID e)
                                           (take (length (EventPayload e)) (e_InitialData entry)) x) of
                                   (Some err, x) \<Rightarrow> (Some err, p, x)
                                 | (None, x) \<Rightarrow> (None, p, x))))))"

subsection \<open>Master read, information, reset\<close>

text \<open>
  The driver as the transport sees it.
\<close>

definition pcan_driver :: "'x PLIN \<Rightarrow> (PCAN \<times> 'x) Driver" where
  "pcan_driver api =
     \<lparr>ReadEvent = pcan_ReadEvent api,
      WriteMessage = pcan_WriteMessage api,
      ScheduleSlaveResponse = pcan_ScheduleSlaveResponse api,
      RequestSlaveResponse = pcan_RequestSlaveResponse api\<rparr>"

definition pcan_MasterRead ::
    "'x PLIN \<Rightarrow> byte \<Rightarrow> Channel \<Rightarrow> PCAN \<times> 'x \<Rightarrow> ((error + byte list) \<times> PCAN \<times> 'x) option" where
  "pcan_MasterRead api frameID channel s =
     (case lock channel (pc_masterReadLocks (fst s)) of
        None \<Rightarrow> None
      | Some m \<Rightarrow>
          (case readMasterResponse (\<lambda>s. lin_now api (snd s)) frameID channel masterReadTimeout
                  (pcan_RequestSlaveResponse api) (ReadEvent (pcan_driver api))
                  ((fst s)\<lparr>pc_masterReadLocks := m\<rparr>, snd s) of
             None \<Rightarrow> None
           | Some (r, p, x) \<Rightarrow>
               Some (r, p\<lparr>pc_masterReadLocks := unlock channel (pc_masterReadLocks p)\<rparr>, x)))"

definition HardwareHandles :: "PCAN \<Rightarrow> Channel \<Rightarrow> u16 option" where
  "HardwareHandles p = pc_hardwareByChannel p"

definition HardwareInfo :: "'x PLIN \<Rightarrow> Channel \<Rightarrow> PCAN \<times> 'x \<Rightarrow> (error + int \<times> int) \<times> PCAN \<times> 'x" where
  "HardwareInfo api channel s =
     (let (p, x) = s
      in case validateChannel channel p of
           Some err \<Rightarrow> (Inl err, p, x)
         | None \<Rightarrow>
             (case validateChannelStateOnly p of
                Some err \<Rightarrow> (Inl err, p, x)
              | None \<Rightarrow>
                  let hardware = the (pc_hardwareByChannel p channel)
                  in case hardwareParameterUnlocked api hardware pcanHardwareParamDeviceNumber x of
                       (Inl err, x) \<Rightarrow> (Inl err, p, x)
                     | (Inr deviceNumber, x) \<Rightarrow>
                         (case hardwareParameterUnlocked api hardware pcanHardwareParamChannelNumber x of
                            (Inl err, x) \<Rightarrow> (Inl err, p, x)
                          | (Inr hardwareChannel, x) \<Rightarrow> (Inr (deviceNumber, hardwareChannel), p, x))))"

definition PCAN_Reset :: "'x PLIN \<Rightarrow> PCAN \<times> 'x \<Rightarrow> error option \<times> PCAN \<times> 'x" where
  "PCAN_Reset api s =
     (let (p, x) = s
      in case validateChannelStateOnly p of
           Some err \<Rightarrow> (Some err, p, x)
         | None \<Rightarrow>
             (case pcanCall ''LIN_ResetClient'' (lin_ResetClient api (pc_client p) x) of
                (err, x) \<Rightarrow> (err, p, x)))"

subsection \<open>Protected identifiers\<close>

definition parity0 :: "byte \<Rightarrow> bool" where
  "parity0 f \<longleftrightarrow> odd (of_bool (bit f 0) + of_bool (bit f 1) + of_bool (bit f 2) + of_bool (bit f 4) :: nat)"

definition parity1 :: "byte \<Rightarrow> bool" where
  "parity1 f \<longleftrightarrow> even (of_bool (bit f 1) + of_bool (bit f 3) + of_bool (bit f 4) + of_bool (bit f 5) :: nat)"

lemma less8_cases: "n < (8 :: nat) \<Longrightarrow> n = 0 \<or> n = 1 \<or> n = 2 \<or> n = 3 \<or> n = 4 \<or> n = 5 \<or> n = 6 \<or> n = 7"
  by linarith

lemma bit_63: "bit (0x3F :: byte) n \<longleftrightarrow> n < 6"
proof -
  have m: "(0x3F :: byte) = mask 6" by (simp add: mask_eq_exp_minus_1)
  show ?thesis unfolding m bit_mask_iff by auto
qed

lemma bit_protectedLINID:
  assumes "n < 8"
  shows "bit (protectedLINID f) n = (if n < 6 then bit f n else if n = 6 then parity0 f else parity1 f)"
  using less8_cases [OF assms]
  by (elim disjE)
     (simp_all add: protectedLINID_def Let_def bit_simps bit_63 parity0_def parity1_def)

lemma parity0_xor: "parity0 f \<longleftrightarrow> (bit f 0 \<noteq> (bit f 1 \<noteq> (bit f 2 \<noteq> bit f 4)))"
  by (cases "bit f 0"; cases "bit f 1"; cases "bit f 2"; cases "bit f 4") (simp_all add: parity0_def)

lemma parity1_xor: "parity1 f \<longleftrightarrow> (bit f 1 = (bit f 3 \<noteq> (bit f 4 \<noteq> bit f 5)))"
  by (cases "bit f 1"; cases "bit f 3"; cases "bit f 4"; cases "bit f 5") (simp_all add: parity1_def)

lemma protectedLINID_iff:
  "protectedLINID q = q \<longleftrightarrow> bit q 6 = parity0 q \<and> bit q 7 = parity1 q"
proof
  assume "protectedLINID q = q"
  then show "bit q 6 = parity0 q \<and> bit q 7 = parity1 q"
    using bit_protectedLINID [of 6 q] bit_protectedLINID [of 7 q] by simp
next
  assume p: "bit q 6 = parity0 q \<and> bit q 7 = parity1 q"
  show "protectedLINID q = q"
  proof (rule bit_word_eqI)
    fix n
    assume "n < LENGTH(8)"
    then have "n < 8" by simp
    then show "bit (protectedLINID q) n = bit q n"
      using p less8_cases [of n] by (auto simp: bit_protectedLINID)
  qed
qed

lemma bit_flip: "n < 8 \<Longrightarrow> bit (q XOR push_bit i 1 :: byte) n = (bit q n \<noteq> (n = i))"
  by (auto simp: bit_simps)

lemma flip_detected:
  assumes "protectedLINID q = q" and "i < 8"
  shows "protectedLINID (q XOR push_bit i 1) \<noteq> q XOR push_bit i 1"
proof -
  define x where "x = q XOR push_bit i 1"
  have x: "bit x n = (bit q n \<noteq> (n = i))" if "n < 8" for n
    unfolding x_def using that by (rule bit_flip)
  have "\<not> (bit x 6 = parity0 x \<and> bit x 7 = parity1 x)"
    using assms(1) less8_cases [OF assms(2)]
    unfolding protectedLINID_iff parity0_xor parity1_xor by (elim disjE) (simp_all add: x, blast+)
  then show ?thesis unfolding x_def protectedLINID_iff by blast
qed

lemma parity_protected: "parity0 (protectedLINID f) = parity0 f" "parity1 (protectedLINID f) = parity1 f"
  by (simp_all add: parity0_def parity1_def bit_protectedLINID)

lemma protectedLINID_idem: "protectedLINID (protectedLINID f) = protectedLINID f"
  unfolding protectedLINID_iff parity_protected by (simp add: bit_protectedLINID)

lemma protectedLINID_low: "protectedLINID f AND 0x3F = f AND 0x3F"
proof (rule bit_word_eqI)
  fix n
  assume n: "n < LENGTH(8)"
  then show "bit (protectedLINID f AND 0x3F) n = bit (f AND 0x3F) n"
    unfolding bit_and_iff bit_63 by (auto simp: bit_protectedLINID)
qed

text \<open>
  The protected identifier of a frame keeps the identifier in its low six bits and adds two parity
  bits, the exclusive or of bits 0, 1, 2 and 4 and the negated exclusive or of bits 1, 3, 4 and 5.
  Protecting twice changes nothing, and a protected identifier with any single bit flipped is
  not a protected identifier.
\<close>

theorem protectedLINID_parity:
  "protectedLINID f AND 0x3F = f AND 0x3F \<and>
   protectedLINID (protectedLINID f) = protectedLINID f \<and>
   bit (protectedLINID f) 6 =
     odd (of_bool (bit f 0) + of_bool (bit f 1) + of_bool (bit f 2) + of_bool (bit f 4) :: nat) \<and>
   bit (protectedLINID f) 7 =
     even (of_bool (bit f 1) + of_bool (bit f 3) + of_bool (bit f 4) + of_bool (bit f 5) :: nat) \<and>
   list_all (\<lambda>i. protectedLINID (protectedLINID f XOR push_bit i 1) \<noteq> protectedLINID f XOR push_bit i 1)
     [0..<8]"
  using protectedLINID_low protectedLINID_idem flip_detected [OF protectedLINID_idem]
  by (simp add: bit_protectedLINID parity0_def parity1_def list_all_iff)

subsection \<open>Configuration and mapping\<close>

definition pcan_config_ok :: "PCANConfig \<Rightarrow> bool" where
  "pcan_config_ok c \<longleftrightarrow>
     ClientName c \<noteq> [] \<and> CHR 0x00 \<notin> set (ClientName c) \<and>
     pcfg_Mode c \<in> {PCANMaster, PCANSlave} \<and> 1000 \<le> Baudrate c \<and> Baudrate c \<le> 20000 \<and>
     Channels c \<noteq> [] \<and> distinct (Channels c) \<and>
     list_all (\<lambda>ch. pcfg_HardwareHandles c ch \<noteq> Some 0) (Channels c)"

lemma check_channels_None:
  "check_channels handles seen cs = None \<longleftrightarrow>
   distinct cs \<and> set cs \<inter> seen = {} \<and> list_all (\<lambda>c. handles c \<noteq> Some 0) cs"
  by (induction cs arbitrary: seen) (auto simp: Let_def)

lemma normalizePCANConfig_id:
  assumes "pcan_config_ok c"
  shows "normalizePCANConfig c = Inr c"
proof -
  have "check_channels (pcfg_HardwareHandles c) {} (Channels c) = None"
    using assms by (simp add: check_channels_None pcan_config_ok_def)
  then show ?thesis
    using assms by (auto simp: normalizePCANConfig_def pcan_config_ok_def Let_def not_less)
qed

lemma normalizePCANConfig_ok:
  assumes "normalizePCANConfig c = Inr c'"
  shows "pcan_config_ok c'"
proof -
  define c1 where "c1 = (if ClientName c = [] then c\<lparr>ClientName := ''linbuskit''\<rparr> else c)"
  define c2 where "c2 = (if pcfg_Mode c1 = 0 then c1\<lparr>pcfg_Mode := PCANMaster\<rparr> else c1)"
  define c3 where "c3 = (if Baudrate c2 = 0 then c2\<lparr>Baudrate := 19200\<rparr> else c2)"
  define c4 where "c4 = (if Channels c3 = [] then c3\<lparr>Channels := [0]\<rparr> else c3)"
  have "normalizePCANConfig c =
      (if CHR 0x00 \<in> set (ClientName c1) then Inl (ErrorText ''PCAN client name contains a NUL byte'' [])
       else if pcfg_Mode c2 \<noteq> PCANMaster \<and> pcfg_Mode c2 \<noteq> PCANSlave
       then Inl (ErrorText ''invalid PCAN mode'' [uint (pcfg_Mode c2)])
       else if Baudrate c3 < pcanMinBaudrate \<or> Baudrate c3 > pcanMaxBaudrate
       then Inl (ErrorText ''invalid PCAN baudrate'' [uint (Baudrate c3)])
       else case check_channels (pcfg_HardwareHandles c4) {} (Channels c4) of
              Some err \<Rightarrow> Inl err | None \<Rightarrow> Inr c4)"
    unfolding normalizePCANConfig_def c1_def [symmetric] Let_def length_0_conv
      c2_def [symmetric] c3_def [symmetric] c4_def [symmetric] ..
  with assms have c': "c' = c4" and "CHR 0x00 \<notin> set (ClientName c1)"
    and "pcfg_Mode c2 = PCANMaster \<or> pcfg_Mode c2 = PCANSlave"
    and "\<not> Baudrate c3 < pcanMinBaudrate" and "\<not> Baudrate c3 > pcanMaxBaudrate"
    and "check_channels (pcfg_HardwareHandles c4) {} (Channels c4) = None"
    by (auto split: if_splits option.splits)
  moreover have "ClientName c4 = ClientName c1" "ClientName c1 \<noteq> []" "pcfg_Mode c4 = pcfg_Mode c2"
    "Baudrate c4 = Baudrate c3" "Channels c4 \<noteq> []"
    by (simp_all add: c1_def c2_def c3_def c4_def)
  ultimately show ?thesis
    unfolding c' pcan_config_ok_def check_channels_None by (auto simp: not_less)
qed

text \<open>
  Normalisation of a PCAN configuration yields a configuration that the adapter accepts, or an
  error. Its result has a client name without NUL bytes, one of the two modes, a bit rate from 1000
  to 20000, at least one channel, no channel twice and no explicit handle 0; it is a fixed point,
  and every configuration with these properties is returned unchanged.
\<close>

theorem normalizePCANConfig_correct:
  "(case normalizePCANConfig c of
      Inl err \<Rightarrow> \<not> pcan_config_ok c
    | Inr c' \<Rightarrow> pcan_config_ok c' \<and> normalizePCANConfig c' = Inr c') \<and>
   (pcan_config_ok c = (normalizePCANConfig c = Inr c))"
  using normalizePCANConfig_ok [of c] normalizePCANConfig_id
  by (auto split: sum.splits)

text \<open>A map of channels to hardware and its inverse.\<close>

definition hardware_bijection :: "PCAN \<Rightarrow> bool" where
  "hardware_bijection p \<longleftrightarrow>
     (\<forall>c h. pc_hardwareByChannel p c = Some h \<longleftrightarrow> pc_channelByHardware p h = Some c)"

text \<open>One round of the loop that succeeds takes a free, available handle.\<close>

lemma mapHardware_loop_Cons:
  assumes "mapHardware_loop config available used (channel # cs) p = (None, p')"
  shows "\<exists>handle \<in> set available. used handle = None \<and>
    mapHardware_loop config available (used(handle \<mapsto> channel)) cs
      (p\<lparr>pc_hardwareByChannel := (pc_hardwareByChannel p)(channel \<mapsto> handle),
         pc_channelByHardware := (pc_channelByHardware p)(handle \<mapsto> channel)\<rparr>) = (None, p')"
proof (cases "pcfg_HardwareHandles config channel")
  case None
  then have "unat channel < length available"
    using assms by (auto simp: Let_def split: if_splits)
  then show ?thesis
    using assms None by (intro bexI [of _ "available ! unat channel"]) (auto simp: Let_def split: option.splits)
next
  case (Some handle)
  then show ?thesis
    using assms by (intro bexI [of _ handle]) (auto simp: Let_def split: option.splits if_splits)
qed

lemma mapHardware_loop_correct:
  assumes "mapHardware_loop config available used cs p = (None, p')"
    and "distinct cs" and "dom (pc_hardwareByChannel p) \<inter> set cs = {}"
    and "used = pc_channelByHardware p" and "hardware_bijection p"
    and "ran (pc_hardwareByChannel p) \<subseteq> set available"
  shows "hardware_bijection p' \<and> dom (pc_hardwareByChannel p') = dom (pc_hardwareByChannel p) \<union> set cs \<and>
    ran (pc_hardwareByChannel p') \<subseteq> set available \<and>
    pc_api p' = pc_api p \<and> pc_client p' = pc_client p \<and> pc_mode p' = pc_mode p \<and>
    pc_closed p' = pc_closed p"
  using assms
proof (induction cs arbitrary: used p)
  case (Cons channel cs)
  from mapHardware_loop_Cons [OF Cons.prems(1)] obtain handle where
    h: "handle \<in> set available" and free: "used handle = None" and
    rest: "mapHardware_loop config available (used(handle \<mapsto> channel)) cs
      (p\<lparr>pc_hardwareByChannel := (pc_hardwareByChannel p)(channel \<mapsto> handle),
         pc_channelByHardware := (pc_channelByHardware p)(handle \<mapsto> channel)\<rparr>) = (None, p')"
    by blast
  let ?p = "p\<lparr>pc_hardwareByChannel := (pc_hardwareByChannel p)(channel \<mapsto> handle),
         pc_channelByHardware := (pc_channelByHardware p)(handle \<mapsto> channel)\<rparr>"
  have new: "pc_hardwareByChannel p channel = None" using Cons.prems(3) by (auto simp: domIff)
  have b: "hardware_bijection ?p"
    using Cons.prems(4,5) new free unfolding hardware_bijection_def
    by (auto split: if_splits) (metis option.distinct(1))+
  have r: "ran (pc_hardwareByChannel ?p) \<subseteq> set available"
    using Cons.prems(6) h new by simp
  have dm: "dom (pc_hardwareByChannel ?p) \<inter> set cs = {}"
    using Cons.prems(2,3) by auto
  have "hardware_bijection p' \<and>
      dom (pc_hardwareByChannel p') = dom (pc_hardwareByChannel ?p) \<union> set cs \<and>
      ran (pc_hardwareByChannel p') \<subseteq> set available \<and>
      pc_api p' = pc_api ?p \<and> pc_client p' = pc_client ?p \<and> pc_mode p' = pc_mode ?p \<and>
      pc_closed p' = pc_closed ?p"
    using Cons.prems(2,4) by (intro Cons.IH [OF rest _ dm _ b r]) simp_all
  then show ?case by auto
qed (auto simp: hardware_bijection_def)

text \<open>
  The mapping of logical channels to PCAN hardware is a bijection onto available handles. When it
  succeeds for a normalised configuration, exactly the configured channels are mapped, two
  channels never share a handle, the inverse map leads every handle back to its channel, and
  every handle is one the adapter listed.
\<close>

theorem mapHardware_bijective:
  assumes "pcan_config_ok config" and "mapHardware config available p = (None, p')"
    and "pc_hardwareByChannel p = (\<lambda>_. None)" and "pc_channelByHardware p = (\<lambda>_. None)"
  shows "hardware_bijection p' \<and> dom (pc_hardwareByChannel p') = set (Channels config) \<and>
    inj_on (pc_hardwareByChannel p') (set (Channels config)) \<and>
    ran (pc_hardwareByChannel p') \<subseteq> set available"
proof -
  have "hardware_bijection p" using assms(3,4) by (simp add: hardware_bijection_def)
  from mapHardware_loop_correct [OF assms(2) [unfolded mapHardware_def] _ _ _ this] assms(1,3,4)
  have m: "hardware_bijection p'" "dom (pc_hardwareByChannel p') = set (Channels config)"
    "ran (pc_hardwareByChannel p') \<subseteq> set available"
    by (simp_all add: pcan_config_ok_def)
  moreover have "inj_on (pc_hardwareByChannel p') (set (Channels config))"
  proof (rule inj_onI)
    fix c d
    assume "c \<in> set (Channels config)" "pc_hardwareByChannel p' c = pc_hardwareByChannel p' d"
    moreover from this obtain h where "pc_hardwareByChannel p' c = Some h" using m(2) by blast
    ultimately show "c = d" using m(1) unfolding hardware_bijection_def by (metis option.inject)
  qed
  ultimately show ?thesis by blast
qed

theorem mapHardware_bijective_witness:
  "\<exists>p p'. mapHardware (DefaultPCANConfig [0, 2]) [0x10, 0x11, 0x12] p = (None, p') \<and>
     pc_hardwareByChannel p' = [0 \<mapsto> 0x10, 2 \<mapsto> 0x12] \<and> hardware_bijection p'"
proof -
  define p :: PCAN where "p = \<lparr>pc_api = True, pc_client = 1, pc_mode = PCANMaster, pc_baudrate = 19200,
    pc_closed = False, pc_closeOnce = False, pc_hardwareByChannel = (\<lambda>_. None),
    pc_channelByHardware = (\<lambda>_. None), pc_connectedHardware = [], pc_eventChans = (\<lambda>_. None),
    pc_closeErr = [], pc_masterReadLocks = \<lparr>locks = (\<lambda>_. None)\<rparr>\<rparr>"
  let ?config = "DefaultPCANConfig [0, 2]"
  have map: "\<exists>p'. mapHardware ?config [0x10, 0x11, 0x12] p = (None, p') \<and>
      pc_hardwareByChannel p' = [0 \<mapsto> 0x10, 2 \<mapsto> 0x12]"
    by (simp add: mapHardware_def DefaultPCANConfig_def p_def Let_def)
  have ok: "pcan_config_ok ?config" by (simp add: pcan_config_ok_def DefaultPCANConfig_def)
  have p: "pc_hardwareByChannel p = (\<lambda>_. None)" "pc_channelByHardware p = (\<lambda>_. None)"
    by (simp_all add: p_def)
  show ?thesis using map mapHardware_bijective [OF ok _ p] by blast
qed

end
