(* ===== verification/Pcan_Properties.thy ===== *)
theory Pcan_Properties
  imports Pcan
begin

section \<open>What the PCAN driver guarantees\<close>

text \<open>
  Reads end when the adapter runs dry and report only valid frames of the channel asked for, over
  any vendor library; so the driver is a \<open>frame_driver\<close> of the transport. Opening a driver makes
  exactly the configured channels ready, and closing it is final.
\<close>

subsection \<open>Reads\<close>

text \<open>One poll of the receive queue of a client.\<close>

definition plin_poll :: "'x PLIN \<Rightarrow> byte \<Rightarrow> 'x \<Rightarrow> bool \<times> 'x" where
  "plin_poll api client x = (let (code, message, x) = lin_Read api client x in (code = pcanErrorOK, x))"

definition plin_runs_dry :: "'x PLIN \<Rightarrow> ('x \<Rightarrow> nat) \<Rightarrow> bool" where
  "plin_runs_dry api backlog \<longleftrightarrow>
     (\<forall>client. runs_dry (lin_now api) (lin_sleep api) (plin_poll api client) backlog)"

lemma readOne_state:
  "readOne api (p, x) = (r, p', x') \<Longrightarrow> p' = p \<and>
   (r = Inr None \<longrightarrow> (\<exists>b. plin_poll api (pc_client p) x = (b, x'))) \<and>
   (\<forall>m. r = Inr (Some m) \<longrightarrow> plin_poll api (pc_client p) x = (True, x'))"
  by (auto simp: readOne_def plin_poll_def Let_def split: option.splits prod.splits if_splits)

abbreviation (input) pcan_good :: "PCAN \<Rightarrow> bool" where
  "pcan_good p \<equiv> all_queued lin_frame (pc_eventChans p)"

definition pcan_waiting :: "('x \<Rightarrow> nat) \<Rightarrow> Channel \<Rightarrow> PCAN \<times> 'x \<Rightarrow> nat" where
  "pcan_waiting backlog c s = length (queued (pc_eventChans (fst s)) c) + backlog (snd s)"

lemma pcanEvent_frame: "lin_frame c (pcanEvent now m c)"
  by (simp add: lin_frame_def pcanEvent_def Let_def word_and_le1)

lemma dequeueEvent_good:
  "pcan_good p \<Longrightarrow> dequeueEvent c p = (r, p') \<Longrightarrow> pcan_good p' \<and> (\<forall>e. r = Some e \<longrightarrow> lin_frame c e)"
  by (auto simp: dequeueEvent_def Let_def dest: all_queued_get split: prod.splits)

lemma dequeueEvent_None:
  "dequeueEvent c p = (None, p') \<Longrightarrow>
   queued (pc_eventChans p) c = [] \<and> queued (pc_eventChans p') c = [] \<and> pc_client p' = pc_client p"
  by (auto simp: dequeueEvent_def Let_def dest: queue_get_None [of _ _ _ _ c] split: prod.splits)

text \<open>The rounds of the read loop, by what they do.\<close>

lemma pcan_round_cases:
  assumes "pcan_round api timeout c deadline (p, x) = z"
  obtains (queued) e q where "dequeueEvent c p = (Some e, q)" "z = Inl (Inr (Some e), q, x)"
  | (late) q where "dequeueEvent c p = (None, q)" "0 < timeout" "deadline \<le> lin_now api x"
      "z = Inl (Inr None, q, x)"
  | (error) q err x' where "dequeueEvent c p = (None, q)" "z = Inl (Inl err, q, x')"
  | (frame) q m x' where "dequeueEvent c p = (None, q)" "plin_poll api (pc_client p) x = (True, x')"
      "z = Inl (Inr (Some (pcanEvent (lin_now api x') m c)), q, x')"
  | (skip) q x' where "dequeueEvent c p = (None, q)" "plin_poll api (pc_client p) x = (True, x')"
      "z = Inr (q, x')"
  | (other) q m ch x' where "dequeueEvent c p = (None, q)" "plin_poll api (pc_client p) x = (True, x')"
      "ch \<noteq> c" "z = Inr (enqueueEvent ch (pcanEvent (lin_now api x') m ch) q, x')"
  | (empty) q x' where "dequeueEvent c p = (None, q)" "timeout \<le> 0 \<or> deadline \<le> lin_now api x'"
      "z = Inl (Inr None, q, x')"
  | (sleep) b q x' where "dequeueEvent c p = (None, q)" "plin_poll api (pc_client p) x = (b, x')"
      "lin_now api x' < deadline"
      "z = Inr (q, lin_sleep api (min (deadline - lin_now api x') pcanReadPollDelay) x')"
proof -
  obtain d q where d: "dequeueEvent c p = (d, q)" by fastforce
  obtain r q' x' where r: "readOne api (q, x) = (r, q', x')" by (metis prod_cases3)
  note one = readOne_state [OF r]
  note unfolded = assms [unfolded pcan_round_def Let_def prod.case d, symmetric]
  show thesis
  proof (cases "d \<noteq> None \<or> timeout > 0 \<and> \<not> lin_now api x < deadline")
    case True
    then show thesis
    proof (cases d)
      case None
      then show thesis using late True unfolded d by (simp add: not_less)
    next
      case (Some e)
      then show thesis using queued unfolded d by simp
    qed
  next
    case False
    then have dn: "d = None" and t: "(0 < timeout \<and> \<not> lin_now api x < deadline) = False" by auto
    note dq = d [unfolded dn]
    have port: "pc_client q = pc_client p" using dequeueEvent_None [OF dq] by simp
    note body = unfolded [unfolded dn option.case t if_False r prod.case]
    show thesis
    proof (cases r rule: read_result_cases)
      case (err e)
      then show thesis using error [OF dq, of e x'] one body by simp
    next
      case (event m)
      then have poll: "plin_poll api (pc_client p) x = (True, x')" and q': "q' = q"
        using one port by simp_all
      show thesis
      proof (cases "r_Type m \<noteq> pcanMessageTypeStandard \<or> r_ErrorFlags m \<noteq> 0")
        case True
        then show thesis
          using skip [OF dq poll] body by (auto simp: event q' split: option.splits if_splits)
      next
        case ok: False
        then show thesis
          using skip [OF dq poll] frame [OF dq poll] other [OF dq poll] body
          by (cases "pc_channelByHardware q (r_Hardware m)")
             (auto simp: event q' split: if_splits)
      qed
    next
      case empty
      then obtain b where "plin_poll api (pc_client p) x = (b, x')" using one port by auto
      then show thesis
        using \<open>\<And>q x'. dequeueEvent c p = (None, q) \<Longrightarrow> timeout \<le> 0 \<or> deadline \<le> lin_now api x' \<Longrightarrow>
            z = Inl (Inr None, q, x') \<Longrightarrow> thesis\<close> [OF dq] sleep [OF dq] body one
        by (auto simp: empty split: if_splits)
    qed
  qed
qed

lemma pcan_round_good:
  assumes "pcan_round api timeout c deadline (p, x) = z" and "pcan_good p"
  shows "case z of Inl (r, p', x') \<Rightarrow> pcan_good p' \<and> (\<forall>ev. r = Inr (Some ev) \<longrightarrow> lin_frame c ev)
    | Inr (p', x') \<Rightarrow> pcan_good p'"
proof -
  have good: "pcan_good q" "d = Some e \<Longrightarrow> lin_frame c e" if "dequeueEvent c p = (d, q)" for d q e
    using dequeueEvent_good [OF assms(2) that] by blast+
  from assms(1) show ?thesis
    by (cases rule: pcan_round_cases)
       (auto simp: enqueueEvent_def all_queued_put pcanEvent_frame dest: good)
qed

lemma pcan_round_time:
  assumes dry: "plin_runs_dry api backlog" and round: "pcan_round api timeout c deadline (p, x) = z"
  shows "case z of
      Inl (r, p', x') \<Rightarrow> \<forall>ev. r = Inr (Some ev) \<longrightarrow> lin_now api x \<le> lin_now api x' \<and>
        (lin_now api x' = lin_now api x \<longrightarrow> pcan_waiting backlog c (p', x') < pcan_waiting backlog c (p, x))
    | Inr (p', x') \<Rightarrow> lin_now api x < lin_now api x' \<and> lin_now api x < deadline \<or>
        lin_now api x \<le> lin_now api x' \<and> pcan_waiting backlog c (p', x') < pcan_waiting backlog c (p, x)"
proof -
  have run: "runs_dry (lin_now api) (lin_sleep api) (plin_poll api (pc_client p)) backlog"
    using dry by (simp add: plin_runs_dry_def)
  have poll: "lin_now api x \<le> lin_now api x'" "b \<Longrightarrow> backlog x' < backlog x"
    if "plin_poll api (pc_client p) x = (b, x')" for b x'
    using runs_dryD(1,2) [OF run] that by auto
  note slept = runs_dryD(3) [OF run]
  have empty: "queued (pc_eventChans p) c = []" "queued (pc_eventChans q) c = []"
    if "dequeueEvent c p = (None, q)" for q
    using dequeueEvent_None [OF that] by simp_all
  have one: "length (queued (pc_eventChans q) c) < length (queued (pc_eventChans p) c)"
    if "dequeueEvent c p = (Some e, q)" for e q
    using that queue_get_Some by (fastforce simp: dequeueEvent_def Let_def split: prod.splits)
  from round show ?thesis
  proof (cases rule: pcan_round_cases)
    case (sleep b q x')
    let ?w = "min (deadline - lin_now api x') pcanReadPollDelay"
    have "lin_now api x' < lin_now api (lin_sleep api ?w x')"
      using sleep by (intro slept) simp
    then show ?thesis using sleep poll(1) [of b x'] by simp
  qed (auto simp: pcan_waiting_def enqueueEvent_def queued_put_other empty poll(2) dest: poll(1) one)
qed

interpretation pcan_reads: polling "plin_runs_dry api backlog" "\<lambda>s. lin_now api (snd s)"
  "pcan_waiting backlog" "\<lambda>s. pcan_good (fst s)" lin_frame "pcan_round api" for api backlog
proof
  fix timeout c deadline and s s' :: "PCAN \<times> 'a" and r :: "error + LinEvent option" and ev
  obtain p x where s: "s = (p, x)" by (cases s)
  note good = pcan_round_good [of api timeout c deadline p x, folded s]
  note time = pcan_round_time [of api backlog timeout c deadline p x, folded s]
  show "pcan_good (fst s')"
    if "pcan_round api timeout c deadline s = Inr s'" "pcan_good (fst s)"
    using good [OF that(1)] that(2) by (auto simp: s)
  show "pcan_good (fst s') \<and> (\<forall>ev. r = Inr (Some ev) \<longrightarrow> lin_frame c ev)"
    if "pcan_round api timeout c deadline s = Inl (r, s')" "pcan_good (fst s)"
    using good [OF that(1)] that(2) by (auto simp: s)
  show "deadline \<le> lin_now api (snd s')"
    if "pcan_round api timeout c deadline s = Inl (Inr None, s')" "0 < timeout"
    using that unfolding s by (cases rule: pcan_round_cases) auto
  show "lin_now api (snd s) < lin_now api (snd s') \<and> lin_now api (snd s) < deadline \<or>
      lin_now api (snd s) \<le> lin_now api (snd s') \<and> pcan_waiting backlog c s' < pcan_waiting backlog c s"
    if "plin_runs_dry api backlog" "pcan_round api timeout c deadline s = Inr s'"
    using time [OF that] by (auto simp: s)
  show "lin_now api (snd s) \<le> lin_now api (snd s') \<and>
      (lin_now api (snd s') = lin_now api (snd s) \<longrightarrow> pcan_waiting backlog c s' < pcan_waiting backlog c s)"
    if "plin_runs_dry api backlog" "pcan_round api timeout c deadline s = Inl (Inr (Some ev), s')"
    using time [OF that] by (auto simp: s)
qed

lemma pcan_ReadEvent_good:
  assumes "pcan_ReadEvent api timeout c s = Some (r, s')" and "pcan_good (fst s)"
  shows "pcan_good (fst s') \<and> (\<forall>e. r = Inr (Some e) \<longrightarrow> lin_frame c e)"
  using assms
  by (intro pcan_reads.polled_read_good [where q = "(snd (eventChannel c (fst s)), snd s)"
        and err = "validateChannel c (fst s)" and s = s])
     (simp_all add: pcan_ReadEvent_def [unfolded Let_def] eventChannel_def Let_def case_prod_beta)

lemma pcan_polled:
  "\<exists>err q. lin_now api (snd q) = lin_now api (snd s) \<and> pcan_waiting backlog c q = pcan_waiting backlog c s \<and>
    ReadEvent (pcan_driver api) timeout c s = (case err of Some err \<Rightarrow> Some (Inl err, s)
      | None \<Rightarrow> loop (pcan_round api timeout c (lin_now api (snd s) + timeout)) q)"
  by (intro exI [of _ "validateChannel c (fst s)"] exI [of _ "(snd (eventChannel c (fst s)), snd s)"])
     (simp add: pcan_driver_def pcan_ReadEvent_def [unfolded Let_def] pcan_waiting_def eventChannel_def
        Let_def case_prod_beta)

lemma pcan_timed:
  "plin_runs_dry api backlog \<Longrightarrow>
   timed_reader (\<lambda>s. lin_now api (snd s)) (ReadEvent (pcan_driver api)) (pcan_waiting backlog)"
  by (rule pcan_reads.polled_timed [OF _ pcan_polled])

subsection \<open>The driver under the transport\<close>

lemma pcan_WriteMessage_good:
  assumes "pcan_good (fst s)"
  shows "pcan_good (fst (snd (pcan_WriteMessage api event c s)))"
proof (cases event)
  case None
  then show ?thesis using assms by (simp add: pcan_WriteMessage_def validatePCANEvent_def)
next
  case (Some e)
  have keep: "fst (snd (pcan_write api m c s)) = fst s" for m
    by (auto simp: pcan_write_def Let_def split: option.splits prod.splits)
  show ?thesis
  proof (cases "validatePCANEvent event")
    case valid: None
    then have frame: "lin_frame c (e\<lparr>ev_Channel := c, ev_Direction := TX, ev_Timestamp := now\<rparr>)" for now
      by (auto simp: Some validatePCANEvent_def lin_frame_def  not_less split: if_splits)
    have put: "pcan_good (enqueueEvent c (e\<lparr>ev_Channel := c, ev_Direction := TX, ev_Timestamp := now\<rparr>) (fst s))" for now
      using assms frame by (simp add: enqueueEvent_def all_queued_put)
    show ?thesis
    proof (cases "validateModeAndChannel PCANMaster c (fst s)")
      case None
      let ?m = "\<lparr>m_FrameID = protectedLINID (EventID e),
                 m_Length = of_nat (length (EventPayload e)), m_Direction = pcanDirectionPublisher,
                 m_ChecksumType = pcanChecksumType (EventID e) (ev_ChecksumType e),
                 m_Data = copy_at 0 (EventPayload e) (replicate 8 0), m_Checksum = 0\<rparr>"
      obtain r p x where r: "pcan_write api ?m c s = (r, p, x)" by (metis prod_cases3)
      then show ?thesis
        using keep [of ?m] put assms valid None by (cases r) (simp_all add: pcan_WriteMessage_def Some Let_def)
    next
      case err: (Some err)
      then show ?thesis using assms valid by (simp add: pcan_WriteMessage_def)
    qed
  next
    case (Some err)
    then show ?thesis using assms by (simp add: pcan_WriteMessage_def)
  qed
qed

lemma pcan_other_good:
  "fst (snd (pcan_RequestSlaveResponse api i c s)) = fst s"
  "fst (snd (pcan_ScheduleSlaveResponse api event c s)) = fst s"
  by (auto simp: pcan_RequestSlaveResponse_def pcan_ScheduleSlaveResponse_def pcan_write_def Let_def
      split: option.splits prod.splits)

lemma pcan_driver_good:
  "pcan_good (fst s) \<Longrightarrow> ReadEvent (pcan_driver api) timeout c s = Some (r, s') \<Longrightarrow>
   pcan_good (fst s') \<and> (\<forall>ev. r = Inr (Some ev) \<longrightarrow> lin_frame c ev)"
  by (auto simp: pcan_driver_def dest: pcan_ReadEvent_good)

interpretation pcan_frames: frame_driver "pcan_driver api" "\<lambda>s. pcan_good (fst s)" for api
  by unfold_locales
     (auto simp: pcan_driver_def pcan_WriteMessage_good pcan_other_good lin_frame_def
       dest: pcan_driver_good [unfolded pcan_driver_def, simplified])

text \<open>An adapter without traffic: its clock moves only while a read sleeps.\<close>

definition silent_plin :: "int PLIN" where
  "silent_plin =
     \<lparr>lin_RegisterClient = \<lambda>name x. (0, 1, x), lin_RemoveClient = \<lambda>c x. (0, x),
      lin_ConnectClient = \<lambda>c h x. (0, x), lin_DisconnectClient = \<lambda>c h x. (0, x),
      lin_ResetClient = \<lambda>c x. (0, x), lin_SetClientFilter = \<lambda>c h m x. (0, x),
      lin_Read = \<lambda>c x. (pcanErrorReceiveQueueEmpty, \<lparr>r_Type = 0, r_FrameID = 0, r_Length = 0,
        r_Direction = 0, r_ChecksumType = 0, r_Data = [], r_Checksum = 0, r_ErrorFlags = 0,
        r_Timestamp = 0, r_Hardware = 0\<rparr>, x),
      lin_Write = \<lambda>c h m x. (0, x), lin_InitializeHardware = \<lambda>c h m b x. (0, x),
      lin_GetAvailableHardware = \<lambda>n x. (0, take n [0x10, 0x11], 2, x),
      lin_GetHardwareParam = \<lambda>h i x. (0, 0, x), lin_SetFrameEntry = \<lambda>c h e x. (0, x),
      lin_UpdateByteArray = \<lambda>c h i d x. (0, x), lin_CalculateChecksum = \<lambda>m x. (0, m, x),
      lin_FreeLibrary = \<lambda>x. (None, x), lin_now = \<lambda>x. x, lin_sleep = \<lambda>w x. x + w\<rparr>"

text \<open>
  C22: A read of the PCAN driver ends, on time and with a valid frame. Over any adapter that runs dry,
  that is, whose polls do not turn back the clock, whose messages are finitely many between two
  sleeps, and whose sleeps last, \<open>ReadEvent\<close> returns for every channel and timeout. An event it
  returns is of that channel, with an identifier of at most 0x3F and at most eight bytes, whatever
  the vendor library delivers; and it returns no event only when the timeout has passed. The queued
  events stay valid, as they are in a new driver.
\<close>

theorem pcan_ReadEvent_correct:
  assumes "plin_runs_dry api backlog" and "all_queued lin_frame (pc_eventChans p)"
  shows "\<exists>r p' x'. pcan_ReadEvent api timeout c (p, x) = Some (r, p', x') \<and>
    all_queued lin_frame (pc_eventChans p') \<and>
    (case r of
       Inr (Some ev) \<Rightarrow> ev_Channel ev = c \<and> EventID ev \<le> 0x3F \<and> length (EventPayload ev) \<le> 8
     | Inr None \<Rightarrow> timeout \<le> 0 \<or> lin_now api x + timeout \<le> lin_now api x'
     | Inl err \<Rightarrow> True)"
proof (cases "validateChannel c p")
  case None
  let ?s = "(snd (eventChannel c p), x)" and ?d = "lin_now api x + timeout"
  obtain r p' x' where l: "loop (pcan_round api timeout c ?d) ?s = Some (r, p', x')"
    using pcan_reads.read_returns [OF assms(1)] by (metis prod.collapse)
  then have run: "pcan_ReadEvent api timeout c (p, x) = Some (r, p', x')"
    using None by (simp add: pcan_ReadEvent_def)
  have late: "timeout \<le> 0 \<or> ?d \<le> lin_now api x'" if "r = Inr None"
    using pcan_reads.read_late [of api timeout c ?d ?s "(p', x')"] l that by fastforce
  show ?thesis
    using run late pcan_ReadEvent_good [OF run] assms(2)
    by (cases r rule: read_result_cases) (auto simp: lin_frame_def)
next
  case (Some err)
  then show ?thesis using assms(2) by (simp add: pcan_ReadEvent_def)
qed

text \<open>
  A master read of the PCAN driver ends and gives the channel back. Over an adapter that runs
  dry, when no other master read has locked the channel, \<open>MasterRead\<close> returns, unlocks the
  channel, and a payload it returns has at most eight bytes and was asked for by an identifier of at
  most 0x3F.
\<close>

theorem pcan_MasterRead_returns:
  assumes "plin_runs_dry api backlog" and "all_queued lin_frame (pc_eventChans p)"
    and "locks (pc_masterReadLocks p) c \<noteq> Some True"
  shows "\<exists>r p' x'. pcan_MasterRead api i c (p, x) = Some (r, p', x') \<and>
    locks (pc_masterReadLocks p') c = Some False \<and> all_queued lin_frame (pc_eventChans p') \<and>
    (\<forall>payload. r = Inr payload \<longrightarrow> i \<le> 0x3F \<and> length payload \<le> 8)"
proof -
  obtain m where m: "lock c (pc_masterReadLocks p) = Some m"
    using lock_free [OF assms(3)] by blast
  let ?read = "readMasterResponse (\<lambda>s. lin_now api (snd s)) i c masterReadTimeout
    (pcan_RequestSlaveResponse api) (ReadEvent (pcan_driver api))"
  let ?s = "(p\<lparr>pc_masterReadLocks := m\<rparr>, x)"
  obtain r p1 x1 where r: "?read ?s = Some (r, p1, x1)"
    using timed_reader.readMasterResponse_returns [OF pcan_timed [OF assms(1)]] by (metis prod.collapse)
  have "pcan_good (fst (p1, x1)) \<and> (\<forall>p. r = Inr p \<longrightarrow> (\<exists>ev. lin_frame c ev \<and> EventID ev = i \<and> p = EventPayload ev))"
    using assms(2) by (intro readMasterResponse_good [OF r, where good = "\<lambda>s. pcan_good (fst s)"])
      (simp_all add: pcan_driver_good pcan_other_good)
  then show ?thesis
    using r by (auto simp: pcan_MasterRead_def m unlock_def lin_frame_def)
qed

text \<open>
  C21: A transport over the PCAN driver keeps its reassembly consistent, whatever the adapter delivers:
  after every cycle the bytes received of an unfinished message are those of its first frame and of
  as many full consecutive frames as its counter says, together with the missing bytes they are
  between 6 and 4094, and every queued frame has at most eight bytes.
\<close>

theorem pcan_cycle_invariant:
  assumes "execute (pcan_driver api) clock t (p, x) = Some (err, t', p', x')"
    and "all_queued lin_frame (pc_eventChans p)" and "assembly_inv t" and "short_frames t"
  shows "assembly_inv t' \<and> short_frames t' \<and> all_queued lin_frame (pc_eventChans p')"
  using pcan_frames.execute_good [OF assms(1)] assms(2-4) by simp

text \<open>An adapter that delivers one frame, of hardware 0x10, and is then silent.\<close>

definition one_frame_plin :: "int PLIN" where
  "one_frame_plin =
     silent_plin\<lparr>lin_Read := \<lambda>c x. (if x = 0 then pcanErrorOK else pcanErrorReceiveQueueEmpty,
       \<lparr>r_Type = 0, r_FrameID = 0x7D, r_Length = 8, r_Direction = 2, r_ChecksumType = 1,
        r_Data = [1, 3, 0x62, 1, 2, 0xFF, 0xFF, 0xFF], r_Checksum = 0, r_ErrorFlags = 0,
        r_Timestamp = 0, r_Hardware = 0x10\<rparr>, 1)\<rparr>"

lemmas pcan_run = silent_plin_def one_frame_plin_def NewPCAN_def NewPCANWithConfig_def
  DefaultPCANConfig_def normalizePCANConfig_def register_client_def availableHardware_def
  mapHardware_def connectAndInitialize_def hardwareParameter_def pcanCall_def
  pcan_ReadEvent_def loop.simps pcan_round_def validateChannel_def validateChannelStateOnly_def
  validateModeAndChannel_def eventChannel_def dequeueEvent_def queue_at_def queue_get_def
  make_chan_def try_recv.simps readOne_def pcanEvent_def Let_def

theorem pcan_ReadEvent_correct_witness:
  "\<exists>r p' x'. pcan_ReadEvent silent_plin Millisecond 0 (projr (fst (NewPCAN silent_plin [0] 0)), 0) =
     Some (r, p', x') \<and> (r = Inr None \<longrightarrow> Millisecond \<le> x')"
proof -
  have dry: "plin_runs_dry silent_plin (\<lambda>x. 0)"
    by (simp add: plin_runs_dry_def runs_dry_def plin_poll_def silent_plin_def)
  have "all_queued lin_frame (pc_eventChans (projr (fst (NewPCAN silent_plin [0] 0))))"
    by (simp add: pcan_run)
  from pcan_ReadEvent_correct [OF dry this, of Millisecond 0 0] show ?thesis
    by (auto simp: silent_plin_def)
qed

theorem pcan_MasterRead_returns_witness:
  "\<exists>r p' x'. pcan_MasterRead silent_plin 0x10 0 (projr (fst (NewPCAN silent_plin [0] 0)), 0) =
     Some (r, p', x') \<and> locks (pc_masterReadLocks p') 0 = Some False"
proof -
  have dry: "plin_runs_dry silent_plin (\<lambda>x. 0)"
    by (simp add: plin_runs_dry_def runs_dry_def plin_poll_def silent_plin_def)
  have "all_queued lin_frame (pc_eventChans (projr (fst (NewPCAN silent_plin [0] 0))))"
    "locks (pc_masterReadLocks (projr (fst (NewPCAN silent_plin [0] 0)))) 0 \<noteq> Some True"
    by (simp_all add: pcan_run)
  from pcan_MasterRead_returns [OF dry this] show ?thesis by blast
qed

theorem pcan_cycle_invariant_witness:
  "\<exists>t' p' x'. execute (pcan_driver one_frame_plin) (\<lambda>s. snd s)
       (snd (Transmit 1 0x22 [1] (NewTransport False [])))
       (projr (fst (NewPCAN one_frame_plin [0] 0)), 0) = Some (None, t', p', x') \<and>
     assembly_inv t' \<and> chan_buf (t_rxQueue t') = [\<lparr>NAD = 1, SID = 0x62, Data = [1, 2]\<rparr>]"
proof -
  define p where "p = projr (fst (NewPCAN one_frame_plin [0] 0))"
  let ?t = "snd (Transmit 1 0x22 [1] (NewTransport False []))"
  have start: "all_queued lin_frame (pc_eventChans p)" "assembly_inv ?t" "short_frames ?t"
    by (simp_all add: p_def pcan_run transport_run assembly_inv_def assembly_ranges_def short_frames_def)
  have "\<exists>t' p' x'. execute (pcan_driver one_frame_plin) (\<lambda>s. snd s) ?t (p, 0) = Some (None, t', p', x') \<and>
      chan_buf (t_rxQueue t') = [\<lparr>NAD = 1, SID = 0x62, Data = [1, 2]\<rparr>]"
    by (simp add: p_def pcan_run transport_run pcan_driver_def pcan_WriteMessage_def
        validatePCANEvent_def pcan_write_def)
  then obtain t' p' x' where run: "execute (pcan_driver one_frame_plin) (\<lambda>s. snd s) ?t (p, 0) = Some (None, t', p', x')"
    "chan_buf (t_rxQueue t') = [\<lparr>NAD = 1, SID = 0x62, Data = [1, 2]\<rparr>]" by blast
  with pcan_cycle_invariant [OF run(1) start] show ?thesis unfolding p_def by blast
qed

subsection \<open>Opening and closing\<close>

lemma connectAndInitialize_ok:
  "connectAndInitialize api hardware p x = (None, p', x') \<Longrightarrow>
   p' = p\<lparr>pc_connectedHardware := pc_connectedHardware p @ [hardware]\<rparr>"
  by (auto simp: connectAndInitialize_def Let_def split: prod.splits option.splits sum.splits if_splits)

lemma connect_channels_ok:
  "connect_channels api cs p x = (None, p', x') \<Longrightarrow>
   p' = p\<lparr>pc_connectedHardware := pc_connectedHardware p @
     map (\<lambda>c. case pc_hardwareByChannel p c of None \<Rightarrow> 0 | Some h \<Rightarrow> h) cs\<rparr>"
proof (induction cs arbitrary: p x)
  case (Cons c cs)
  let ?h = "case pc_hardwareByChannel p c of None \<Rightarrow> 0 | Some h \<Rightarrow> h"
  obtain e p1 x1 where one: "connectAndInitialize api ?h p x = (e, p1, x1)" by (metis prod_cases3)
  with Cons.prems have e: "e = None" and rest: "connect_channels api cs p1 x1 = (None, p', x')"
    by (auto simp: Let_def split: option.splits)
  have "p1 = p\<lparr>pc_connectedHardware := pc_connectedHardware p @ [?h]\<rparr>"
    using connectAndInitialize_ok [OF one [unfolded e]] .
  with Cons.IH [OF rest] show ?case by simp
qed simp

lemma mapHardware_loop_other:
  "mapHardware_loop config available used cs p = (e, p') \<Longrightarrow>
   pc_connectedHardware p' = pc_connectedHardware p"
  by (induction cs arbitrary: used p) (auto simp: Let_def split: sum.splits option.splits if_splits)

text \<open>
  A PCAN driver that opens is ready on exactly the configured channels. When
  \<open>NewPCANWithConfig\<close> succeeds, the configuration was valid, every one of its channels passes the
  channel check and every other channel is rejected as invalid, and the client is connected to the
  hardware of each channel, once, in the order of the channels.
\<close>

theorem NewPCAN_ready:
  assumes "NewPCANWithConfig api config x = (Inr p, x')"
  shows "\<exists>n. normalizePCANConfig config = Inr n \<and>
    (\<forall>c. validateChannel c p =
       (if c \<in> set (Channels n) then None else Some (Wrapped '''' [uint c] ErrInvalidChannel))) \<and>
    map (pc_hardwareByChannel p) (Channels n) = map Some (pc_connectedHardware p) \<and>
    distinct (pc_connectedHardware p)"
proof -
  obtain n where n: "normalizePCANConfig config = Inr n"
    using assms by (cases "normalizePCANConfig config") (auto simp: NewPCANWithConfig_def)
  then have ok: "pcan_config_ok n" using normalizePCANConfig_ok by blast
  obtain p0 p1 p2 x1 x2 x3 available where
    reg: "register_client api (ClientName n) p0 x = (None, p1, x1)" and
    mapped: "mapHardware n available p1 = (None, p2)" and
    conn: "connect_channels api (Channels n) p2 x2 = (None, p, x3)" and
    p0: "pc_api p0" "\<not> pc_closed p0" "pc_hardwareByChannel p0 = (\<lambda>_. None)"
      "pc_channelByHardware p0 = (\<lambda>_. None)" "pc_connectedHardware p0 = []"
    using assms n
    by (fastforce simp: NewPCANWithConfig_def Let_def split: prod.splits option.splits sum.splits)
  have p1: "pc_api p1" "\<not> pc_closed p1" "pc_hardwareByChannel p1 = (\<lambda>_. None)"
      "pc_channelByHardware p1 = (\<lambda>_. None)" "pc_connectedHardware p1 = []" "pc_client p1 \<noteq> 0"
    using reg p0 by (auto simp: register_client_def Let_def split: prod.splits option.splits if_splits)
  have "hardware_bijection p1" using p1 by (simp add: hardware_bijection_def)
  from mapHardware_loop_correct [OF mapped [unfolded mapHardware_def] _ _ _ this] ok p1
  have p2: "hardware_bijection p2" "dom (pc_hardwareByChannel p2) = set (Channels n)"
    "pc_api p2" "pc_client p2 \<noteq> 0" "\<not> pc_closed p2"
    by (simp_all add: pcan_config_ok_def)
  have "pc_connectedHardware p2 = []"
    using mapHardware_loop_other [OF mapped [unfolded mapHardware_def]] p1 by simp
  with connect_channels_ok [OF conn] have p: "p = p2\<lparr>pc_connectedHardware :=
      map (\<lambda>c. case pc_hardwareByChannel p2 c of None \<Rightarrow> 0 | Some h \<Rightarrow> h) (Channels n)\<rparr>"
    by simp
  have hw: "map (pc_hardwareByChannel p) (Channels n) = map Some (pc_connectedHardware p)"
    using p2(2) by (auto simp: p domIff split: option.splits)
  have "inj_on (pc_hardwareByChannel p) (set (Channels n))"
    using p2(1,2) unfolding p hardware_bijection_def inj_on_def by (simp, metis domD option.inject)
  then have "distinct (map Some (pc_connectedHardware p))"
    using ok unfolding hw [symmetric] by (simp add: distinct_map pcan_config_ok_def)
  then have "distinct (pc_connectedHardware p)" by (simp add: distinct_map)
  moreover have "validateChannel c p =
      (if c \<in> set (Channels n) then None else Some (Wrapped '''' [uint c] ErrInvalidChannel))" for c
    using p2 by (auto simp: validateChannel_def p)
  ultimately show ?thesis using n hw by blast
qed

theorem NewPCAN_ready_witness:
  "\<exists>p x'. NewPCANWithConfig silent_plin (DefaultPCANConfig [1]) 0 = (Inr p, x') \<and>
     validateChannel 1 p = None \<and> validateChannel 0 p = Some (Wrapped '''' [0] ErrInvalidChannel)"
proof -
  have "\<exists>p x'. NewPCANWithConfig silent_plin (DefaultPCANConfig [1]) 0 = (Inr p, x')"
    by (simp add: pcan_run)
  then obtain p x' where p: "NewPCANWithConfig silent_plin (DefaultPCANConfig [1]) 0 = (Inr p, x')" by blast
  have "normalizePCANConfig (DefaultPCANConfig [1]) = Inr (DefaultPCANConfig [1])"
    by (rule normalizePCANConfig_id) (simp add: pcan_config_ok_def DefaultPCANConfig_def)
  with NewPCAN_ready [OF p] p show ?thesis by (auto simp: DefaultPCANConfig_def)
qed

text \<open>
  Closing a PCAN driver is idempotent and final. A second \<open>Close\<close> returns the same errors and
  does not call the adapter; and every later operation with valid arguments reports
  \<open>ErrDriverClosed\<close> and does not call it either.
\<close>

theorem PCAN_Close_final:
  assumes "PCAN_Close api p x = (errs, p', x')" and "\<not> pc_closeOnce p"
    and "validatePCANEvent event = None" and "frameID \<le> 0x3F"
  shows "PCAN_Close api p' y = (errs, p', y) \<and>
    pcan_ReadEvent api timeout c (p', y) = Some (Inl ErrDriverClosed, p', y) \<and>
    pcan_WriteMessage api event c (p', y) = (Some ErrDriverClosed, p', y) \<and>
    pcan_ScheduleSlaveResponse api event c (p', y) = (Some ErrDriverClosed, p', y) \<and>
    pcan_RequestSlaveResponse api frameID c (p', y) = (Some ErrDriverClosed, p', y) \<and>
    HardwareInfo api c (p', y) = (Inl ErrDriverClosed, p', y) \<and>
    PCAN_Reset api (p', y) = (Some ErrDriverClosed, p', y)"
proof -
  have closed: "pc_closed p'" "pc_closeOnce p'" "pc_closeErr p' = errs"
    using assms(1,2) by (auto simp: PCAN_Close_def Let_def split: prod.splits if_splits)
  show ?thesis
    using assms(3,4) closed
    by (auto simp: PCAN_Close_def pcan_ReadEvent_def pcan_WriteMessage_def pcan_ScheduleSlaveResponse_def
        pcan_RequestSlaveResponse_def HardwareInfo_def PCAN_Reset_def validateChannel_def
        validateChannelStateOnly_def validateModeAndChannel_def not_less [symmetric])
qed

theorem PCAN_Close_final_witness:
  "\<exists>p'. PCAN_Close silent_plin (projr (fst (NewPCAN silent_plin [0] 0))) 0 = ([], p', 0) \<and>
     pcan_WriteMessage silent_plin (Some (rx_event 0x10 [1])) 0 (p', 5) = (Some ErrDriverClosed, p', 5)"
proof -
  let ?p = "projr (fst (NewPCAN silent_plin [0] 0))"
  have open_p: "\<not> pc_closeOnce ?p" by (simp add: pcan_run)
  have "\<exists>p'. PCAN_Close silent_plin ?p 0 = ([], p', 0)" by (simp add: pcan_run PCAN_Close_def)
  then obtain p' where p': "PCAN_Close silent_plin ?p 0 = ([], p', 0)" by blast
  have "validatePCANEvent (Some (rx_event 0x10 [1])) = None"
    by (simp add: validatePCANEvent_def rx_event_def)
  from PCAN_Close_final [OF p' open_p this, of 0] p' show ?thesis by simp
qed

end
