(* ===== verification/Vector.thy ===== *)
theory Vector
  imports Driver_Common Transport_Cycle
begin

section \<open>The Vector driver (\<^verbatim>\<open>driver/vector.go\<close>)\<close>

text \<open>
  The driver of Vector LIN interfaces. The functions of the vendor's library \<^verbatim>\<open>vxlapi\<close> are a
  parameter (\<open>XL\<close>), over the state \<open>'x\<close> of the adapter with the clock; each yields the status and
  what the real function writes through its pointers. The library is loaded in \<open>Library_Search\<close> and
  \<open>Driver_Libraries\<close>; error texts and logging are not modelled. A driver is never nil and its
  library stays loaded. A Go map that the code ranges over (the DLC and checksum tables of the
  configuration) is the list of its entries in the order of the iteration.
\<close>

abbreviation (input) vectorInvalidPort :: int where "vectorInvalidPort \<equiv> -1"
abbreviation (input) vectorQueueIsEmpty :: u16 where "vectorQueueIsEmpty \<equiv> 10"
abbreviation (input) vectorLINMessageTag :: byte where "vectorLINMessageTag \<equiv> 20"
abbreviation (input) vectorLINMessageFlagTX :: u16 where "vectorLINMessageFlagTX \<equiv> 0x40"
abbreviation (input) vectorLINMessageFlagCRCError :: u16 where "vectorLINMessageFlagCRCError \<equiv> 0x81"
abbreviation (input) vectorLINCalcChecksumClassic :: u16 where "vectorLINCalcChecksumClassic \<equiv> 0x0100"
abbreviation (input) vectorLINCalcChecksumEnh :: u16 where "vectorLINCalcChecksumEnh \<equiv> 0x0200"
abbreviation (input) vectorLINSlaveOn :: byte where "vectorLINSlaveOn \<equiv> 0xFF"
abbreviation (input) vectorLINSlaveOff :: byte where "vectorLINSlaveOff \<equiv> 0"
abbreviation (input) vectorDefaultBaudrate :: int where "vectorDefaultBaudrate \<equiv> 19200"
abbreviation (input) vectorDefaultRxQueue :: u32 where "vectorDefaultRxQueue \<equiv> 16384"
abbreviation (input) vectorEventQueueSize :: nat where "vectorEventQueueSize \<equiv> 128"
abbreviation (input) vectorReceivePollDelay :: int where "vectorReceivePollDelay \<equiv> Millisecond"
abbreviation (input) vectorMaximumFrameID :: byte where "vectorMaximumFrameID \<equiv> 0x3F"
abbreviation (input) vectorMaximumPayloadLen :: byte where "vectorMaximumPayloadLen \<equiv> 8"

type_synonym VectorLINMode = u32
abbreviation (input) VectorLINMaster :: VectorLINMode where "VectorLINMaster \<equiv> 1"
abbreviation (input) VectorLINSlave :: VectorLINMode where "VectorLINSlave \<equiv> 2"

type_synonym VectorLINVersion = u32
abbreviation (input) VectorLINVersion13 :: VectorLINVersion where "VectorLINVersion13 \<equiv> 1"
abbreviation (input) VectorLINVersion20 :: VectorLINVersion where "VectorLINVersion20 \<equiv> 2"
abbreviation (input) VectorLINVersion21 :: VectorLINVersion where "VectorLINVersion21 \<equiv> 3"

record VectorConfig =
  vc_AppName :: string
  vc_DLLPath :: string
  vc_UseAppConfig :: bool
  vc_DeviceType :: int
  vc_DeviceIndex :: int
  vc_HardwareChannels :: "Channel \<Rightarrow> int option"
  vc_AppChannels :: "Channel \<Rightarrow> u32 option"
  vc_Channels :: "Channel list"
  vc_Mode :: VectorLINMode
  vc_Baudrate :: int
  vc_Version :: VectorLINVersion
  vc_DLC :: "(byte \<times> byte) list"
  vc_Checksum :: "(byte \<times> ChecksumType) list"
  vc_RxQueueSize :: u32

definition DefaultVectorConfig :: "int \<Rightarrow> Channel list \<Rightarrow> VectorConfig" where
  "DefaultVectorConfig deviceType channels =
     (let channels = (if length channels = 0 then [0] else channels)
      in \<lparr>vc_AppName = ''linbuskit'', vc_DLLPath = '''', vc_UseAppConfig = False,
          vc_DeviceType = deviceType, vc_DeviceIndex = 0, vc_HardwareChannels = (\<lambda>_. None),
          vc_AppChannels = (\<lambda>_. None), vc_Channels = channels, vc_Mode = VectorLINMaster,
          vc_Baudrate = vectorDefaultBaudrate, vc_Version = VectorLINVersion21, vc_DLC = [],
          vc_Checksum = [], vc_RxQueueSize = vectorDefaultRxQueue\<rparr>)"

subsection \<open>The vendor's library\<close>

type_synonym XLstatus = "16 word"

record xlLINChannelParams =
  xp_Mode :: u32
  xp_Baudrate :: u32
  xp_Version :: u32

text \<open>The 32 bytes of \<open>x_TagData\<close> are the union of the event kinds.\<close>

record xlEvent =
  x_Tag :: byte
  x_ChannelIndex :: byte
  x_TransID :: u16
  x_PortHandle :: u16
  x_Flags :: byte
  x_Timestamp :: u64
  x_TagData :: "byte list"

record xlLINMessage =
  xm_ID :: byte
  xm_DLC :: byte
  xm_Flags :: "byte list"
  xm_Data :: "byte list"
  xm_CRC :: byte

record 'x XL =
  xlOpenDriver :: "'x \<Rightarrow> XLstatus \<times> 'x"
  xlCloseDriver :: "'x \<Rightarrow> XLstatus \<times> 'x"
  xlGetApplConfig :: "string \<Rightarrow> u32 \<Rightarrow> 'x \<Rightarrow> XLstatus \<times> (u32 \<times> u32 \<times> u32) \<times> 'x"
  xlGetChannelIndex :: "int \<Rightarrow> int \<Rightarrow> int \<Rightarrow> 'x \<Rightarrow> u32 \<times> 'x"
  xlGetChannelMask :: "int \<Rightarrow> int \<Rightarrow> int \<Rightarrow> 'x \<Rightarrow> u64 \<times> 'x"
  xlOpenPort :: "string \<Rightarrow> u64 \<Rightarrow> u64 \<Rightarrow> u32 \<Rightarrow> 'x \<Rightarrow> XLstatus \<times> int \<times> u64 \<times> 'x"
  xlClosePort :: "int \<Rightarrow> 'x \<Rightarrow> XLstatus \<times> 'x"
  xlActivateChannel :: "int \<Rightarrow> u64 \<Rightarrow> 'x \<Rightarrow> XLstatus \<times> 'x"
  xlDeactivateChannel :: "int \<Rightarrow> u64 \<Rightarrow> 'x \<Rightarrow> XLstatus \<times> 'x"
  xlReceive :: "int \<Rightarrow> 'x \<Rightarrow> XLstatus \<times> u32 \<times> xlEvent \<times> 'x"
  xlLinSetChannelParams :: "int \<Rightarrow> u64 \<Rightarrow> xlLINChannelParams \<Rightarrow> 'x \<Rightarrow> XLstatus \<times> 'x"
  xlLinSetDLC :: "int \<Rightarrow> u64 \<Rightarrow> byte list \<Rightarrow> 'x \<Rightarrow> XLstatus \<times> 'x"
  xlLinSetChecksum :: "int \<Rightarrow> u64 \<Rightarrow> byte list \<Rightarrow> 'x \<Rightarrow> XLstatus \<times> 'x"
  xlLinSetSlave :: "int \<Rightarrow> u64 \<Rightarrow> byte \<Rightarrow> byte list \<Rightarrow> nat \<Rightarrow> u16 \<Rightarrow> 'x \<Rightarrow> XLstatus \<times> 'x"
  xlLinSwitchSlave :: "int \<Rightarrow> u64 \<Rightarrow> byte \<Rightarrow> byte \<Rightarrow> 'x \<Rightarrow> XLstatus \<times> 'x"
  xlLinSendRequest :: "int \<Rightarrow> u64 \<Rightarrow> byte \<Rightarrow> 'x \<Rightarrow> XLstatus \<times> 'x"
  xlLinWakeUp :: "int \<Rightarrow> u64 \<Rightarrow> 'x \<Rightarrow> XLstatus \<times> 'x"
  xlLinSetSleepMode :: "int \<Rightarrow> u64 \<Rightarrow> u32 \<Rightarrow> byte \<Rightarrow> 'x \<Rightarrow> XLstatus \<times> 'x"
  xlFlushReceiveQueue :: "int \<Rightarrow> 'x \<Rightarrow> XLstatus \<times> 'x"
  xlGetReceiveQueueLevel :: "int \<Rightarrow> 'x \<Rightarrow> XLstatus \<times> int \<times> 'x"
  xl_now :: "'x \<Rightarrow> int"
  xl_sleep :: "int \<Rightarrow> 'x \<Rightarrow> 'x"

text \<open>\<open>statusArgs\<close>: a call whose only result is its status (zero is success).\<close>

definition statusArgs :: "string \<Rightarrow> XLstatus \<times> 'x \<Rightarrow> error option \<times> 'x" where
  "statusArgs operation r =
     (let (status, x) = r
      in if status \<noteq> 0 then (Some (ErrorText operation [sint status]), x) else (None, x))"

record Vector =
  v_config :: VectorConfig
  v_portHandle :: int
  v_accessMask :: u64
  v_permission :: u64
  v_closed :: bool
  v_closeOnce :: bool
  v_closeErr :: "error list"
  v_channelInfo :: "Channel \<Rightarrow> (int \<times> u64) option"
  v_logicalByIndex :: "byte \<Rightarrow> Channel option"
  v_eventChans :: queues
  v_dlcTable :: "byte list"
  v_checksumTable :: "ChecksumType list"
  v_masterReadLocks :: channelMutexes

subsection \<open>Configuration\<close>

fun check_vector_channels ::
    "(Channel \<Rightarrow> int option) \<Rightarrow> Channel set \<Rightarrow> Channel list \<Rightarrow> error option" where
  "check_vector_channels hardware seen [] = None"
| "check_vector_channels hardware seen (channel # cs) =
     (if channel \<in> seen then Some (ErrorText ''duplicate Vector LIN channel'' [uint channel])
      else
        let seen = insert channel seen
        in case hardware channel of
             Some hardwareChannel \<Rightarrow>
               if hardwareChannel < 0
               then Some (ErrorText ''invalid hardware channel'' [hardwareChannel, uint channel])
               else check_vector_channels hardware seen cs
           | None \<Rightarrow> check_vector_channels hardware seen cs)"

text \<open>The loops that apply the overrides of the two tables.\<close>

fun apply_dlc :: "(byte \<times> byte) list \<Rightarrow> byte list \<Rightarrow> error + byte list" where
  "apply_dlc [] dlc = Inr dlc"
| "apply_dlc ((i, len) # es) dlc =
     (if i > vectorMaximumFrameID then Inl (ErrorText ''invalid Vector DLC frame ID'' [uint i])
      else if len > vectorMaximumPayloadLen
      then Inl (ErrorText ''invalid Vector DLC'' [uint len, uint i])
      else if (i = 0x3C \<or> i = 0x3D) \<and> len \<noteq> vectorMaximumPayloadLen
      then Inl (ErrorText ''LIN diagnostic frame requires DLC 8'' [uint i])
      else apply_dlc es (dlc[unat i := len]))"

fun apply_checksum ::
    "VectorLINVersion \<Rightarrow> (byte \<times> ChecksumType) list \<Rightarrow> ChecksumType list \<Rightarrow> error + ChecksumType list"
    where
  "apply_checksum version [] checksum = Inr checksum"
| "apply_checksum version ((i, kind) # es) checksum =
     (if i > vectorMaximumFrameID then Inl (ErrorText ''invalid Vector checksum frame ID'' [uint i])
      else if kind \<noteq> ClassicChecksum \<and> kind \<noteq> EnhancedChecksum
      then Inl (ErrorText ''invalid Vector checksum type'' [kind, uint i])
      else if version = VectorLINVersion13 \<and> kind \<noteq> ClassicChecksum
      then Inl (ErrorText ''LIN 1.3 frame requires classic checksum'' [uint i])
      else if (i = 0x3C \<or> i = 0x3D) \<and> kind \<noteq> ClassicChecksum
      then Inl (ErrorText ''LIN diagnostic frame requires classic checksum'' [uint i])
      else apply_checksum version es (checksum[unat i := kind]))"

definition normalizeVectorConfig ::
    "VectorConfig \<Rightarrow> error + VectorConfig \<times> byte list \<times> ChecksumType list" where
  "normalizeVectorConfig config =
     (let config = (if vc_AppName config = '''' then config\<lparr>vc_AppName := ''linbuskit''\<rparr> else config)
      in if CHR 0x00 \<in> set (vc_AppName config)
         then Inl (ErrorText ''Vector application name contains a NUL byte'' [])
         else
      let config = (if vc_Mode config = 0 then config\<lparr>vc_Mode := VectorLINMaster\<rparr> else config)
      in if vc_Mode config \<noteq> VectorLINMaster \<and> vc_Mode config \<noteq> VectorLINSlave
         then Inl (ErrorText ''invalid Vector LIN mode'' [uint (vc_Mode config)])
         else
      let config = (if vc_Version config = 0 then config\<lparr>vc_Version := VectorLINVersion21\<rparr> else config)
      in if vc_Version config < VectorLINVersion13 \<or> vc_Version config > VectorLINVersion21
         then Inl (ErrorText ''invalid Vector LIN version'' [uint (vc_Version config)])
         else
      let config = (if vc_Baudrate config = 0 then config\<lparr>vc_Baudrate := vectorDefaultBaudrate\<rparr> else config)
      in if vc_Baudrate config < 1000 \<or> vc_Baudrate config > 20000
         then Inl (ErrorText ''invalid Vector LIN baudrate'' [vc_Baudrate config])
         else
      let config = (if vc_RxQueueSize config = 0
                    then config\<lparr>vc_RxQueueSize := vectorDefaultRxQueue\<rparr> else config);
          config = (if length (vc_Channels config) = 0 then config\<lparr>vc_Channels := [0]\<rparr> else config)
      in if \<not> vc_UseAppConfig config \<and> vc_DeviceType config \<le> 0
         then Inl (ErrorText ''invalid Vector hardware type'' [vc_DeviceType config])
         else
           (case check_vector_channels (vc_HardwareChannels config) {} (vc_Channels config) of
              Some err \<Rightarrow> Inl err
            | None \<Rightarrow>
                let dlc = replicate 64 vectorMaximumPayloadLen;
                    checksum = map (\<lambda>i. if vc_Version config = VectorLINVersion13 \<or> i = 0x3C \<or> i = 0x3D
                                         then ClassicChecksum else EnhancedChecksum) [0..<64]
                in case apply_dlc (vc_DLC config) dlc of
                     Inl err \<Rightarrow> Inl err
                   | Inr dlc \<Rightarrow>
                       (case apply_checksum (vc_Version config) (vc_Checksum config) checksum of
                          Inl err \<Rightarrow> Inl err
                        | Inr checksum \<Rightarrow> Inr (config, dlc, checksum))))"

definition vectorChecksumBytes :: "ChecksumType list \<Rightarrow> byte list" where
  "vectorChecksumBytes table =
     map (\<lambda>i. if table ! i = EnhancedChecksum then 1 else 0) [0..<60]"

subsection \<open>Opening\<close>

text \<open>
  One channel: its hardware address, from the configuration or from the library's application
  configuration, and then its index and mask, which must agree and be new.
\<close>

definition hardware_address ::
    "'x XL \<Rightarrow> VectorConfig \<Rightarrow> Channel \<Rightarrow> 'x \<Rightarrow> (error + int \<times> int \<times> int) \<times> 'x" where
  "hardware_address api config logical x =
     (let hwType = vc_DeviceType config;
          hwIndex = vc_DeviceIndex config;
          hwChannel = (case vc_HardwareChannels config logical of
                         Some configured \<Rightarrow> configured | None \<Rightarrow> uint logical)
      in if vc_UseAppConfig config then
           if CHR 0x00 \<in> set (vc_AppName config) then (Inl (ErrorText ''invalid argument'' []), x)
           else
           let appChannel = (case vc_AppChannels config logical of
                               Some configured \<Rightarrow> configured | None \<Rightarrow> ucast logical);
               (status, (typ, index, channel), x) = xlGetApplConfig api (vc_AppName config) appChannel x
           in case statusArgs ''xlGetApplConfig'' (status, x) of
                (Some err, x) \<Rightarrow>
                  (Inl (Wrapped ''resolve Vector application channel'' [uint appChannel] err), x)
              | (None, x) \<Rightarrow> (Inr (uint typ, uint index, uint channel), x)
         else (Inr (hwType, hwIndex, hwChannel), x))"

fun resolve_loop ::
    "'x XL \<Rightarrow> (int \<Rightarrow> Channel option) \<Rightarrow> Channel list \<Rightarrow> Vector \<Rightarrow> 'x \<Rightarrow> error option \<times> Vector \<times> 'x"
    where
  "resolve_loop api usedIndexes [] v x = (None, v, x)"
| "resolve_loop api usedIndexes (logical # cs) v x =
     (case hardware_address api (v_config v) logical x of
        (Inl err, x) \<Rightarrow> (Some err, v, x)
      | (Inr (hwType, hwIndex, hwChannel), x) \<Rightarrow>
          let (idxResult, x) = xlGetChannelIndex api hwType hwIndex hwChannel x;
              index = sint idxResult
          in if index < 0 \<or> index > 63
             then (Some (ErrorText ''Vector LIN channel not found''
                    [uint logical, hwType, hwIndex, hwChannel]), v, x)
             else
               let (msk, x) = xlGetChannelMask api hwType hwIndex hwChannel x
               in if msk = 0
                  then (Some (ErrorText ''Vector LIN channel mask not found''
                         [uint logical, hwType, hwIndex, hwChannel]), v, x)
                  else
                    let expected = push_bit (nat index) (1 :: u64)
                    in if msk \<noteq> expected
                       then (Some (ErrorText ''Vector returned inconsistent channel mapping''
                              [index, uint msk, uint expected]), v, x)
                       else
                         (case usedIndexes index of
                            Some previous \<Rightarrow>
                              (Some (ErrorText ''logical Vector LIN channels map to the same hardware channel index''
                                 [uint previous, uint logical, index]), v, x)
                          | None \<Rightarrow>
                              resolve_loop api (usedIndexes(index \<mapsto> logical)) cs
                                (v\<lparr>v_channelInfo := (v_channelInfo v)(logical \<mapsto> (index, msk)),
                                   v_logicalByIndex := (v_logicalByIndex v)(word_of_int index \<mapsto> logical),
                                   v_accessMask := v_accessMask v OR msk\<rparr>) x))"

definition resolveChannels :: "'x XL \<Rightarrow> Vector \<Rightarrow> 'x \<Rightarrow> error option \<times> Vector \<times> 'x" where
  "resolveChannels api v x =
     resolve_loop api (\<lambda>_. None) (vc_Channels (v_config v)) v x"

definition vector_open :: "'x XL \<Rightarrow> Vector \<Rightarrow> 'x \<Rightarrow> error option \<times> Vector \<times> 'x" where
  "vector_open api v x =
     (case statusArgs ''xlOpenDriver'' (xlOpenDriver api x) of
        (Some err, x) \<Rightarrow> (Some err, v, x)
      | (None, x) \<Rightarrow>
          (case resolveChannels api v x of
             (Some err, v, x) \<Rightarrow> (Some err, v, x)
           | (None, v, x) \<Rightarrow>
               if CHR 0x00 \<in> set (vc_AppName (v_config v))
               then (Some (ErrorText ''encode Vector application name'' []),
                     v\<lparr>v_permission := v_accessMask v\<rparr>, x)
               else
                 let v = v\<lparr>v_permission := v_accessMask v\<rparr>;
                     (status, port, granted, x) =
                       xlOpenPort api (vc_AppName (v_config v)) (v_accessMask v) (v_permission v)
                         (vc_RxQueueSize (v_config v)) x;
                     v = v\<lparr>v_portHandle := port, v_permission := granted\<rparr>
                 in case statusArgs ''xlOpenPort'' (status, x) of
                      (Some err, x) \<Rightarrow> (Some err, v, x)
                    | (None, x) \<Rightarrow>
                        if v_permission v AND v_accessMask v \<noteq> v_accessMask v
                        then (Some (ErrorText ''xlOpenPort did not grant init access for all Vector LIN channels''
                               [uint (v_accessMask v), uint (v_permission v)]), v, x)
                        else
                          let params = \<lparr>xp_Mode = vc_Mode (v_config v),
                                xp_Baudrate = word_of_int (vc_Baudrate (v_config v)),
                                xp_Version = vc_Version (v_config v)\<rparr>;
                              (err, x) = call_all
                                [\<lambda>x. statusArgs ''xlLinSetChannelParams''
                                   (xlLinSetChannelParams api (v_portHandle v) (v_accessMask v) params x),
                                 \<lambda>x. statusArgs ''xlLinSetDLC''
                                   (xlLinSetDLC api (v_portHandle v) (v_accessMask v) (v_dlcTable v) x),
                                 \<lambda>x. statusArgs ''xlLinSetChecksum''
                                   (xlLinSetChecksum api (v_portHandle v) (v_accessMask v)
                                      (vectorChecksumBytes (v_checksumTable v)) x),
                                 \<lambda>x. statusArgs ''xlActivateChannel''
                                   (xlActivateChannel api (v_portHandle v) (v_accessMask v) x)] x
                          in (err, v, x)))"

text \<open>\<open>Close\<close>; the errors of its steps are joined (the list is empty when the joined error is nil).\<close>

definition Vector_Close :: "'x XL \<Rightarrow> Vector \<Rightarrow> 'x \<Rightarrow> error list \<times> Vector \<times> 'x" where
  "Vector_Close api v x =
     (if v_closeOnce v then (v_closeErr v, v, x)
      else
        let v = v\<lparr>v_closeOnce := True, v_closed := True\<rparr>;
            (errs, v, x) =
              (if v_portHandle v \<noteq> vectorInvalidPort then
                 let (err, x) =
                       (if v_accessMask v \<noteq> 0
                        then statusArgs ''xlDeactivateChannel''
                               (xlDeactivateChannel api (v_portHandle v) (v_accessMask v) x)
                        else (None, x));
                     errs = (case err of Some e \<Rightarrow> [e] | None \<Rightarrow> []);
                     (err, x) = statusArgs ''xlClosePort'' (xlClosePort api (v_portHandle v) x);
                     errs = (case err of Some e \<Rightarrow> errs @ [e] | None \<Rightarrow> errs)
                 in (errs, v\<lparr>v_portHandle := vectorInvalidPort\<rparr>, x)
               else ([], v, x));
            (err, x) = statusArgs ''xlCloseDriver'' (xlCloseDriver api x);
            errs = (case err of Some e \<Rightarrow> errs @ [e] | None \<Rightarrow> errs);
            v = v\<lparr>v_closeErr := errs\<rparr>
        in (v_closeErr v, v, x))"

definition NewVectorWithConfig :: "'x XL \<Rightarrow> VectorConfig \<Rightarrow> 'x \<Rightarrow> (error + Vector) \<times> 'x" where
  "NewVectorWithConfig api config x =
     (case normalizeVectorConfig config of
        Inl err \<Rightarrow> (Inl err, x)
      | Inr (normalized, dlc, checksum) \<Rightarrow>
          let v = \<lparr>v_config = normalized, v_portHandle = vectorInvalidPort, v_accessMask = 0,
                   v_permission = 0, v_closed = False, v_closeOnce = False, v_closeErr = [],
                   v_channelInfo = (\<lambda>_. None), v_logicalByIndex = (\<lambda>_. None),
                   v_eventChans = (\<lambda>_. None), v_dlcTable = dlc, v_checksumTable = checksum,
                   v_masterReadLocks = \<lparr>locks = (\<lambda>_. None)\<rparr>\<rparr>
          in case vector_open api v x of
               (Some err, v, x) \<Rightarrow> (Inl err, snd (snd (Vector_Close api v x)))
             | (None, v, x) \<Rightarrow> (Inr v, x))"

definition NewVector :: "'x XL \<Rightarrow> int \<Rightarrow> Channel list \<Rightarrow> 'x \<Rightarrow> (error + Vector) \<times> 'x" where
  "NewVector api deviceType channels x = NewVectorWithConfig api (DefaultVectorConfig deviceType channels) x"

subsection \<open>Checks\<close>

definition vector_validateOpen :: "Vector \<Rightarrow> error option" where
  "vector_validateOpen v =
     (if v_closed v \<or> v_portHandle v = vectorInvalidPort then Some ErrDriverClosed else None)"

definition vector_validateChannel :: "Channel \<Rightarrow> Vector \<Rightarrow> error option" where
  "vector_validateChannel channel v =
     (if v_closed v \<or> v_portHandle v = vectorInvalidPort then Some ErrDriverClosed
      else if v_channelInfo v channel = None
      then Some (Wrapped '''' [uint channel] ErrInvalidChannel) else None)"

definition vector_validateModeAndChannel :: "VectorLINMode \<Rightarrow> Channel \<Rightarrow> Vector \<Rightarrow> error option" where
  "vector_validateModeAndChannel mode channel v =
     (case vector_validateChannel channel v of
        Some err \<Rightarrow> Some err
      | None \<Rightarrow>
          if vc_Mode (v_config v) \<noteq> mode
          then Some (ErrorText ''Vector LIN channel is initialized in another mode''
                      [uint channel, uint (vc_Mode (v_config v)), uint mode])
          else None)"

definition validateVectorEvent :: "LinEvent option \<Rightarrow> error option" where
  "validateVectorEvent event =
     (case event of
        None \<Rightarrow> Some (ErrorText ''nil LIN event'' [])
      | Some e \<Rightarrow>
          if EventID e > vectorMaximumFrameID
          then Some (ErrorText ''invalid LIN frame ID'' [uint (EventID e)])
          else if length (EventPayload e) = 0 \<or> length (EventPayload e) > unat vectorMaximumPayloadLen
          then Some (ErrorText ''invalid LIN payload length'' [int (length (EventPayload e))])
          else if ev_ChecksumType e \<noteq> ClassicChecksum \<and> ev_ChecksumType e \<noteq> EnhancedChecksum
          then Some (ErrorText ''invalid LIN checksum type'' [ev_ChecksumType e])
          else if (EventID e = 0x3C \<or> EventID e = 0x3D) \<and> ev_ChecksumType e \<noteq> ClassicChecksum
          then Some (ErrorText ''LIN diagnostic frame requires classic checksum'' [uint (EventID e)])
          else None)"

definition vectorLINCalcChecksum :: "byte \<Rightarrow> ChecksumType \<Rightarrow> u16" where
  "vectorLINCalcChecksum frameID checksum =
     (if frameID = 0x3C \<or> frameID = 0x3D \<or> checksum = ClassicChecksum then vectorLINCalcChecksumClassic
      else vectorLINCalcChecksumEnh)"

subsection \<open>Events\<close>

definition vector_eventChannel :: "Channel \<Rightarrow> Vector \<Rightarrow> LinEvent chan \<times> Vector" where
  "vector_eventChannel channel v =
     (let (q, qs) = queue_at vectorEventQueueSize channel (v_eventChans v)
      in (q, v\<lparr>v_eventChans := qs\<rparr>))"

definition vector_enqueueEvent :: "Channel \<Rightarrow> LinEvent \<Rightarrow> Vector \<Rightarrow> Vector" where
  "vector_enqueueEvent channel event v =
     v\<lparr>v_eventChans := queue_put vectorEventQueueSize channel event (v_eventChans v)\<rparr>"

definition vector_dequeueEvent :: "Channel \<Rightarrow> Vector \<Rightarrow> LinEvent option \<times> Vector" where
  "vector_dequeueEvent channel v =
     (let (event, qs) = queue_get vectorEventQueueSize channel (v_eventChans v)
      in (event, v\<lparr>v_eventChans := qs\<rparr>))"

text \<open>The LIN message in the union of an event, as the cast of the 32 bytes reads it.\<close>

definition event_message :: "byte list \<Rightarrow> xlLINMessage" where
  "event_message td =
     \<lparr>xm_ID = td ! 0, xm_DLC = td ! 1, xm_Flags = take 2 (drop 2 td), xm_Data = take 8 (drop 4 td),
      xm_CRC = td ! 12\<rparr>"

definition little_endian16 :: "byte list \<Rightarrow> u16" where
  "little_endian16 b = ucast (b ! 0) OR push_bit 8 (ucast (b ! 1))"

definition decodeVectorLINEvent ::
    "int \<Rightarrow> xlEvent \<Rightarrow> Channel \<Rightarrow> ChecksumType list \<Rightarrow> error + LinEvent" where
  "decodeVectorLINEvent now raw logical checksumTable =
     (let message = event_message (x_TagData raw);
          flags = little_endian16 (xm_Flags message)
      in if xm_ID message > vectorMaximumFrameID
         then Inl (ErrorText ''Vector returned invalid LIN frame ID'' [uint (xm_ID message)])
         else
           let len = unat (xm_DLC message)
           in if len > 8
              then Inl (ErrorText ''Vector returned invalid LIN DLC''
                     [uint (xm_DLC message), uint (xm_ID message)])
              else if flags AND vectorLINMessageFlagCRCError = vectorLINMessageFlagCRCError
              then Inl (ErrorText ''Vector LIN checksum error on frame'' [uint (xm_ID message)])
              else
                let direction = (if flags AND vectorLINMessageFlagTX \<noteq> 0 then TX else RX);
                    payload = take len (xm_Data message)
                in Inr \<lparr>ev_Channel = logical, EventID = xm_ID message, EventPayload = payload,
                        ev_ChecksumType = checksumTable ! unat (xm_ID message),
                        ev_Direction = direction, ev_Timestamp = now\<rparr>)"

text \<open>The result of one receive call: an error, or an event if there was one, and whether the queue was empty.\<close>

definition vector_readOne ::
    "'x XL \<Rightarrow> Vector \<times> 'x \<Rightarrow> (error + LinEvent option \<times> bool) \<times> Vector \<times> 'x" where
  "vector_readOne api s =
     (let (v, x) = s
      in case vector_validateOpen v of
           Some err \<Rightarrow> (Inl err, v, x)
         | None \<Rightarrow>
             let (code, count, raw, x) = xlReceive api (v_portHandle v) x
             in if code = vectorQueueIsEmpty \<or> count = 0 then (Inr (None, True), v, x)
                else if code \<noteq> 0 then (Inl (ErrorText ''xlReceive'' [sint code]), v, x)
                else if x_Tag raw \<noteq> vectorLINMessageTag then (Inr (None, False), v, x)
                else
                  (case v_logicalByIndex v (x_ChannelIndex raw) of
                     None \<Rightarrow> (Inr (None, False), v, x)
                   | Some logical \<Rightarrow>
                       (case decodeVectorLINEvent (xl_now api x) raw logical (v_checksumTable v) of
                          Inl err \<Rightarrow> (Inl err, v, x)
                        | Inr event \<Rightarrow> (Inr (Some event, False), v, x))))"

text \<open>The body of the loop of \<open>ReadEvent\<close>.\<close>

definition vector_round ::
    "'x XL \<Rightarrow> int \<Rightarrow> Channel \<Rightarrow> int \<Rightarrow> Vector \<times> 'x \<Rightarrow>
     ((error + LinEvent option) \<times> Vector \<times> 'x) + Vector \<times> 'x" where
  "vector_round api timeout channel deadline s =
     (let (v, x) = s
      in case vector_dequeueEvent channel v of
           (Some event, v) \<Rightarrow> Inl (Inr (Some event), v, x)
         | (None, v) \<Rightarrow>
             let wait = (\<lambda>v x. if timeout \<le> 0 then Inl (Inr None, v, x)
                  else let remaining = deadline - xl_now api x
                       in if remaining \<le> 0 then Inl (Inr None, v, x)
                          else Inr (v, xl_sleep api (min remaining vectorReceivePollDelay) x))
             in (case vector_readOne api (v, x) of
                   (Inl err, v, x) \<Rightarrow> Inl (Inl err, v, x)
                 | (Inr (Some event, False), v, x) \<Rightarrow>
                     if ev_Channel event = channel then Inl (Inr (Some event), v, x)
                     else Inr (vector_enqueueEvent (ev_Channel event) event v, x)
                 | (Inr (_, _), v, x) \<Rightarrow> wait v x))"

definition vector_ReadEvent ::
    "'x XL \<Rightarrow> int \<Rightarrow> Channel \<Rightarrow> Vector \<times> 'x \<Rightarrow>
     ((error + LinEvent option) \<times> Vector \<times> 'x) option" where
  "vector_ReadEvent api timeout channel s =
     (case vector_validateChannel channel (fst s) of
        Some err \<Rightarrow> Some (Inl err, s)
      | None \<Rightarrow>
          let v = snd (vector_eventChannel channel (fst s));
              deadline = xl_now api (snd s) + timeout
          in loop (vector_round api timeout channel deadline) (v, snd s))"

subsection \<open>Frames\<close>

text \<open>A frame's data is installed for its identifier and the response is switched on.\<close>

definition linSetSlaveData ::
    "'x XL \<Rightarrow> int \<Rightarrow> u64 \<Rightarrow> byte \<Rightarrow> byte list \<Rightarrow> u16 \<Rightarrow> 'x \<Rightarrow> error option \<times> 'x" where
  "linSetSlaveData api port msk i payload checksum x =
     (let data = copy_at 0 payload (replicate 8 0)
      in statusArgs ''xlLinSetSlave'' (xlLinSetSlave api port msk i data (length payload) checksum x))"

definition linSwitchSlaveMode :: "'x XL \<Rightarrow> int \<Rightarrow> u64 \<Rightarrow> byte \<Rightarrow> byte \<Rightarrow> 'x \<Rightarrow> error option \<times> 'x" where
  "linSwitchSlaveMode api port msk i mode x =
     statusArgs ''xlLinSwitchSlave'' (xlLinSwitchSlave api port msk i mode x)"

definition linSendRequestForID :: "'x XL \<Rightarrow> int \<Rightarrow> u64 \<Rightarrow> byte \<Rightarrow> 'x \<Rightarrow> error option \<times> 'x" where
  "linSendRequestForID api port msk i x =
     statusArgs ''xlLinSendRequest'' (xlLinSendRequest api port msk i x)"

text \<open>The mask of a channel, zero when the channel is unknown.\<close>

definition channel_mask :: "Vector \<Rightarrow> Channel \<Rightarrow> u64" where
  "channel_mask v channel = (case v_channelInfo v channel of Some (index, msk) \<Rightarrow> msk | None \<Rightarrow> 0)"

definition vector_WriteMessage ::
    "'x XL \<Rightarrow> LinEvent option \<Rightarrow> Channel \<Rightarrow> Vector \<times> 'x \<Rightarrow> error option \<times> Vector \<times> 'x" where
  "vector_WriteMessage api event channel s =
     (case validateVectorEvent event of
        Some err \<Rightarrow> (Some err, s)
      | None \<Rightarrow>
          (case vector_validateModeAndChannel VectorLINMaster channel (fst s) of
             Some err \<Rightarrow> (Some err, s)
           | None \<Rightarrow>
               let e = the event;
                   (v, x) = s
               in case vector_validateOpen v of
                    Some err \<Rightarrow> (Some err, s)
                  | None \<Rightarrow>
                      let msk = channel_mask v channel;
                          checksum = vectorLINCalcChecksum (EventID e) (ev_ChecksumType e);
                          (err, x) = call_all
                            [linSetSlaveData api (v_portHandle v) msk (EventID e) (EventPayload e) checksum,
                             linSwitchSlaveMode api (v_portHandle v) msk (EventID e) vectorLINSlaveOn,
                             linSendRequestForID api (v_portHandle v) msk (EventID e)] x
                      in (err, v, x)))"

definition vector_ScheduleSlaveResponse ::
    "'x XL \<Rightarrow> LinEvent option \<Rightarrow> Channel \<Rightarrow> Vector \<times> 'x \<Rightarrow> error option \<times> Vector \<times> 'x" where
  "vector_ScheduleSlaveResponse api event channel s =
     (case validateVectorEvent event of
        Some err \<Rightarrow> (Some err, s)
      | None \<Rightarrow>
          (case vector_validateModeAndChannel VectorLINSlave channel (fst s) of
             Some err \<Rightarrow> (Some err, s)
           | None \<Rightarrow>
               let e = the event;
                   (v, x) = s
               in case vector_validateOpen v of
                    Some err \<Rightarrow> (Some err, s)
                  | None \<Rightarrow>
                      let msk = channel_mask v channel;
                          checksum = vectorLINCalcChecksum (EventID e) (ev_ChecksumType e);
                          (err, x) = call_all
                            [linSetSlaveData api (v_portHandle v) msk (EventID e) (EventPayload e) checksum,
                             linSwitchSlaveMode api (v_portHandle v) msk (EventID e) vectorLINSlaveOn] x
                      in (err, v, x)))"

definition vector_RequestSlaveResponse ::
    "'x XL \<Rightarrow> byte \<Rightarrow> Channel \<Rightarrow> Vector \<times> 'x \<Rightarrow> error option \<times> Vector \<times> 'x" where
  "vector_RequestSlaveResponse api frameID channel s =
     (if frameID > vectorMaximumFrameID
      then (Some (ErrorText ''invalid LIN frame ID'' [uint frameID]), s)
      else case vector_validateModeAndChannel VectorLINMaster channel (fst s) of
             Some err \<Rightarrow> (Some err, s)
           | None \<Rightarrow>
               let (v, x) = s
               in case vector_validateOpen v of
                    Some err \<Rightarrow> (Some err, s)
                  | None \<Rightarrow>
                      let msk = channel_mask v channel;
                          (err, x) = call_all
                            [linSwitchSlaveMode api (v_portHandle v) msk frameID vectorLINSlaveOff,
                             linSendRequestForID api (v_portHandle v) msk frameID] x
                      in (err, v, x))"

text \<open>The driver as the transport sees it.\<close>

definition vector_driver :: "'x XL \<Rightarrow> (Vector \<times> 'x) Driver" where
  "vector_driver api =
     \<lparr>ReadEvent = vector_ReadEvent api,
      WriteMessage = vector_WriteMessage api,
      ScheduleSlaveResponse = vector_ScheduleSlaveResponse api,
      RequestSlaveResponse = vector_RequestSlaveResponse api\<rparr>"

definition vector_MasterRead ::
    "'x XL \<Rightarrow> byte \<Rightarrow> Channel \<Rightarrow> Vector \<times> 'x \<Rightarrow> ((error + byte list) \<times> Vector \<times> 'x) option" where
  "vector_MasterRead api frameID channel s =
     (case lock channel (v_masterReadLocks (fst s)) of
        None \<Rightarrow> None
      | Some m \<Rightarrow>
          (case readMasterResponse (\<lambda>s. xl_now api (snd s)) frameID channel masterReadTimeout
                  (vector_RequestSlaveResponse api) (ReadEvent (vector_driver api))
                  ((fst s)\<lparr>v_masterReadLocks := m\<rparr>, snd s) of
             None \<Rightarrow> None
           | Some (r, v, x) \<Rightarrow>
               Some (r, v\<lparr>v_masterReadLocks := unlock channel (v_masterReadLocks v)\<rparr>, x)))"

subsection \<open>Sleep, wake-up, receive queue\<close>

definition vector_WakeUp :: "'x XL \<Rightarrow> Channel \<Rightarrow> Vector \<times> 'x \<Rightarrow> error option \<times> Vector \<times> 'x" where
  "vector_WakeUp api channel s =
     (case vector_validateChannel channel (fst s) of
        Some err \<Rightarrow> (Some err, s)
      | None \<Rightarrow>
          let (v, x) = s
          in case vector_validateOpen v of
               Some err \<Rightarrow> (Some err, s)
             | None \<Rightarrow>
                 let (err, x) = statusArgs ''xlLinWakeUp''
                       (xlLinWakeUp api (v_portHandle v) (channel_mask v channel) x)
                 in (err, v, x))"

definition vector_SetSleepMode ::
    "'x XL \<Rightarrow> Channel \<Rightarrow> byte option \<Rightarrow> Vector \<times> 'x \<Rightarrow> error option \<times> Vector \<times> 'x" where
  "vector_SetSleepMode api channel wakeupID s =
     (case vector_validateChannel channel (fst s) of
        Some err \<Rightarrow> (Some err, s)
      | None \<Rightarrow>
          let invalid = (case wakeupID of Some w \<Rightarrow> w > vectorMaximumFrameID | None \<Rightarrow> False);
              (flags, i) = (case wakeupID of Some w \<Rightarrow> (3, w) | None \<Rightarrow> (1, 0))
          in if invalid then (Some (ErrorText ''invalid LIN wake-up frame ID'' [uint i]), s)
             else
               let (v, x) = s
               in case vector_validateOpen v of
                    Some err \<Rightarrow> (Some err, s)
                  | None \<Rightarrow>
                      let (err, x) = statusArgs ''xlLinSetSleepMode''
                            (xlLinSetSleepMode api (v_portHandle v) (channel_mask v channel) flags i x)
                      in (err, v, x))"

definition FlushReceiveQueue :: "'x XL \<Rightarrow> Vector \<times> 'x \<Rightarrow> error option \<times> Vector \<times> 'x" where
  "FlushReceiveQueue api s =
     (let (v, x) = s
      in case vector_validateOpen v of
           Some err \<Rightarrow> (Some err, s)
         | None \<Rightarrow>
             let (err, x) = statusArgs ''xlFlushReceiveQueue'' (xlFlushReceiveQueue api (v_portHandle v) x)
             in (err, v, x))"

definition ReceiveQueueLevel :: "'x XL \<Rightarrow> Vector \<times> 'x \<Rightarrow> (error + int) \<times> Vector \<times> 'x" where
  "ReceiveQueueLevel api s =
     (let (v, x) = s
      in case vector_validateOpen v of
           Some err \<Rightarrow> (Inl err, s)
         | None \<Rightarrow>
             let (status, level, x) = xlGetReceiveQueueLevel api (v_portHandle v) x
             in case statusArgs ''xlGetReceiveQueueLevel'' (status, x) of
                  (Some err, x) \<Rightarrow> (Inl err, v, x)
                | (None, x) \<Rightarrow> (Inr level, v, x))"

text \<open>The copies that \<open>Config\<close> makes are equal to the originals; here the configuration is a value.\<close>

definition vector_Config :: "Vector \<Rightarrow> VectorConfig" where
  "vector_Config v = v_config v"

end
