(* ===== verification/Vector_Properties.thy ===== *)
theory Vector_Properties
  imports Vector
begin

section \<open>What the Vector driver guarantees\<close>

text \<open>
  Reads end when the adapter runs dry and report only valid frames of the channel asked for; so the
  driver is a \<open>frame_driver\<close> of the transport. A normalised configuration has the tables the LIN
  versions ask for, and opening a driver maps the configured channels one to one to the hardware.
\<close>

subsection \<open>Reads\<close>

text \<open>One poll of the receive queue of a port.\<close>

definition xl_poll :: "'x XL \<Rightarrow> int \<Rightarrow> 'x \<Rightarrow> bool \<times> 'x" where
  "xl_poll api port x = (let (code, count, raw, x) = xlReceive api port x in (code = 0 \<and> count \<noteq> 0, x))"

definition xl_runs_dry :: "'x XL \<Rightarrow> ('x \<Rightarrow> nat) \<Rightarrow> bool" where
  "xl_runs_dry api backlog \<longleftrightarrow>
     (\<forall>port. runs_dry (xl_now api) (xl_sleep api) (xl_poll api port) backlog)"

lemma decode_frame: "decodeVectorLINEvent now raw c table = Inr e \<Longrightarrow> lin_frame c e"
  by (auto simp: decodeVectorLINEvent_def event_message_def lin_frame_def Let_def not_less
      split: if_splits)

lemma vector_readOne_state:
  "vector_readOne api (v, x) = (r, v', x') \<Longrightarrow>
   v' = v \<and>
   (\<forall>e b. r = Inr (Some e, b) \<longrightarrow> \<not> b \<and> lin_frame (ev_Channel e) e \<and> xl_poll api (v_portHandle v) x = (True, x')) \<and>
   (\<forall>z. r = Inr z \<longrightarrow> (\<exists>p. xl_poll api (v_portHandle v) x = (p, x')))"
  by (auto simp: vector_readOne_def xl_poll_def Let_def split: option.splits prod.splits if_splits sum.splits
      dest: decode_frame) (metis decode_frame lin_frame_def)+

abbreviation (input) vector_good :: "Vector \<Rightarrow> bool" where
  "vector_good v \<equiv> all_queued lin_frame (v_eventChans v)"

definition vector_waiting :: "('x \<Rightarrow> nat) \<Rightarrow> Channel \<Rightarrow> Vector \<times> 'x \<Rightarrow> nat" where
  "vector_waiting backlog c s = length (queued (v_eventChans (fst s)) c) + backlog (snd s)"

lemma vector_dequeueEvent_good:
  "vector_good v \<Longrightarrow> vector_dequeueEvent c v = (r, v') \<Longrightarrow> vector_good v' \<and> (\<forall>e. r = Some e \<longrightarrow> lin_frame c e)"
  by (auto simp: vector_dequeueEvent_def Let_def dest: all_queued_get split: prod.splits)

lemma vector_dequeueEvent_None:
  "vector_dequeueEvent c v = (None, v') \<Longrightarrow>
   queued (v_eventChans v) c = [] \<and> queued (v_eventChans v') c = [] \<and> v_portHandle v' = v_portHandle v"
  by (auto simp: vector_dequeueEvent_def Let_def dest: queue_get_None [of _ _ _ _ c] split: prod.splits)

text \<open>The rounds of the read loop, by what they do.\<close>

lemma vector_round_cases:
  assumes "vector_round api timeout c deadline (v, x) = z"
  obtains (queued) e q where "vector_dequeueEvent c v = (Some e, q)" "z = Inl (Inr (Some e), q, x)"
  | (error) q err x' where "vector_dequeueEvent c v = (None, q)" "z = Inl (Inl err, q, x')"
  | (frame) q e x' where "vector_dequeueEvent c v = (None, q)" "xl_poll api (v_portHandle v) x = (True, x')"
      "lin_frame c e" "z = Inl (Inr (Some e), q, x')"
  | (other) q e x' where "vector_dequeueEvent c v = (None, q)" "xl_poll api (v_portHandle v) x = (True, x')"
      "lin_frame (ev_Channel e) e" "ev_Channel e \<noteq> c" "z = Inr (vector_enqueueEvent (ev_Channel e) e q, x')"
  | (empty) q x' where "vector_dequeueEvent c v = (None, q)" "timeout \<le> 0 \<or> deadline \<le> xl_now api x'"
      "z = Inl (Inr None, q, x')"
  | (sleep) b q x' where "vector_dequeueEvent c v = (None, q)" "xl_poll api (v_portHandle v) x = (b, x')"
      "xl_now api x' < deadline"
      "z = Inr (q, xl_sleep api (min (deadline - xl_now api x') vectorReceivePollDelay) x')"
proof -
  obtain d q where d: "vector_dequeueEvent c v = (d, q)" by fastforce
  obtain r q' x' where r: "vector_readOne api (q, x) = (r, q', x')" by (metis prod_cases3)
  note one = vector_readOne_state [OF r]
  note body = assms [unfolded vector_round_def Let_def prod.case d, symmetric]
  show thesis
  proof (cases d)
    case (Some e)
    then show thesis using queued body d by simp
  next
    case None
    note dq = d [unfolded None]
    have port: "v_portHandle q = v_portHandle v" using vector_dequeueEvent_None [OF dq] by simp
    note body = body [unfolded None option.case r prod.case]
    show thesis
    proof (cases r)
      case (Inl err)
      then show thesis using error [OF dq, of err x'] one body by simp
    next
      case (Inr y)
      obtain ev b where y: "y = (ev, b)" by fastforce
      show thesis
      proof (cases ev)
        case None
        obtain p where "xl_poll api (v_portHandle v) x = (p, x')" using one Inr port by auto
        from empty [OF dq] sleep [OF dq this] show thesis
          using body one by (simp add: Inr y None split: if_splits)
      next
        case (Some e)
        then have e: "\<not> b" "lin_frame (ev_Channel e) e" "xl_poll api (v_portHandle v) x = (True, x')" "q' = q"
          using one Inr y port by auto
        from frame [OF dq e(3)] other [OF dq e(3,2)] e show thesis
          using body by (auto simp: Inr y Some split: if_splits)
      qed
    qed
  qed
qed

lemma vector_round_good:
  assumes "vector_round api timeout c deadline (v, x) = z" and "vector_good v"
  shows "case z of Inl (r, v', x') \<Rightarrow> vector_good v' \<and> (\<forall>ev. r = Inr (Some ev) \<longrightarrow> lin_frame c ev)
    | Inr (v', x') \<Rightarrow> vector_good v'"
proof -
  have good: "vector_good q" "d = Some e \<Longrightarrow> lin_frame c e" if "vector_dequeueEvent c v = (d, q)" for d q e
    using vector_dequeueEvent_good [OF assms(2) that] by blast+
  from assms(1) show ?thesis
    by (cases rule: vector_round_cases) (auto simp: vector_enqueueEvent_def all_queued_put dest: good)
qed

lemma vector_round_time:
  assumes dry: "xl_runs_dry api backlog" and round: "vector_round api timeout c deadline (v, x) = z"
  shows "case z of
      Inl (r, v', x') \<Rightarrow> \<forall>ev. r = Inr (Some ev) \<longrightarrow> xl_now api x \<le> xl_now api x' \<and>
        (xl_now api x' = xl_now api x \<longrightarrow> vector_waiting backlog c (v', x') < vector_waiting backlog c (v, x))
    | Inr (v', x') \<Rightarrow> xl_now api x < xl_now api x' \<and> xl_now api x < deadline \<or>
        xl_now api x \<le> xl_now api x' \<and> vector_waiting backlog c (v', x') < vector_waiting backlog c (v, x)"
proof -
  have run: "runs_dry (xl_now api) (xl_sleep api) (xl_poll api (v_portHandle v)) backlog"
    using dry by (simp add: xl_runs_dry_def)
  have poll: "xl_now api x \<le> xl_now api x'" "b \<Longrightarrow> backlog x' < backlog x"
    if "xl_poll api (v_portHandle v) x = (b, x')" for b x'
    using runs_dryD(1,2) [OF run] that by auto
  note slept = runs_dryD(3) [OF run]
  have empty: "queued (v_eventChans v) c = []" "queued (v_eventChans q) c = []"
    if "vector_dequeueEvent c v = (None, q)" for q
    using vector_dequeueEvent_None [OF that] by simp_all
  have one: "length (queued (v_eventChans q) c) < length (queued (v_eventChans v) c)"
    if "vector_dequeueEvent c v = (Some e, q)" for e q
    using that queue_get_Some by (fastforce simp: vector_dequeueEvent_def Let_def split: prod.splits)
  from round show ?thesis
  proof (cases rule: vector_round_cases)
    case (sleep b q x')
    let ?w = "min (deadline - xl_now api x') vectorReceivePollDelay"
    have "xl_now api x' < xl_now api (xl_sleep api ?w x')" using sleep by (intro slept) simp
    then show ?thesis using sleep poll(1) [of b x'] by simp
  qed (auto simp: vector_waiting_def vector_enqueueEvent_def queued_put_other empty poll(2) dest: poll(1) one)
qed

interpretation vector_reads: polling "xl_runs_dry api backlog" "\<lambda>s. xl_now api (snd s)"
  "vector_waiting backlog" "\<lambda>s. vector_good (fst s)" lin_frame "vector_round api" for api backlog
proof
  fix timeout c deadline and s s' :: "Vector \<times> 'a" and r :: "error + LinEvent option" and ev
  obtain v x where s: "s = (v, x)" by (cases s)
  note good = vector_round_good [of api timeout c deadline v x, folded s]
  note time = vector_round_time [of api backlog timeout c deadline v x, folded s]
  show "vector_good (fst s')"
    if "vector_round api timeout c deadline s = Inr s'" "vector_good (fst s)"
    using good [OF that(1)] that(2) by (auto simp: s)
  show "vector_good (fst s') \<and> (\<forall>ev. r = Inr (Some ev) \<longrightarrow> lin_frame c ev)"
    if "vector_round api timeout c deadline s = Inl (r, s')" "vector_good (fst s)"
    using good [OF that(1)] that(2) by (auto simp: s)
  show "deadline \<le> xl_now api (snd s')"
    if "vector_round api timeout c deadline s = Inl (Inr None, s')" "0 < timeout"
    using that unfolding s by (cases rule: vector_round_cases) auto
  show "xl_now api (snd s) < xl_now api (snd s') \<and> xl_now api (snd s) < deadline \<or>
      xl_now api (snd s) \<le> xl_now api (snd s') \<and> vector_waiting backlog c s' < vector_waiting backlog c s"
    if "xl_runs_dry api backlog" "vector_round api timeout c deadline s = Inr s'"
    using time [OF that] by (auto simp: s)
  show "xl_now api (snd s) \<le> xl_now api (snd s') \<and>
      (xl_now api (snd s') = xl_now api (snd s) \<longrightarrow> vector_waiting backlog c s' < vector_waiting backlog c s)"
    if "xl_runs_dry api backlog" "vector_round api timeout c deadline s = Inl (Inr (Some ev), s')"
    using time [OF that] by (auto simp: s)
qed

lemma vector_ReadEvent_good:
  assumes "vector_ReadEvent api timeout c s = Some (r, s')" and "vector_good (fst s)"
  shows "vector_good (fst s') \<and> (\<forall>e. r = Inr (Some e) \<longrightarrow> lin_frame c e)"
  using assms
  by (intro vector_reads.polled_read_good [where q = "(snd (vector_eventChannel c (fst s)), snd s)"
        and err = "vector_validateChannel c (fst s)" and s = s])
     (simp_all add: vector_ReadEvent_def [unfolded Let_def] vector_eventChannel_def Let_def case_prod_beta)

lemma vector_polled:
  "\<exists>err q. xl_now api (snd q) = xl_now api (snd s) \<and> vector_waiting backlog c q = vector_waiting backlog c s \<and>
    ReadEvent (vector_driver api) timeout c s = (case err of Some err \<Rightarrow> Some (Inl err, s)
      | None \<Rightarrow> loop (vector_round api timeout c (xl_now api (snd s) + timeout)) q)"
  by (intro exI [of _ "vector_validateChannel c (fst s)"] exI [of _ "(snd (vector_eventChannel c (fst s)), snd s)"])
     (simp add: vector_driver_def vector_ReadEvent_def [unfolded Let_def] vector_waiting_def
        vector_eventChannel_def
        Let_def case_prod_beta)

lemma vector_timed:
  "xl_runs_dry api backlog \<Longrightarrow>
   timed_reader (\<lambda>s. xl_now api (snd s)) (ReadEvent (vector_driver api)) (vector_waiting backlog)"
  by (rule vector_reads.polled_timed [OF _ vector_polled])

lemma vector_calls_keep:
  "fst (snd (vector_WriteMessage api event c s)) = fst s"
  "fst (snd (vector_ScheduleSlaveResponse api event c s)) = fst s"
  "fst (snd (vector_RequestSlaveResponse api i c s)) = fst s"
  by (auto simp: vector_WriteMessage_def vector_ScheduleSlaveResponse_def vector_RequestSlaveResponse_def
      Let_def split: option.splits prod.splits)

lemma vector_driver_good:
  "vector_good (fst s) \<Longrightarrow> ReadEvent (vector_driver api) timeout c s = Some (r, s') \<Longrightarrow>
   vector_good (fst s') \<and> (\<forall>ev. r = Inr (Some ev) \<longrightarrow> lin_frame c ev)"
  by (auto simp: vector_driver_def dest: vector_ReadEvent_good)

interpretation vector_frames: frame_driver "vector_driver api" "\<lambda>s. vector_good (fst s)" for api
  by unfold_locales
     (auto simp: vector_driver_def vector_calls_keep lin_frame_def
       dest: vector_driver_good [unfolded vector_driver_def, simplified])

subsection \<open>Configuration\<close>

definition dlc_entry_ok :: "byte \<times> byte \<Rightarrow> bool" where
  "dlc_entry_ok e \<longleftrightarrow>
     fst e \<le> 0x3F \<and> snd e \<le> 8 \<and> (fst e \<in> {0x3C, 0x3D} \<longrightarrow> snd e = 8)"

definition checksum_entry_ok :: "VectorLINVersion \<Rightarrow> byte \<times> ChecksumType \<Rightarrow> bool" where
  "checksum_entry_ok version e \<longleftrightarrow>
     fst e \<le> 0x3F \<and> snd e \<in> {ClassicChecksum, EnhancedChecksum} \<and>
     (version = VectorLINVersion13 \<or> fst e \<in> {0x3C, 0x3D} \<longrightarrow> snd e = ClassicChecksum)"

definition vector_config_ok :: "VectorConfig \<Rightarrow> bool" where
  "vector_config_ok c \<longleftrightarrow>
     vc_AppName c \<noteq> [] \<and> CHR 0x00 \<notin> set (vc_AppName c) \<and>
     vc_Mode c \<in> {VectorLINMaster, VectorLINSlave} \<and> vc_Version c \<noteq> 0 \<and> vc_Version c \<le> 3 \<and>
     1000 \<le> vc_Baudrate c \<and> vc_Baudrate c \<le> 20000 \<and> vc_RxQueueSize c \<noteq> 0 \<and>
     vc_Channels c \<noteq> [] \<and> distinct (vc_Channels c) \<and>
     list_all (\<lambda>ch. case vc_HardwareChannels c ch of None \<Rightarrow> True | Some h \<Rightarrow> 0 \<le> h) (vc_Channels c) \<and>
     (vc_UseAppConfig c \<or> 0 < vc_DeviceType c) \<and>
     list_all dlc_entry_ok (vc_DLC c) \<and> list_all (checksum_entry_ok (vc_Version c)) (vc_Checksum c)"

text \<open>A table of 64 entries with the overrides of a configuration.\<close>

definition with_overrides :: "(byte \<times> 'v) list \<Rightarrow> (nat \<Rightarrow> 'v) \<Rightarrow> 'v list" where
  "with_overrides es f =
     map (\<lambda>i. case map_of (rev es) (of_nat i) of Some y \<Rightarrow> y | None \<Rightarrow> f i) [0..<64]"

definition default_checksum :: "VectorLINVersion \<Rightarrow> nat \<Rightarrow> ChecksumType" where
  "default_checksum version i =
     (if version = VectorLINVersion13 \<or> i = 0x3C \<or> i = 0x3D then ClassicChecksum else EnhancedChecksum)"

lemma with_overrides_Nil: "with_overrides [] f = map f [0..<64]"
  by (simp add: with_overrides_def)

lemma with_overrides_Cons:
  assumes "k \<le> (0x3F :: byte)"
  shows "with_overrides ((k, y) # es) f = with_overrides es (f(unat k := y))"
proof (unfold with_overrides_def, rule map_cong [OF refl])
  fix i
  assume "i \<in> set [0..<64]"
  then have "(of_nat i = k) = (i = unat k)"
    by (simp add: word_unat_eq_iff unsigned_of_nat take_bit_nat_eq_self)
  then show "(case map_of (rev ((k, y) # es)) (of_nat i) of None \<Rightarrow> f i | Some y \<Rightarrow> y) =
      (case map_of (rev es) (of_nat i) of None \<Rightarrow> (f(unat k := y)) i | Some y \<Rightarrow> y)"
    by (auto simp: map_add_def split: option.splits)
qed

lemma list_update_map: "k < n \<Longrightarrow> (map f [0..<n])[k := y] = map (f(k := y)) [0..<n]"
  by (rule nth_equalityI) (auto simp: nth_list_update)

lemma index_ok: "k \<le> (0x3F :: byte) \<Longrightarrow> unat k < 64"
  by (simp add: word_le_nat_alt)

lemma apply_dlc_correct:
  "(case apply_dlc es (map f [0..<64]) of
      Inl err \<Rightarrow> \<not> list_all dlc_entry_ok es
    | Inr dlc \<Rightarrow> list_all dlc_entry_ok es \<and> dlc = with_overrides es f)"
proof (induction es arbitrary: f)
  case Nil
  then show ?case by (simp add: with_overrides_Nil)
next
  case (Cons e es)
  obtain k y where e: "e = (k, y)" by (cases e)
  show ?case
  proof (cases "dlc_entry_ok e")
    case True
    then have k: "k \<le> 0x3F" by (simp add: dlc_entry_ok_def e)
    define g where "g = f(unat k := y)"
    have step: "apply_dlc (e # es) (map f [0..<64]) = apply_dlc es (map g [0..<64])"
      using True by (auto simp: dlc_entry_ok_def e g_def list_update_map [OF index_ok [OF k]] not_less [symmetric])
    have "with_overrides (e # es) f = with_overrides es g"
      unfolding e g_def by (rule with_overrides_Cons [OF k])
    then show ?thesis using Cons.IH [of g] True unfolding step by (simp split: sum.splits)
  next
    case False
    then have "\<exists>err. apply_dlc (e # es) (map f [0..<64]) = Inl err"
      by (auto simp: dlc_entry_ok_def e not_less [symmetric])
    then show ?thesis using False by (auto split: sum.splits)
  qed
qed

lemma apply_checksum_correct:
  "(case apply_checksum version es (map f [0..<64]) of
      Inl err \<Rightarrow> \<not> list_all (checksum_entry_ok version) es
    | Inr checksum \<Rightarrow> list_all (checksum_entry_ok version) es \<and> checksum = with_overrides es f)"
proof (induction es arbitrary: f)
  case Nil
  then show ?case by (simp add: with_overrides_Nil)
next
  case (Cons e es)
  obtain k y where e: "e = (k, y)" by (cases e)
  show ?case
  proof (cases "checksum_entry_ok version e")
    case True
    then have k: "k \<le> 0x3F" by (simp add: checksum_entry_ok_def e)
    define g where "g = f(unat k := y)"
    have step: "apply_checksum version (e # es) (map f [0..<64]) = apply_checksum version es (map g [0..<64])"
      using True by (auto simp: checksum_entry_ok_def e g_def list_update_map [OF index_ok [OF k]] not_less [symmetric])
    have "with_overrides (e # es) f = with_overrides es g"
      unfolding e g_def by (rule with_overrides_Cons [OF k])
    then show ?thesis using Cons.IH [of g] True unfolding step by (simp split: sum.splits)
  next
    case False
    then have "\<exists>err. apply_checksum version (e # es) (map f [0..<64]) = Inl err"
      by (auto simp: checksum_entry_ok_def e not_less [symmetric])
    then show ?thesis using False by (auto split: sum.splits)
  qed
qed

lemma check_vector_channels_None:
  "check_vector_channels handles seen cs = None \<longleftrightarrow>
   distinct cs \<and> set cs \<inter> seen = {} \<and>
   list_all (\<lambda>ch. case handles ch of None \<Rightarrow> True | Some h \<Rightarrow> 0 \<le> h) cs"
  by (induction cs arbitrary: seen) (auto simp: Let_def split: option.splits)

text \<open>The steps of the normalisation.\<close>

definition vector_defaults :: "VectorConfig \<Rightarrow> VectorConfig" where
  "vector_defaults c =
     c\<lparr>vc_AppName := (if vc_AppName c = [] then ''linbuskit'' else vc_AppName c),
       vc_Mode := (if vc_Mode c = 0 then VectorLINMaster else vc_Mode c),
       vc_Version := (if vc_Version c = 0 then VectorLINVersion21 else vc_Version c),
       vc_Baudrate := (if vc_Baudrate c = 0 then vectorDefaultBaudrate else vc_Baudrate c),
       vc_RxQueueSize := (if vc_RxQueueSize c = 0 then vectorDefaultRxQueue else vc_RxQueueSize c),
       vc_Channels := (if vc_Channels c = [] then [0] else vc_Channels c)\<rparr>"

lemma vector_defaults_ok: "vector_config_ok c \<Longrightarrow> vector_defaults c = c"
  by (auto simp: vector_defaults_def vector_config_ok_def)

lemma normalizeVectorConfig_eq:
  "normalizeVectorConfig c =
     (let n = vector_defaults c
      in if CHR 0x00 \<in> set (vc_AppName n)
         then Inl (ErrorText ''Vector application name contains a NUL byte'' [])
         else if vc_Mode n \<noteq> VectorLINMaster \<and> vc_Mode n \<noteq> VectorLINSlave
         then Inl (ErrorText ''invalid Vector LIN mode'' [uint (vc_Mode n)])
         else if vc_Version n < VectorLINVersion13 \<or> vc_Version n > VectorLINVersion21
         then Inl (ErrorText ''invalid Vector LIN version'' [uint (vc_Version n)])
         else if vc_Baudrate n < 1000 \<or> vc_Baudrate n > 20000
         then Inl (ErrorText ''invalid Vector LIN baudrate'' [vc_Baudrate n])
         else if \<not> vc_UseAppConfig n \<and> vc_DeviceType n \<le> 0
         then Inl (ErrorText ''invalid Vector hardware type'' [vc_DeviceType n])
         else
           (case check_vector_channels (vc_HardwareChannels n) {} (vc_Channels n) of
              Some err \<Rightarrow> Inl err
            | None \<Rightarrow>
                (case apply_dlc (vc_DLC n) (map (\<lambda>_. 8) [0..<64]) of
                     Inl err \<Rightarrow> Inl err
                   | Inr dlc \<Rightarrow>
                       (case apply_checksum (vc_Version n) (vc_Checksum n)
                               (map (default_checksum (vc_Version n)) [0..<64]) of
                          Inl err \<Rightarrow> Inl err
                        | Inr checksum \<Rightarrow> Inr (n, dlc, checksum)))))"
proof -
  have tables: "replicate 64 y = map (\<lambda>_. y) [0..<64]" for y :: byte
    by (simp add: map_replicate_const)
  have c: "(\<lambda>i. if version = VectorLINVersion13 \<or> i = 0x3C \<or> i = 0x3D then ClassicChecksum else EnhancedChecksum) =
      default_checksum version" for version
    by (simp add: fun_eq_iff default_checksum_def)
  define c1 where "c1 = (if vc_AppName c = [] then c\<lparr>vc_AppName := ''linbuskit''\<rparr> else c)"
  define c2 where "c2 = (if vc_Mode c1 = 0 then c1\<lparr>vc_Mode := VectorLINMaster\<rparr> else c1)"
  define c3 where "c3 = (if vc_Version c2 = 0 then c2\<lparr>vc_Version := VectorLINVersion21\<rparr> else c2)"
  define c4 where "c4 = (if vc_Baudrate c3 = 0 then c3\<lparr>vc_Baudrate := vectorDefaultBaudrate\<rparr> else c3)"
  define c5 where "c5 = (if vc_RxQueueSize c4 = 0 then c4\<lparr>vc_RxQueueSize := vectorDefaultRxQueue\<rparr> else c4)"
  define c6 where "c6 = (if vc_Channels c5 = [] then c5\<lparr>vc_Channels := [0]\<rparr> else c5)"
  let ?n = "vector_defaults c"
  have c1: "vc_AppName c1 = vc_AppName ?n" by (simp add: c1_def vector_defaults_def)
  have c2: "vc_Mode c2 = vc_Mode ?n" by (simp add: c2_def c1_def vector_defaults_def)
  have c3: "vc_Version c3 = vc_Version ?n" by (simp add: c3_def c2_def c1_def vector_defaults_def)
  have c4: "vc_Baudrate c4 = vc_Baudrate ?n" by (simp add: c4_def c3_def c2_def c1_def vector_defaults_def)
  have c6: "c6 = ?n"
    by (rule VectorConfig.equality)
       (simp_all add: c6_def c5_def c4_def c3_def c2_def c1_def vector_defaults_def)
  show ?thesis
    unfolding normalizeVectorConfig_def Let_def length_0_conv tables
      c1_def [symmetric] c2_def [symmetric] c3_def [symmetric] c4_def [symmetric] c5_def [symmetric]
      c6_def [symmetric] c1 c2 c3 c4 c6 c ..
qed

lemma normalizeVectorConfig_Inr:
  assumes "normalizeVectorConfig c = Inr (n, dlc, checksum)"
  shows "n = vector_defaults c \<and> vector_config_ok n \<and> dlc = with_overrides (vc_DLC n) (\<lambda>_. 8) \<and>
    checksum = with_overrides (vc_Checksum n) (default_checksum (vc_Version n))"
proof -
  let ?n = "vector_defaults c"
  have eq: "n = ?n" and cond: "CHR 0x00 \<notin> set (vc_AppName ?n)"
    "vc_Mode ?n = VectorLINMaster \<or> vc_Mode ?n = VectorLINSlave"
    "\<not> vc_Version ?n < VectorLINVersion13" "\<not> vc_Version ?n > VectorLINVersion21"
    "\<not> vc_Baudrate ?n < 1000" "\<not> vc_Baudrate ?n > 20000" "vc_UseAppConfig ?n \<or> 0 < vc_DeviceType ?n"
    "check_vector_channels (vc_HardwareChannels ?n) {} (vc_Channels ?n) = None"
    "apply_dlc (vc_DLC ?n) (map (\<lambda>_. 8) [0..<64]) = Inr dlc"
    "apply_checksum (vc_Version ?n) (vc_Checksum ?n) (map (default_checksum (vc_Version ?n)) [0..<64]) = Inr checksum"
    using assms unfolding normalizeVectorConfig_eq Let_def
    by (auto split: if_splits option.splits sum.splits)
  have "vc_AppName ?n \<noteq> []" "vc_RxQueueSize ?n \<noteq> 0" "vc_Channels ?n \<noteq> []"
    by (simp_all add: vector_defaults_def)
  then show ?thesis
    using cond(1-8) apply_dlc_correct [of "vc_DLC ?n" "\<lambda>_. 8", unfolded cond(9)]
      apply_checksum_correct [of "vc_Version ?n" "vc_Checksum ?n" "default_checksum (vc_Version ?n)", unfolded cond(10)]
    unfolding eq vector_config_ok_def check_vector_channels_None by (simp add: not_less)
qed

lemma normalizeVectorConfig_ok:
  assumes ok: "vector_config_ok c"
  shows "normalizeVectorConfig c = Inr (c, with_overrides (vc_DLC c) (\<lambda>_. 8),
    with_overrides (vc_Checksum c) (default_checksum (vc_Version c)))"
proof -
  have "check_vector_channels (vc_HardwareChannels c) {} (vc_Channels c) = None"
    using ok by (simp add: vector_config_ok_def check_vector_channels_None)
  moreover have "apply_dlc (vc_DLC c) (map (\<lambda>_. 8) [0..<64]) = Inr (with_overrides (vc_DLC c) (\<lambda>_. 8))"
    using apply_dlc_correct [of "vc_DLC c" "\<lambda>_. 8"] ok by (simp add: vector_config_ok_def split: sum.splits)
  moreover have "apply_checksum (vc_Version c) (vc_Checksum c) (map (default_checksum (vc_Version c)) [0..<64]) =
      Inr (with_overrides (vc_Checksum c) (default_checksum (vc_Version c)))"
    using apply_checksum_correct [of "vc_Version c" "vc_Checksum c" "default_checksum (vc_Version c)"] ok
    by (simp add: vector_config_ok_def split: sum.splits)
  ultimately show ?thesis
    using ok unfolding normalizeVectorConfig_eq vector_defaults_ok [OF ok] Let_def
    by (auto simp: vector_config_ok_def)
qed

text \<open>
  Normalisation of a Vector configuration yields a valid configuration and its two tables, or an
  error. A valid configuration has a name without NUL bytes, one of two modes and three LIN versions,
  a bit rate from 1000 to 20000, distinct channels, and table entries for identifiers up to 0x3F only:
  lengths up to 8, classic or enhanced checksums, eight bytes and the classic checksum for the two
  diagnostic identifiers, the classic checksum throughout for LIN 1.3. The tables have the
  configured entries, and for other identifiers length 8 and the checksum of the LIN version; a valid
  configuration is returned unchanged, so normalising again changes nothing.
\<close>

theorem normalizeVectorConfig_correct:
  "(case normalizeVectorConfig c of
      Inl err \<Rightarrow> \<not> vector_config_ok c
    | Inr (n, dlc, checksum) \<Rightarrow>
        vector_config_ok n \<and> normalizeVectorConfig n = Inr (n, dlc, checksum) \<and>
        dlc = map (\<lambda>i. case map_of (rev (vc_DLC n)) (of_nat i) of Some l \<Rightarrow> l | None \<Rightarrow> 8) [0..<64] \<and>
        checksum = map (\<lambda>i. case map_of (rev (vc_Checksum n)) (of_nat i) of Some k \<Rightarrow> k
          | None \<Rightarrow> default_checksum (vc_Version n) i) [0..<64]) \<and>
   (vector_config_ok c = (\<exists>dlc checksum. normalizeVectorConfig c = Inr (c, dlc, checksum)))"
  using normalizeVectorConfig_Inr [of c] normalizeVectorConfig_ok
  by (auto simp: with_overrides_def split: sum.splits)

subsection \<open>Channels\<close>

text \<open>
  The maps between logical channels and hardware: every channel has an index below 64 of its own, the
  mask is the bit of the index, the inverse map leads back, and the access mask has the bits of the
  channels.
\<close>

definition index_ok :: "Vector \<Rightarrow> Channel \<Rightarrow> int \<Rightarrow> u64 \<Rightarrow> bool" where
  "index_ok v c i m \<longleftrightarrow>
     0 \<le> i \<and> i \<le> 63 \<and> m = push_bit (nat i) 1 \<and> v_logicalByIndex v (word_of_int i) = Some c"

definition vector_mapping :: "Vector \<Rightarrow> bool" where
  "vector_mapping v \<longleftrightarrow>
     (\<forall>c i m. v_channelInfo v c = Some (i, m) \<longrightarrow> index_ok v c i m) \<and>
     (\<forall>n<64. bit (v_accessMask v) n = (\<exists>c m. v_channelInfo v c = Some (int n, m)))"

lemma index_word: "0 \<le> i \<Longrightarrow> i \<le> 63 \<Longrightarrow> 0 \<le> j \<Longrightarrow> j \<le> 63 \<Longrightarrow> (word_of_int i = (word_of_int j :: byte)) = (i = j)"
  by (simp add: word_of_int_eq_iff take_bit_int_eq_self)

lemma resolve_loop_Cons:
  assumes "resolve_loop api used (logical # cs) v x = (None, v', x')"
  shows "\<exists>index x1. 0 \<le> index \<and> index \<le> 63 \<and> used index = None \<and>
    resolve_loop api (used(index \<mapsto> logical)) cs
      (v\<lparr>v_channelInfo := (v_channelInfo v)(logical \<mapsto> (index, push_bit (nat index) 1)),
         v_logicalByIndex := (v_logicalByIndex v)(word_of_int index \<mapsto> logical),
         v_accessMask := v_accessMask v OR push_bit (nat index) 1\<rparr>) x1 = (None, v', x')"
proof -
  obtain r x1 where h: "hardware_address api (v_config v) logical x = (r, x1)" by fastforce
  then obtain hwType hwIndex hwChannel where r: "r = Inr (hwType, hwIndex, hwChannel)"
    using assms by (cases r) (auto split: prod.splits)
  obtain idx x2 where i: "xlGetChannelIndex api hwType hwIndex hwChannel x1 = (idx, x2)" by fastforce
  obtain m x3 where m: "xlGetChannelMask api hwType hwIndex hwChannel x2 = (m, x3)" by fastforce
  show ?thesis
    using assms
    by (intro exI [of _ "sint idx"] exI [of _ x3])
       (auto simp: h r i m Let_def split: if_splits option.splits)
qed

lemma resolve_loop_correct:
  assumes "resolve_loop api used cs v x = (None, v', x')"
    and "distinct cs" and "dom (v_channelInfo v) \<inter> set cs = {}" and "vector_mapping v"
    and "\<And>i. used i \<noteq> None \<longleftrightarrow> (\<exists>c m. v_channelInfo v c = Some (i, m))"
  shows "vector_mapping v' \<and> dom (v_channelInfo v') = dom (v_channelInfo v) \<union> set cs \<and>
    v_config v' = v_config v \<and> v_closed v' = v_closed v \<and> v_portHandle v' = v_portHandle v \<and>
    v_dlcTable v' = v_dlcTable v \<and> v_checksumTable v' = v_checksumTable v"
  using assms
proof (induction cs arbitrary: used v x)
  case (Cons logical cs)
  from resolve_loop_Cons [OF Cons.prems(1)] obtain index x1 where
    i: "0 \<le> index" "index \<le> 63" and free: "used index = None" and
    rest: "resolve_loop api (used(index \<mapsto> logical)) cs
      (v\<lparr>v_channelInfo := (v_channelInfo v)(logical \<mapsto> (index, push_bit (nat index) 1)),
         v_logicalByIndex := (v_logicalByIndex v)(word_of_int index \<mapsto> logical),
         v_accessMask := v_accessMask v OR push_bit (nat index) 1\<rparr>) x1 = (None, v', x')"
    by blast
  let ?v = "v\<lparr>v_channelInfo := (v_channelInfo v)(logical \<mapsto> (index, push_bit (nat index) 1)),
         v_logicalByIndex := (v_logicalByIndex v)(word_of_int index \<mapsto> logical),
         v_accessMask := v_accessMask v OR push_bit (nat index) 1\<rparr>"
  have fresh: "v_channelInfo v logical = None" using Cons.prems(3) by (auto simp: domIff)
  have noi: "v_channelInfo v c \<noteq> Some (index, m)" for c m using free Cons.prems(5) by blast
  have "index_ok ?v c j m" if "v_channelInfo ?v c = Some (j, m)" for c j m
  proof (cases "c = logical")
    case True
    then show ?thesis using that i by (auto simp: index_ok_def)
  next
    case False
    then have c: "v_channelInfo v c = Some (j, m)" using that by simp
    then have "index_ok v c j m" "j \<noteq> index" using Cons.prems(4) noi by (auto simp: vector_mapping_def)
    then show ?thesis using i by (simp add: index_ok_def index_word)
  qed
  moreover have "bit (v_accessMask ?v) n = (\<exists>c m. v_channelInfo ?v c = Some (int n, m))" if n: "n < 64" for n
  proof -
    have old: "bit (v_accessMask v) n = (\<exists>c m. v_channelInfo v c = Some (int n, m))"
      using Cons.prems(4) n by (simp add: vector_mapping_def)
    show ?thesis
    proof (cases "int n = index")
      case True
      then show ?thesis using n by (auto simp: bit_simps)
    next
      case False
      then have "(\<exists>c m. v_channelInfo ?v c = Some (int n, m)) = (\<exists>c m. v_channelInfo v c = Some (int n, m))"
        using fresh by (auto split: if_splits) (metis option.distinct(1))+
      moreover have "n \<noteq> nat index" using False i by linarith
      ultimately show ?thesis using old by (auto simp: bit_simps)
    qed
  qed
  ultimately have map: "vector_mapping ?v" unfolding vector_mapping_def by blast
  have used: "(used(index \<mapsto> logical)) j \<noteq> None \<longleftrightarrow> (\<exists>c m. v_channelInfo ?v c = Some (j, m))" for j
    using Cons.prems(5) [of j] fresh by (auto split: if_splits) (metis option.distinct(1))+
  have dm: "dom (v_channelInfo ?v) \<inter> set cs = {}" using Cons.prems(2,3) by auto
  show ?case using Cons.IH [OF rest _ dm map used] Cons.prems(2) by auto
qed simp

text \<open>A successful \<open>open\<close> has resolved the channels, and the port grants access to all of them.\<close>

lemma vector_open_ok:
  assumes "vector_open api v x = (None, v', x')"
  shows "\<exists>v1 x1 x2. resolveChannels api v x1 = (None, v1, x2) \<and>
    v' = v1\<lparr>v_portHandle := v_portHandle v', v_permission := v_permission v'\<rparr> \<and>
    v_permission v' AND v_accessMask v' = v_accessMask v'"
proof -
  obtain x1 where o: "statusArgs ''xlOpenDriver'' (xlOpenDriver api x) = (None, x1)"
    using assms by (auto simp: vector_open_def split: prod.splits option.splits)
  obtain r v1 x2 where res: "resolveChannels api v x1 = (r, v1, x2)" by (metis prod_cases3)
  have r: "r = None" using assms by (auto simp: vector_open_def o res split: option.splits)
  then show ?thesis
    using assms res
    by (intro exI [of _ v1] exI [of _ x1] exI [of _ x2])
       (auto simp: vector_open_def o Let_def split: prod.splits option.splits if_splits)
qed

text \<open>An adapter without traffic: its clock moves only while a read sleeps.\<close>

definition silent_xl :: "int XL" where
  "silent_xl =
     \<lparr>xlOpenDriver = \<lambda>x. (0, x), xlCloseDriver = \<lambda>x. (0, x), xlGetApplConfig = \<lambda>a c x. (0, (1, 0, c), x),
      xlGetChannelIndex = \<lambda>t i c x. (word_of_int c, x),
      xlGetChannelMask = \<lambda>t i c x. (push_bit (nat c) 1, x),
      xlOpenPort = \<lambda>a m p q x. (0, 7, p, x), xlClosePort = \<lambda>p x. (0, x),
      xlActivateChannel = \<lambda>p m x. (0, x), xlDeactivateChannel = \<lambda>p m x. (0, x),
      xlReceive = \<lambda>p x. (vectorQueueIsEmpty, 0, \<lparr>x_Tag = 0, x_ChannelIndex = 0, x_TransID = 0,
        x_PortHandle = 0, x_Flags = 0, x_Timestamp = 0, x_TagData = []\<rparr>, x),
      xlLinSetChannelParams = \<lambda>p m c x. (0, x), xlLinSetDLC = \<lambda>p m d x. (0, x),
      xlLinSetChecksum = \<lambda>p m d x. (0, x), xlLinSetSlave = \<lambda>p m i d l k x. (0, x),
      xlLinSwitchSlave = \<lambda>p m i s x. (0, x), xlLinSendRequest = \<lambda>p m i x. (0, x),
      xlLinWakeUp = \<lambda>p m x. (0, x), xlLinSetSleepMode = \<lambda>p m f i x. (0, x),
      xlFlushReceiveQueue = \<lambda>p x. (0, x), xlGetReceiveQueueLevel = \<lambda>p x. (0, 0, x),
      xl_now = \<lambda>x. x, xl_sleep = \<lambda>w x. x + w\<rparr>"

lemmas vector_run = silent_xl_def NewVector_def NewVectorWithConfig_def vector_open_def statusArgs_def
  resolveChannels_def hardware_address_def Let_def

lemma silent_xl_dry: "xl_runs_dry silent_xl (\<lambda>x. 0)"
  by (simp add: xl_runs_dry_def runs_dry_def xl_poll_def silent_xl_def)

text \<open>
  C23: A Vector driver that opens is ready on exactly the configured channels, each on hardware of its
  own. When \<open>NewVectorWithConfig\<close> succeeds with a valid port handle, the configuration was valid;
  every one of its channels passes the channel check and every other channel is rejected; a channel
  has an index from 0 to 63 that leads back to it, so no two channels share one; its mask is the bit
  of that index; and the port granted access to all of them.
\<close>

theorem NewVector_ready:
  assumes "NewVectorWithConfig api config x = (Inr v, x')" and "v_portHandle v \<noteq> -1"
  shows "\<exists>n dlc checksum. normalizeVectorConfig config = Inr (n, dlc, checksum) \<and> v_config v = n \<and>
    v_dlcTable v = dlc \<and> v_checksumTable v = checksum \<and>
    (\<forall>c. vector_validateChannel c v =
       (if c \<in> set (vc_Channels n) then None else Some (Wrapped '''' [uint c] ErrInvalidChannel))) \<and>
    (\<forall>c i m. v_channelInfo v c = Some (i, m) \<longrightarrow>
       0 \<le> i \<and> i \<le> 63 \<and> m = push_bit (nat i) 1 \<and> v_logicalByIndex v (word_of_int i) = Some c \<and>
       bit (v_accessMask v) (nat i)) \<and>
    v_permission v AND v_accessMask v = v_accessMask v"
proof -
  obtain n dlc checksum where n: "normalizeVectorConfig config = Inr (n, dlc, checksum)"
    using assms(1) by (cases "normalizeVectorConfig config") (auto simp: NewVectorWithConfig_def)
  then have ok: "vector_config_ok n" using normalizeVectorConfig_Inr by blast
  define v0 where "v0 = \<lparr>v_config = n, v_portHandle = vectorInvalidPort, v_accessMask = 0,
    v_permission = 0, v_closed = False, v_closeOnce = False, v_closeErr = [],
    v_channelInfo = (\<lambda>_. None), v_logicalByIndex = (\<lambda>_. None), v_eventChans = (\<lambda>_. None),
    v_dlcTable = dlc, v_checksumTable = checksum, v_masterReadLocks = \<lparr>locks = (\<lambda>_. None)\<rparr>\<rparr>"
  have "vector_open api v0 x = (None, v, x')"
    using assms(1) n by (auto simp: NewVectorWithConfig_def v0_def [symmetric] Let_def split: prod.splits option.splits)
  from vector_open_ok [OF this] obtain v1 x1 x2 where
    res: "resolveChannels api v0 x1 = (None, v1, x2)" and
    v: "v = v1\<lparr>v_portHandle := v_portHandle v, v_permission := v_permission v\<rparr>" and
    perm: "v_permission v AND v_accessMask v = v_accessMask v" by blast
  have "vector_mapping v0" by (simp add: vector_mapping_def v0_def)
  moreover have "distinct (vc_Channels n)" using ok by (simp add: vector_config_ok_def)
  ultimately have v1: "vector_mapping v1" "dom (v_channelInfo v1) = set (vc_Channels n)"
    "v_config v1 = n" "v_closed v1 = False" "v_dlcTable v1 = dlc" "v_checksumTable v1 = checksum"
    using resolve_loop_correct [OF res [unfolded resolveChannels_def]] by (simp_all add: v0_def)
  have same: "v_channelInfo v = v_channelInfo v1" "v_logicalByIndex v = v_logicalByIndex v1"
    "v_accessMask v = v_accessMask v1" "v_config v = n" "\<not> v_closed v" "v_dlcTable v = dlc"
    "v_checksumTable v = checksum"
    using v1 by (subst v, simp)+
  have "0 \<le> i \<and> i \<le> 63 \<and> m = push_bit (nat i) 1 \<and> v_logicalByIndex v (word_of_int i) = Some c \<and>
       bit (v_accessMask v) (nat i)" if "v_channelInfo v c = Some (i, m)" for c i m
  proof -
    have i: "index_ok v1 c i m" using that v1(1) unfolding same vector_mapping_def by blast
    then have "nat i < 64" "int (nat i) = i" by (auto simp: index_ok_def)
    then have "bit (v_accessMask v1) (nat i)"
      using that v1(1) unfolding same vector_mapping_def by metis
    then show ?thesis using i by (simp add: index_ok_def same)
  qed
  moreover have "vector_validateChannel c v =
      (if c \<in> set (vc_Channels n) then None else Some (Wrapped '''' [uint c] ErrInvalidChannel))" for c
    using v1(2) assms(2) same by (auto simp: vector_validateChannel_def)
  ultimately show ?thesis using n same perm by blast
qed

theorem NewVector_ready_witness:
  "\<exists>v x'. NewVectorWithConfig silent_xl (DefaultVectorConfig 1 [1, 3]) 0 = (Inr v, x') \<and>
     v_accessMask v = 0xA \<and> vector_validateChannel 3 v = None \<and>
     vector_validateChannel 0 v = Some (Wrapped '''' [0] ErrInvalidChannel)"
proof -
  let ?c = "DefaultVectorConfig 1 [1, 3]"
  have "vector_config_ok ?c" by (simp add: vector_config_ok_def DefaultVectorConfig_def)
  note norm = normalizeVectorConfig_ok [OF this]
  have "\<exists>v x'. NewVectorWithConfig silent_xl ?c 0 = (Inr v, x') \<and> v_accessMask v = 0xA \<and> v_portHandle v = 7"
    by (simp add: vector_run norm) (simp add: vector_run DefaultVectorConfig_def)
  then obtain v x' where v: "NewVectorWithConfig silent_xl ?c 0 = (Inr v, x')" "v_accessMask v = 0xA"
    "v_portHandle v = 7" by blast
  from NewVector_ready [OF v(1)] v norm show ?thesis by (auto simp: DefaultVectorConfig_def)
qed

subsection \<open>Reads and master reads end\<close>

text \<open>
  C24: A read of the Vector driver ends, on time and with a valid frame. Over any adapter that runs dry,
  \<open>ReadEvent\<close> returns for every channel and timeout. An event it returns is of that channel, with
  an identifier of at most 0x3F and at most eight bytes, whatever the vendor library delivers; and it
  returns no event only when the timeout has passed. The queued events stay valid, as they are in a
  new driver.
\<close>

theorem vector_ReadEvent_correct:
  assumes "xl_runs_dry api backlog" and "all_queued lin_frame (v_eventChans v)"
  shows "\<exists>r v' x'. vector_ReadEvent api timeout c (v, x) = Some (r, v', x') \<and>
    all_queued lin_frame (v_eventChans v') \<and>
    (case r of
       Inr (Some ev) \<Rightarrow> ev_Channel ev = c \<and> EventID ev \<le> 0x3F \<and> length (EventPayload ev) \<le> 8
     | Inr None \<Rightarrow> timeout \<le> 0 \<or> xl_now api x + timeout \<le> xl_now api x'
     | Inl err \<Rightarrow> True)"
proof (cases "vector_validateChannel c v")
  case None
  let ?s = "(snd (vector_eventChannel c v), x)" and ?d = "xl_now api x + timeout"
  obtain r v' x' where l: "loop (vector_round api timeout c ?d) ?s = Some (r, v', x')"
    using vector_reads.read_returns [OF assms(1)] by (metis prod.collapse)
  then have run: "vector_ReadEvent api timeout c (v, x) = Some (r, v', x')"
    using None by (simp add: vector_ReadEvent_def)
  have late: "timeout \<le> 0 \<or> ?d \<le> xl_now api x'" if "r = Inr None"
    using vector_reads.read_late [of api timeout c ?d ?s "(v', x')"] l that by fastforce
  show ?thesis
    using run late vector_ReadEvent_good [OF run] assms(2)
    by (cases r rule: read_result_cases) (auto simp: lin_frame_def)
next
  case (Some err)
  then show ?thesis using assms(2) by (simp add: vector_ReadEvent_def)
qed

theorem vector_ReadEvent_correct_witness:
  "\<exists>r v' x'. vector_ReadEvent silent_xl Millisecond 1
       (projr (fst (NewVectorWithConfig silent_xl (DefaultVectorConfig 1 [1, 3]) 0)), 0) = Some (r, v', x') \<and>
     (r = Inr None \<longrightarrow> Millisecond \<le> x')"
proof -
  let ?c = "DefaultVectorConfig 1 [1, 3]"
  have "vector_config_ok ?c" by (simp add: vector_config_ok_def DefaultVectorConfig_def)
  note norm = normalizeVectorConfig_ok [OF this]
  have "all_queued lin_frame (v_eventChans (projr (fst (NewVectorWithConfig silent_xl ?c 0))))"
    by (simp add: vector_run norm) (simp add: vector_run DefaultVectorConfig_def)
  from vector_ReadEvent_correct [OF silent_xl_dry this, of Millisecond 1 0] show ?thesis
    by (auto simp: silent_xl_def)
qed

text \<open>
  A master read of the Vector driver ends and gives the channel back. Over an adapter that runs
  dry, when no other master read has locked the channel, \<open>MasterRead\<close> returns, unlocks the
  channel, and a payload it returns has at most eight bytes and was asked for by an identifier of at
  most 0x3F.
\<close>

theorem vector_MasterRead_returns:
  assumes "xl_runs_dry api backlog" and "all_queued lin_frame (v_eventChans v)"
    and "locks (v_masterReadLocks v) c \<noteq> Some True"
  shows "\<exists>r v' x'. vector_MasterRead api i c (v, x) = Some (r, v', x') \<and>
    locks (v_masterReadLocks v') c = Some False \<and> all_queued lin_frame (v_eventChans v') \<and>
    (\<forall>payload. r = Inr payload \<longrightarrow> i \<le> 0x3F \<and> length payload \<le> 8)"
proof -
  obtain m where m: "lock c (v_masterReadLocks v) = Some m"
    using lock_free [OF assms(3)] by blast
  let ?read = "readMasterResponse (\<lambda>s. xl_now api (snd s)) i c masterReadTimeout
    (vector_RequestSlaveResponse api) (ReadEvent (vector_driver api))"
  let ?s = "(v\<lparr>v_masterReadLocks := m\<rparr>, x)"
  obtain r v1 x1 where r: "?read ?s = Some (r, v1, x1)"
    using timed_reader.readMasterResponse_returns [OF vector_timed [OF assms(1)]] by (metis prod.collapse)
  have "vector_good (fst (v1, x1)) \<and> (\<forall>p. r = Inr p \<longrightarrow> (\<exists>ev. lin_frame c ev \<and> EventID ev = i \<and> p = EventPayload ev))"
    using assms(2) by (intro readMasterResponse_good [OF r, where good = "\<lambda>s. vector_good (fst s)"])
      (simp_all add: vector_driver_good vector_calls_keep)
  then show ?thesis
    using r by (auto simp: vector_MasterRead_def m unlock_def lin_frame_def)
qed

theorem vector_MasterRead_returns_witness:
  "\<exists>r v' x'. vector_MasterRead silent_xl 0x10 1
       (projr (fst (NewVectorWithConfig silent_xl (DefaultVectorConfig 1 [1, 3]) 0)), 0) = Some (r, v', x') \<and>
     locks (v_masterReadLocks v') 1 = Some False"
proof -
  let ?c = "DefaultVectorConfig 1 [1, 3]" and ?v = "projr (fst (NewVectorWithConfig silent_xl (DefaultVectorConfig 1 [1, 3]) 0))"
  have "vector_config_ok ?c" by (simp add: vector_config_ok_def DefaultVectorConfig_def)
  note norm = normalizeVectorConfig_ok [OF this]
  have "all_queued lin_frame (v_eventChans ?v)" "locks (v_masterReadLocks ?v) 1 \<noteq> Some True"
    by (simp add: vector_run norm, simp add: vector_run DefaultVectorConfig_def)+
  from vector_MasterRead_returns [OF silent_xl_dry this] show ?thesis by blast
qed

subsection \<open>Decoding\<close>

lemma little_endian16_low: "n < 8 \<Longrightarrow> bit (little_endian16 fl) n \<longleftrightarrow> bit (fl ! 0) n"
  unfolding little_endian16_def by (auto simp: bit_simps)

lemma flag_TX: "(little_endian16 fl AND 0x40 \<noteq> 0) \<longleftrightarrow> bit (fl ! 0) 6"
proof -
  have "(0x40 :: u16) = push_bit 6 1" by simp
  then have "(little_endian16 fl AND 0x40 \<noteq> 0) \<longleftrightarrow> bit (little_endian16 fl) 6"
    by (simp only: ) (metis and_exp_eq_0_iff_not_bit push_bit_eq_mult mult_1)
  then show ?thesis by (simp add: little_endian16_low)
qed

lemma bit_CRC: "bit (0x81 :: u16) n \<longleftrightarrow> n = 0 \<or> n = 7"
proof -
  have e: "(0x81 :: u16) = 1 OR push_bit 7 1" by simp
  show ?thesis unfolding e bit_or_iff bit_1_iff bit_push_bit_iff by auto
qed

lemma flag_CRC: "(little_endian16 fl AND 0x81 = 0x81) \<longleftrightarrow> bit (fl ! 0) 0 \<and> bit (fl ! 0) 7"
proof -
  have "(little_endian16 fl AND 0x81 = 0x81) \<longleftrightarrow> bit (little_endian16 fl) 0 \<and> bit (little_endian16 fl) 7"
  proof
    assume eq: "little_endian16 fl AND 0x81 = 0x81"
    have "bit (little_endian16 fl AND 0x81) 0 \<and> bit (little_endian16 fl AND 0x81) 7"
      unfolding eq bit_CRC by simp
    then show "bit (little_endian16 fl) 0 \<and> bit (little_endian16 fl) 7" unfolding bit_and_iff by simp
  next
    assume "bit (little_endian16 fl) 0 \<and> bit (little_endian16 fl) 7"
    then show "little_endian16 fl AND 0x81 = 0x81"
      by (intro bit_word_eqI) (unfold bit_and_iff bit_CRC, auto)
  qed
  then show ?thesis by (simp add: little_endian16_low)
qed

text \<open>
  C25: The decoding of a Vector LIN event. Of the 32 bytes of an event the first is the identifier, the
  second the length, the third and fourth the flags, and the data starts at the fifth. An event with an
  identifier above 0x3F, a length above 8 or both bits of the checksum flag set is an error; every
  other yields its first bytes as payload, the direction given by the sixth flag bit, and the checksum
  kind that the driver's table has for the identifier.
\<close>

theorem decodeVectorLINEvent_correct:
  assumes "length (x_TagData raw) = 32"
  shows "decodeVectorLINEvent now raw logical table = Inr ev \<longleftrightarrow>
     (let td = x_TagData raw
      in td ! 0 \<le> 0x3F \<and> td ! 1 \<le> 8 \<and> \<not> (bit (td ! 2) 0 \<and> bit (td ! 2) 7) \<and>
         ev = \<lparr>ev_Channel = logical, EventID = td ! 0,
               EventPayload = map (\<lambda>i. td ! (4 + i)) [0..<unat (td ! 1)],
               ev_ChecksumType = table ! unat (td ! 0),
               ev_Direction = (if bit (td ! 2) 6 then TX else RX), ev_Timestamp = now\<rparr>)"
proof -
  let ?td = "x_TagData raw"
  have flag: "take 2 (drop 2 ?td) ! 0 = ?td ! 2" using assms by simp
  have len: "unat (?td ! 1) > 8 \<longleftrightarrow> \<not> ?td ! 1 \<le> 8" by (simp add: word_le_nat_alt not_le)
  have data: "take (unat (?td ! 1)) (take 8 (drop 4 ?td)) = map (\<lambda>i. ?td ! (4 + i)) [0..<unat (?td ! 1)]"
    if "?td ! 1 \<le> 8"
    using that assms by (intro nth_equalityI) (auto simp: word_le_nat_alt)
  show ?thesis
    unfolding decodeVectorLINEvent_def event_message_def xlLINMessage.simps Let_def flag_CRC flag_TX flag len
    using data by (auto simp: not_less)
qed

theorem decodeVectorLINEvent_correct_witness:
  "decodeVectorLINEvent 5 \<lparr>x_Tag = 20, x_ChannelIndex = 0, x_TransID = 0, x_PortHandle = 0, x_Flags = 0,
       x_Timestamp = 0, x_TagData = [0x3D, 2, 0x40, 0, 7, 9] @ replicate 26 0\<rparr> 1 (replicate 64 0) =
     Inr \<lparr>ev_Channel = 1, EventID = 0x3D, EventPayload = [7, 9], ev_ChecksumType = ClassicChecksum,
          ev_Direction = TX, ev_Timestamp = 5\<rparr>"
proof -
  have b: "bit (0x40 :: byte) 6" "\<not> bit (0x40 :: byte) 0" by (simp_all add: bit_iff_odd)
  show ?thesis by (subst decodeVectorLINEvent_correct) (simp_all add: b upt_rec)
qed

end
