(* ===== verification/Toomoss.thy ===== *)
theory Toomoss
  imports Driver_Common Transport_Cycle
begin

section \<open>The Toomoss driver: what both platforms share\<close>

text \<open>
  \<^verbatim>\<open>driver/toomoss.go\<close> (Windows) and \<^verbatim>\<open>driver/toomoss_darwin.go\<close> (macOS) have the same
  driver operations over two calls of their own, \<open>LinMasterSync\<close> and \<open>LinExSlaveGetData\<close>. The
  operations are modelled here, over these calls (\<open>ToomossCalls\<close>) and the state \<open>'w\<close> that they
  change; the theories \<open>Toomoss_Windows\<close> and \<open>Toomoss_Darwin\<close> provide the calls. Return values are
  kept as the 64-bit \<^verbatim>\<open>uintptr\<close> of the code. A slice out of range panics, which \<open>tm_panicked\<close>
  records. Logging is not modelled.
\<close>

abbreviation (input) LIN_EX_MSG_TYPE_MW :: byte where "LIN_EX_MSG_TYPE_MW \<equiv> 1"
abbreviation (input) LIN_EX_MSG_TYPE_MR :: byte where "LIN_EX_MSG_TYPE_MR \<equiv> 2"
abbreviation (input) LIN_EX_MSG_TYPE_SW :: byte where "LIN_EX_MSG_TYPE_SW \<equiv> 3"
abbreviation (input) LIN_EX_MSG_TYPE_BK :: byte where "LIN_EX_MSG_TYPE_BK \<equiv> 5"
abbreviation (input) LIN_EX_CHECK_STD :: byte where "LIN_EX_CHECK_STD \<equiv> 0"
abbreviation (input) LIN_EX_CHECK_EXT :: byte where "LIN_EX_CHECK_EXT \<equiv> 1"

record LinExMsg =
  lx_Timestamp :: u32
  lx_MsgType :: byte
  lx_CheckType :: byte
  lx_DataLen :: byte
  lx_Sync :: byte
  lx_PID :: byte
  lx_Data :: "byte list"
  lx_Check :: byte
  lx_BreakBits :: byte
  lx_Reserve1 :: byte

definition zeroLinExMsg :: LinExMsg where
  "zeroLinExMsg = \<lparr>lx_Timestamp = 0, lx_MsgType = 0, lx_CheckType = 0, lx_DataLen = 0, lx_Sync = 0,
     lx_PID = 0, lx_Data = replicate 8 0, lx_Check = 0, lx_BreakBits = 0, lx_Reserve1 = 0\<rparr>"

record Toomoss =
  tm_closed :: bool
  tm_closeOnce :: bool
  tm_channels :: "Channel list"
  tm_eventChans :: queues
  tm_panicked :: bool

text \<open>
  \<open>tc_sync\<close>: the messages to send, the buffer for the answers, the channel, the driver; the result
  is the return value and the buffer. The error that comes with it is used in texts only.
\<close>

record ('z, 'w) ToomossCalls =
  tc_sync :: "LinExMsg list \<Rightarrow> LinExMsg list \<Rightarrow> Channel \<Rightarrow> 'z Toomoss_scheme \<Rightarrow> 'w \<Rightarrow> u64 \<times> LinExMsg list \<times> 'w"
  tc_data :: "Channel \<Rightarrow> 'z Toomoss_scheme \<Rightarrow> 'w \<Rightarrow> (error + LinExMsg list) \<times> 'w"
  tc_now :: "'w \<Rightarrow> int"
  tc_sleep :: "int \<Rightarrow> 'w \<Rightarrow> 'w"

definition toomoss_validateChannel :: "Channel \<Rightarrow> 'z Toomoss_scheme \<Rightarrow> error option" where
  "toomoss_validateChannel channel d =
     (if tm_closed d then Some ErrDriverClosed
      else if channel \<notin> set (tm_channels d) then Some (Wrapped '''' [uint channel] ErrInvalidChannel)
      else None)"

subsection \<open>Events\<close>

definition toomoss_eventChannel :: "Channel \<Rightarrow> 'z Toomoss_scheme \<Rightarrow> LinEvent chan \<times> 'z Toomoss_scheme" where
  "toomoss_eventChannel channel d =
     (let (q, qs) = queue_at 10 channel (tm_eventChans d) in (q, d\<lparr>tm_eventChans := qs\<rparr>))"

text \<open>A send that does not wait; it says whether there was room.\<close>

definition toomoss_enqueue :: "Channel \<Rightarrow> LinEvent \<Rightarrow> 'z Toomoss_scheme \<Rightarrow> bool \<times> 'z Toomoss_scheme" where
  "toomoss_enqueue channel event d =
     (let (q, d) = toomoss_eventChannel channel d;
          (q, result) = try_send event q
      in (result = Sent, d\<lparr>tm_eventChans := (tm_eventChans d)(channel \<mapsto> q)\<rparr>))"

definition toomoss_dequeue :: "Channel \<Rightarrow> 'z Toomoss_scheme \<Rightarrow> LinEvent option \<times> 'z Toomoss_scheme" where
  "toomoss_dequeue channel d =
     (let (event, qs) = queue_get 10 channel (tm_eventChans d) in (event, d\<lparr>tm_eventChans := qs\<rparr>))"

definition toomossEvent :: "int \<Rightarrow> LinExMsg \<Rightarrow> Channel \<Rightarrow> LinEvent" where
  "toomossEvent now message channel =
     (let dataLen = min (unat (lx_DataLen message)) 8;
          payload = take dataLen (lx_Data message);
          direction = (if lx_MsgType message = LIN_EX_MSG_TYPE_SW then TX else RX);
          checksumType = (if lx_CheckType message = LIN_EX_CHECK_STD then ClassicChecksum
                          else EnhancedChecksum)
      in \<lparr>ev_Channel = channel, EventID = lx_PID message AND 0x3F, EventPayload = payload,
          ev_ChecksumType = checksumType, ev_Direction = direction, ev_Timestamp = now\<rparr>)"

text \<open>The body of the loop of \<open>ReadEvent\<close>.\<close>

definition toomoss_round ::
    "('z, 'w) ToomossCalls \<Rightarrow> int \<Rightarrow> Channel \<Rightarrow> int \<Rightarrow> 'z Toomoss_scheme \<times> 'w \<Rightarrow>
     ((error + LinEvent option) \<times> 'z Toomoss_scheme \<times> 'w) + 'z Toomoss_scheme \<times> 'w" where
  "toomoss_round api timeout channel deadline s =
     (let (d, w) = s
      in case toomoss_dequeue channel d of
           (Some event, d) \<Rightarrow> Inl (Inr (Some event), d, w)
         | (None, d) \<Rightarrow>
             (case tc_data api channel d w of
                (Inl err, w) \<Rightarrow> Inl (Inl err, d, w)
              | (Inr [], w) \<Rightarrow>
                  if timeout \<le> 0 \<or> \<not> tc_now api w < deadline then Inl (Inr None, d, w)
                  else Inr (d, tc_sleep api Millisecond w)
              | (Inr (message # messages), w) \<Rightarrow>
                  let now = tc_now api w;
                      d = fold (\<lambda>m d. snd (toomoss_enqueue channel (toomossEvent now m channel) d)) messages d
                  in Inl (Inr (Some (toomossEvent now message channel)), d, w)))"

definition toomoss_ReadEvent ::
    "('z, 'w) ToomossCalls \<Rightarrow> int \<Rightarrow> Channel \<Rightarrow> 'z Toomoss_scheme \<times> 'w \<Rightarrow>
     ((error + LinEvent option) \<times> 'z Toomoss_scheme \<times> 'w) option" where
  "toomoss_ReadEvent api timeout channel s =
     (case toomoss_validateChannel channel (fst s) of
        Some err \<Rightarrow> Some (Inl err, s)
      | None \<Rightarrow>
          let d = snd (toomoss_eventChannel channel (fst s));
              deadline = tc_now api (snd s) + timeout
          in loop (toomoss_round api timeout channel deadline) (d, snd s))"

subsection \<open>Frames\<close>

definition toomoss_write_message :: "byte \<Rightarrow> byte list \<Rightarrow> LinExMsg" where
  "toomoss_write_message frameID data =
     zeroLinExMsg\<lparr>lx_MsgType := LIN_EX_MSG_TYPE_MW, lx_DataLen := of_nat (length data),
       lx_PID := frameID, lx_Data := copy_at 0 data (replicate 8 0),
       lx_CheckType := (if frameID = MasterDiagnosticFrameID \<or> frameID = SlaveDiagnosticFrameID
                        then LIN_EX_CHECK_STD else LIN_EX_CHECK_EXT)\<rparr>"

text \<open>
  \<open>payload[:outMsg[0].DataLen]\<close>, which the log line of a write takes of eight bytes: it panics when
  the adapter reports a greater length.
\<close>

definition log_slice_panics :: "LinExMsg list \<Rightarrow> bool" where
  "log_slice_panics outMsg \<longleftrightarrow> unat (lx_DataLen (outMsg ! 0)) > 8"

definition toomoss_WriteMessage ::
    "('z, 'w) ToomossCalls \<Rightarrow> LinEvent option \<Rightarrow> Channel \<Rightarrow> 'z Toomoss_scheme \<times> 'w \<Rightarrow>
     error option \<times> 'z Toomoss_scheme \<times> 'w" where
  "toomoss_WriteMessage api event channel s =
     (case event of
        None \<Rightarrow> (Some (ErrorText ''nil LIN event'' []), s)
      | Some e \<Rightarrow>
          if length (EventPayload e) > 8
          then (Some (ErrorText ''invalid LIN payload length'' [int (length (EventPayload e))]), s)
          else
            let (d, w) = s;
                msg = [toomoss_write_message (EventID e) (EventPayload e)];
                (ret, outMsg, w) = tc_sync api msg [zeroLinExMsg] channel d w
            in if ret \<le> 0 then (Some (ErrorText ''toomoss LIN write failed'' [uint ret]), d, w)
               else if log_slice_panics outMsg
               then (Some (ErrorText ''slice bounds out of range'' []), d\<lparr>tm_panicked := True\<rparr>, w)
               else
                 let txEvent = e\<lparr>ev_Channel := channel, ev_Direction := TX, ev_Timestamp := tc_now api w\<rparr>
                 in (None, snd (toomoss_enqueue channel txEvent d), w))"

definition toomoss_MasterWrite ::
    "('z, 'w) ToomossCalls \<Rightarrow> byte \<Rightarrow> byte list \<Rightarrow> Channel \<Rightarrow> 'z Toomoss_scheme \<times> 'w \<Rightarrow>
     error option \<times> 'z Toomoss_scheme \<times> 'w" where
  "toomoss_MasterWrite api frameID data channel s =
     (if length data > 8
      then (Some (ErrorText ''toomoss MasterWrite: data length exceeds 8'' [int (length data)]), s)
      else
        let (d, w) = s;
            (ret, outMsg, w) =
              tc_sync api [toomoss_write_message frameID data] [zeroLinExMsg] channel d w
        in if ret \<le> 0 then (Some (ErrorText ''toomoss LIN write failed'' [uint ret]), d, w)
           else if log_slice_panics outMsg
           then (Some (ErrorText ''slice bounds out of range'' []), d\<lparr>tm_panicked := True\<rparr>, w)
           else (None, d, w))"

definition toomoss_read_message :: "byte \<Rightarrow> LinExMsg" where
  "toomoss_read_message frameID = zeroLinExMsg\<lparr>lx_MsgType := LIN_EX_MSG_TYPE_MR, lx_PID := frameID\<rparr>"

definition toomoss_MasterRead ::
    "('z, 'w) ToomossCalls \<Rightarrow> byte \<Rightarrow> Channel \<Rightarrow> 'z Toomoss_scheme \<times> 'w \<Rightarrow>
     (error + byte list) \<times> 'z Toomoss_scheme \<times> 'w" where
  "toomoss_MasterRead api frameID channel s =
     (if frameID > 0x3F then (Inl (ErrorText ''invalid LIN frame ID'' [uint frameID]), s)
      else
        let (d, w) = s;
            (ret, outMsg, w) = tc_sync api [toomoss_read_message frameID] [zeroLinExMsg] channel d w
        in if ret \<le> 0 then (Inl ErrNoSlaveResponse, d, w)
           else
             let dataLen = min (unat (lx_DataLen (outMsg ! 0))) 8
             in (Inr (take dataLen (lx_Data (outMsg ! 0))), d, w))"

text \<open>The event of a response leaves the kind of checksum at its zero value.\<close>

definition toomoss_RequestSlaveResponse ::
    "('z, 'w) ToomossCalls \<Rightarrow> byte \<Rightarrow> Channel \<Rightarrow> 'z Toomoss_scheme \<times> 'w \<Rightarrow>
     error option \<times> 'z Toomoss_scheme \<times> 'w" where
  "toomoss_RequestSlaveResponse api frameID channel s =
     (let (d, w) = s;
          (ret, outMsg, w) = tc_sync api [toomoss_read_message frameID] [zeroLinExMsg] channel d w
      in if ret \<le> 0 then (None, d, w)
         else
           let responseData = lx_Data (outMsg ! 0);
               dataLen = min (unat (lx_DataLen (outMsg ! 0))) 8
           in if dataLen = 0 then (None, d, w)
              else
                let rxEvent = \<lparr>ev_Channel = channel, EventID = frameID,
                      EventPayload = take dataLen responseData, ev_ChecksumType = 0,
                      ev_Direction = RX, ev_Timestamp = tc_now api w\<rparr>;
                    (sent, d) = toomoss_enqueue channel rxEvent d
                in if sent then (None, d, w)
                   else (Some (ErrorText ''toomoss event channel is full, discarding slave response'' []),
                         d, w))"

definition toomoss_ScheduleSlaveResponse ::
    "LinEvent option \<Rightarrow> Channel \<Rightarrow> 'z Toomoss_scheme \<times> 'w \<Rightarrow> error option \<times> 'z Toomoss_scheme \<times> 'w" where
  "toomoss_ScheduleSlaveResponse event channel s =
     (Some (ErrorText ''toomoss: ScheduleSlaveResponse is not supported in Master mode'' []), s)"

definition toomoss_LinBreak ::
    "('z, 'w) ToomossCalls \<Rightarrow> Channel \<Rightarrow> 'z Toomoss_scheme \<times> 'w \<Rightarrow> error option \<times> 'z Toomoss_scheme \<times> 'w" where
  "toomoss_LinBreak api channel s =
     (let (d, w) = s;
          msg = zeroLinExMsg\<lparr>lx_MsgType := LIN_EX_MSG_TYPE_BK, lx_Timestamp := 20\<rparr>;
          (ret, outMsg, w) = tc_sync api [msg] [zeroLinExMsg] channel d w
      in if ret \<le> 0 then (Some (ErrorText ''LIN break failed'' []), d, w) else (None, d, w))"

text \<open>The driver as the transport sees it.\<close>

definition toomoss_driver :: "('z, 'w) ToomossCalls \<Rightarrow> ('z Toomoss_scheme \<times> 'w) Driver" where
  "toomoss_driver api =
     \<lparr>ReadEvent = toomoss_ReadEvent api,
      WriteMessage = toomoss_WriteMessage api,
      ScheduleSlaveResponse = toomoss_ScheduleSlaveResponse,
      RequestSlaveResponse = toomoss_RequestSlaveResponse api\<rparr>"

end
