(* ===== verification/Toomoss_Properties.thy ===== *)
theory Toomoss_Properties
  imports Toomoss
begin

section \<open>What the operations of the Toomoss driver guarantee\<close>

text \<open>
  The lemmas on the operations that both platforms share: the events in the queues, reads that end,
  the batches an adapter delivers, and a request followed by a read. The interface \<open>checked_calls\<close>
  says what the operations need of the calls of a platform.
\<close>

definition toomoss_frame :: "Channel \<Rightarrow> LinEvent \<Rightarrow> bool" where
  "toomoss_frame c e \<longleftrightarrow> ev_Channel e = c \<and> length (EventPayload e) \<le> 8"

abbreviation (input) toomoss_good :: "'z Toomoss_scheme \<Rightarrow> bool" where
  "toomoss_good d \<equiv> all_queued toomoss_frame (tm_eventChans d)"

lemma toomoss_enqueue_chans [simp]:
  "tm_eventChans (snd (toomoss_enqueue c e d)) = queue_put 10 c e (tm_eventChans d)"
  by (auto simp: toomoss_enqueue_def toomoss_eventChannel_def queue_put_def Let_def split: prod.splits)

lemma toomoss_enqueue_other [simp]:
  "tm_closed (snd (toomoss_enqueue c e d)) = tm_closed d"
  "tm_channels (snd (toomoss_enqueue c e d)) = tm_channels d"
  "tm_panicked (snd (toomoss_enqueue c e d)) = tm_panicked d"
  "tm_closeOnce (snd (toomoss_enqueue c e d)) = tm_closeOnce d"
  by (auto simp: toomoss_enqueue_def toomoss_eventChannel_def Let_def split: prod.splits)

lemma toomoss_dequeue_eq:
  "toomoss_dequeue c d = (r, d') \<longleftrightarrow>
   (\<exists>qs. queue_get 10 c (tm_eventChans d) = (r, qs) \<and> d' = d\<lparr>tm_eventChans := qs\<rparr>)"
  by (auto simp: toomoss_dequeue_def split: prod.splits)

lemma toomossEvent_frame [simp]: "toomoss_frame c (toomossEvent now m c)"
  by (simp add: toomoss_frame_def toomossEvent_def Let_def)

lemma toomossEvent_id: "EventID (toomossEvent now m c) \<le> 0x3F"
  by (simp add: toomossEvent_def Let_def word_and_le1)

abbreviation (input) enqueue_all :: "int \<Rightarrow> Channel \<Rightarrow> LinExMsg list \<Rightarrow> 'z Toomoss_scheme \<Rightarrow> 'z Toomoss_scheme" where
  "enqueue_all now c ms d \<equiv>
     fold (\<lambda>m d. snd (toomoss_enqueue c (toomossEvent now m c) d)) ms d"

lemma enqueue_all_good: "toomoss_good d \<Longrightarrow> toomoss_good (enqueue_all now c ms d)"
  by (induction ms arbitrary: d) (simp_all add: all_queued_put)

lemma enqueue_all_length:
  "length (queued (tm_eventChans (enqueue_all now c ms d)) c) \<le> length (queued (tm_eventChans d) c) + length ms"
proof (induction ms arbitrary: d)
  case (Cons m ms)
  from Cons [of "snd (toomoss_enqueue c (toomossEvent now m c) d)"] show ?case
    using queue_put_length [of 10 c "toomossEvent now m c" "tm_eventChans d" c] by simp
qed simp

subsection \<open>Reads\<close>

text \<open>
  What a read needs of the calls to end: they do not turn back the clock, a sleep lasts, and the
  frames a call yields are taken from a backlog.
\<close>

definition calls_run_dry :: "('z, 'w) ToomossCalls \<Rightarrow> ('w \<Rightarrow> nat) \<Rightarrow> bool" where
  "calls_run_dry api backlog \<longleftrightarrow>
     (\<forall>c d w r w'. tc_data api c d w = (r, w') \<longrightarrow>
        tc_now api w \<le> tc_now api w' \<and> (\<forall>ms. r = Inr ms \<longrightarrow> backlog w' + length ms \<le> backlog w)) \<and>
     (\<forall>t w. 0 < t \<longrightarrow> tc_now api w + t \<le> tc_now api (tc_sleep api t w))"

definition toomoss_waiting :: "('w \<Rightarrow> nat) \<Rightarrow> Channel \<Rightarrow> 'z Toomoss_scheme \<times> 'w \<Rightarrow> nat" where
  "toomoss_waiting backlog c s = length (queued (tm_eventChans (fst s)) c) + backlog (snd s)"

text \<open>A round, by what it found.\<close>

lemma toomoss_round_cases:
  assumes "toomoss_round api timeout c deadline (d, w) = z"
  obtains (queued) e d1 where "toomoss_dequeue c d = (Some e, d1)" "z = Inl (Inr (Some e), d1, w)"
  | (error) d1 err w1 where "toomoss_dequeue c d = (None, d1)" "tc_data api c d1 w = (Inl err, w1)"
      "z = Inl (Inl err, d1, w1)"
  | (late) d1 w1 where "toomoss_dequeue c d = (None, d1)" "tc_data api c d1 w = (Inr [], w1)"
      "timeout \<le> 0 \<or> \<not> tc_now api w1 < deadline" "z = Inl (Inr None, d1, w1)"
  | (sleep) d1 w1 where "toomoss_dequeue c d = (None, d1)" "tc_data api c d1 w = (Inr [], w1)"
      "0 < timeout" "tc_now api w1 < deadline" "z = Inr (d1, tc_sleep api Millisecond w1)"
  | (batch) d1 m ms w1 where "toomoss_dequeue c d = (None, d1)" "tc_data api c d1 w = (Inr (m # ms), w1)"
      "z = Inl (Inr (Some (toomossEvent (tc_now api w1) m c)), enqueue_all (tc_now api w1) c ms d1, w1)"
proof -
  obtain e d1 where d: "toomoss_dequeue c d = (e, d1)" by fastforce
  show thesis
  proof (cases e)
    case (Some e)
    then show thesis using assms d by (intro queued [of e d1]) (simp_all add: toomoss_round_def)
  next
    case None
    obtain r w1 where r: "tc_data api c d1 w = (r, w1)" by fastforce
    consider err where "r = Inl err" | "r = Inr []" | m ms where "r = Inr (m # ms)"
      by (metis sum.exhaust list.exhaust)
    then show thesis
    proof cases
      case 1
      then show thesis using assms d r None by (intro error [of d1 err w1]) (simp_all add: toomoss_round_def)
    next
      case 2
      show thesis
      proof (cases "timeout \<le> 0 \<or> \<not> tc_now api w1 < deadline")
        case True
        moreover from True have "z = Inl (Inr None, d1, w1)"
          using assms d r None 2 by (auto simp: toomoss_round_def)
        ultimately show thesis using late d r None 2 by blast
      next
        case False
        then show thesis using assms d r None 2 by (intro sleep [of d1 w1]) (auto simp: toomoss_round_def)
      qed
    next
      case 3
      then show thesis using assms d r None by (intro batch [of d1 m ms w1]) (simp_all add: toomoss_round_def Let_def)
    qed
  qed
qed

lemma toomoss_dequeue_None:
  "toomoss_dequeue c d = (None, d') \<Longrightarrow>
   queued (tm_eventChans d) c = [] \<and> queued (tm_eventChans d') c' = queued (tm_eventChans d) c'"
  unfolding toomoss_dequeue_eq by (elim exE conjE) (simp add: queue_get_None)

lemma toomoss_dequeue_Some:
  "toomoss_dequeue c d = (Some e, d') \<Longrightarrow>
   queued (tm_eventChans d) c = e # queued (tm_eventChans d') c"
  unfolding toomoss_dequeue_eq by (elim exE conjE) (use queue_get_Some in fastforce)

lemma toomoss_dequeue_good:
  "toomoss_dequeue c d = (r, d') \<Longrightarrow> toomoss_good d \<Longrightarrow>
   toomoss_good d' \<and> (\<forall>e. r = Some e \<longrightarrow> toomoss_frame c e)"
  unfolding toomoss_dequeue_eq by (elim exE conjE) (simp add: all_queued_get)

interpretation toomoss_reads: polling "calls_run_dry api backlog" "\<lambda>s. tc_now api (snd s)"
  "toomoss_waiting backlog" "\<lambda>s. toomoss_good (fst s)" toomoss_frame "toomoss_round api" for api backlog
proof
  fix timeout c deadline and s s' :: "'a Toomoss_scheme \<times> 'b" and r :: "error + LinEvent option" and ev
  obtain d w where s: "s = (d, w)" by (cases s)
  show "toomoss_good (fst s')" if "toomoss_round api timeout c deadline s = Inr s'" "toomoss_good (fst s)"
    using that(1) [unfolded s] by (cases rule: toomoss_round_cases) (use that(2) s in \<open>auto dest: toomoss_dequeue_good\<close>)
  show "toomoss_good (fst s') \<and> (\<forall>ev. r = Inr (Some ev) \<longrightarrow> toomoss_frame c ev)"
    if "toomoss_round api timeout c deadline s = Inl (r, s')" "toomoss_good (fst s)"
    using that(1) [unfolded s]
    by (cases rule: toomoss_round_cases)
       (use that(2) s in \<open>auto dest!: toomoss_dequeue_good intro: enqueue_all_good\<close>)
  show "deadline \<le> tc_now api (snd s')"
    if "toomoss_round api timeout c deadline s = Inl (Inr None, s')" "0 < timeout"
    using that(1) [unfolded s] by (cases rule: toomoss_round_cases) (use that(2) in auto)
  show "tc_now api (snd s) < tc_now api (snd s') \<and> tc_now api (snd s) < deadline \<or>
      tc_now api (snd s) \<le> tc_now api (snd s') \<and> toomoss_waiting backlog c s' < toomoss_waiting backlog c s"
    if "calls_run_dry api backlog" "toomoss_round api timeout c deadline s = Inr s'"
    using that(2) [unfolded s]
  proof (cases rule: toomoss_round_cases)
    case (sleep d1 w1)
    then have "tc_now api w \<le> tc_now api w1" "tc_now api w1 + Millisecond \<le> tc_now api (tc_sleep api Millisecond w1)"
      using that(1) unfolding calls_run_dry_def by (blast, simp)
    then show ?thesis using sleep by (simp add: s)
  qed simp_all
  show "tc_now api (snd s) \<le> tc_now api (snd s') \<and>
      (tc_now api (snd s') = tc_now api (snd s) \<longrightarrow> toomoss_waiting backlog c s' < toomoss_waiting backlog c s)"
    if "calls_run_dry api backlog" "toomoss_round api timeout c deadline s = Inl (Inr (Some ev), s')"
    using that(2) [unfolded s]
  proof (cases rule: toomoss_round_cases)
    case (queued e d1)
    then show ?thesis using toomoss_dequeue_Some [of c d e d1] by (simp add: s toomoss_waiting_def)
  next
    case (batch d1 m ms w1)
    then have "tc_now api w \<le> tc_now api w1" "backlog w1 + length (m # ms) \<le> backlog w"
      using that(1) unfolding calls_run_dry_def by blast+
    then show ?thesis
      using batch enqueue_all_length [of c "tc_now api w1" ms d1] toomoss_dequeue_None [of c d d1 c]
      by (auto simp: s toomoss_waiting_def)
  qed simp_all
qed

lemma toomoss_eventChannel_keeps [simp]:
  "all_queued P (tm_eventChans (snd (toomoss_eventChannel c d))) = all_queued P (tm_eventChans d)"
  "queued (tm_eventChans (snd (toomoss_eventChannel c d))) c' = queued (tm_eventChans d) c'"
  "tm_closed (snd (toomoss_eventChannel c d)) = tm_closed d"
  "tm_channels (snd (toomoss_eventChannel c d)) = tm_channels d"
  by (simp_all add: toomoss_eventChannel_def split_beta)

lemma toomoss_read_good:
  assumes "toomoss_ReadEvent api timeout c s = Some (r, s')" and "toomoss_good (fst s)"
  shows "toomoss_good (fst s') \<and> (\<forall>ev. r = Inr (Some ev) \<longrightarrow> toomoss_frame c ev)"
  using toomoss_reads.polled_read_good [OF assms(1) [unfolded toomoss_ReadEvent_def Let_def]] assms(2)
  by simp

lemma toomoss_read_returns:
  assumes "calls_run_dry api backlog" and "toomoss_good d"
  shows "\<exists>r d' w'. toomoss_ReadEvent api timeout c (d, w) = Some (r, d', w') \<and> toomoss_good d' \<and>
    (\<forall>ev. r = Inr (Some ev) \<longrightarrow> toomoss_frame c ev) \<and>
    (r = Inr None \<longrightarrow> timeout \<le> 0 \<or> tc_now api w + timeout \<le> tc_now api w')"
proof (cases "toomoss_validateChannel c d")
  case None
  let ?s = "(snd (toomoss_eventChannel c d), w)" and ?d = "tc_now api w + timeout"
  obtain r d' w' where l: "loop (toomoss_round api timeout c ?d) ?s = Some (r, d', w')"
    using toomoss_reads.read_returns [OF assms(1)] by (metis prod.collapse)
  then have run: "toomoss_ReadEvent api timeout c (d, w) = Some (r, d', w')"
    using None by (simp add: toomoss_ReadEvent_def)
  have "timeout \<le> 0 \<or> ?d \<le> tc_now api w'" if "r = Inr None"
    using toomoss_reads.read_late [of api timeout c ?d ?s "(d', w')"] l that by fastforce
  then show ?thesis using run toomoss_read_good [OF run] assms(2) by simp
next
  case (Some err)
  then show ?thesis using assms(2) by (simp add: toomoss_ReadEvent_def)
qed

subsection \<open>Batches\<close>

lemma enqueue_all_chans:
  "tm_eventChans (enqueue_all now c ms d) =
   fold (queue_put 10 c) (map (\<lambda>m. toomossEvent now m c) ms) (tm_eventChans d)"
  by (induction ms arbitrary: d) simp_all

lemma queues_open_dequeue:
  "toomoss_dequeue c d = (r, d') \<Longrightarrow> queues_open 10 (tm_eventChans d) \<Longrightarrow> queues_open 10 (tm_eventChans d')"
  unfolding toomoss_dequeue_eq by (elim exE conjE) (use queues_open_get in fastforce)

text \<open>
  A read with nothing queued takes the frames the adapter has: it returns the first and queues the
  next ten.
\<close>

lemma toomoss_dequeue_empty:
  assumes "queued (tm_eventChans d) c = []"
  shows "\<exists>d1. toomoss_dequeue c d = (None, d1)"
proof -
  obtain r d1 where d: "toomoss_dequeue c d = (r, d1)" by fastforce
  then have "r = None" using assms toomoss_dequeue_Some [of c d _ d1] by (cases r) auto
  then show ?thesis using d by blast
qed

lemma toomoss_read_queued:
  assumes "toomoss_validateChannel c d = None" and "queued (tm_eventChans d) c = e # es"
  shows "\<exists>d'. toomoss_ReadEvent api timeout c (d, w) = Some (Inr (Some e), d', w) \<and>
    queued (tm_eventChans d') c = es"
proof -
  let ?d = "snd (toomoss_eventChannel c d)"
  obtain r d1 where d1: "toomoss_dequeue c ?d = (r, d1)" by fastforce
  have r: "r = Some e \<and> queued (tm_eventChans d1) c = es"
  proof (cases r)
    case None
    then show ?thesis using toomoss_dequeue_None [of c ?d d1 c] d1 assms(2) by simp
  next
    case (Some a)
    then show ?thesis using toomoss_dequeue_Some [of c ?d a d1] d1 assms(2) by simp
  qed
  then have "toomoss_round api timeout c deadline (?d, w) = Inl (Inr (Some e), d1, w)" for deadline
    using d1 by (simp add: toomoss_round_def)
  then show ?thesis using assms(1) r by (simp add: toomoss_ReadEvent_def Let_def loop_Inl)
qed

lemma toomoss_read_batch:
  assumes "toomoss_validateChannel c d = None" and "queues_open 10 (tm_eventChans d)"
    and "queued (tm_eventChans d) c = []"
    and "\<And>d. toomoss_validateChannel c d = None \<Longrightarrow> tc_data api c d w = (Inr (m # ms), w')"
  shows "\<exists>d'. toomoss_ReadEvent api timeout c (d, w) =
      Some (Inr (Some (toomossEvent (tc_now api w') m c)), d', w') \<and>
    queued (tm_eventChans d') c = map (\<lambda>m. toomossEvent (tc_now api w') m c) (take 10 ms)"
proof -
  let ?d = "snd (toomoss_eventChannel c d)"
  obtain d1 where d1: "toomoss_dequeue c ?d = (None, d1)"
    using toomoss_dequeue_empty [of ?d c] assms(3) by auto
  then have same: "tm_closed d1 = tm_closed d" "tm_channels d1 = tm_channels d"
    unfolding toomoss_dequeue_eq by (auto simp: toomoss_eventChannel_def split_beta)
  then have data: "tc_data api c d1 w = (Inr (m # ms), w')"
    by (intro assms(4)) (use assms(1) in \<open>simp add: toomoss_validateChannel_def split: if_splits\<close>)
  let ?d' = "enqueue_all (tc_now api w') c ms d1"
  have "queues_open 10 (tm_eventChans ?d)"
    using assms(2) by (simp add: toomoss_eventChannel_def split_beta)
  then have "queues_open 10 (tm_eventChans d1)" "queued (tm_eventChans d1) c = []"
    using queues_open_dequeue [OF d1] toomoss_dequeue_None [OF d1, of c] by simp_all
  then have "queued (tm_eventChans ?d') c = map (\<lambda>m. toomossEvent (tc_now api w') m c) (take 10 ms)"
    by (simp add: enqueue_all_chans queued_put_all take_map)
  moreover have "toomoss_round api timeout c deadline (?d, w) =
      Inl (Inr (Some (toomossEvent (tc_now api w') m c)), ?d', w')" for deadline
    using d1 data by (simp add: toomoss_round_def Let_def)
  ultimately show ?thesis using assms(1) by (simp add: toomoss_ReadEvent_def Let_def loop_Inl)
qed

subsection \<open>Requests\<close>

text \<open>A request that is answered leaves the answer for the next read.\<close>

lemma toomoss_request_answered:
  assumes "queues_open 10 (tm_eventChans d)" and "queued (tm_eventChans d) c = []"
    and "tc_sync api [toomoss_read_message i] [zeroLinExMsg] c d w = (ret, [m], w')"
    and "0 < ret" and "0 < lx_DataLen m"
  shows "\<exists>d'. toomoss_RequestSlaveResponse api i c (d, w) = (None, d', w') \<and>
    tm_closed d' = tm_closed d \<and> tm_channels d' = tm_channels d \<and>
    queued (tm_eventChans d') c =
      [\<lparr>ev_Channel = c, EventID = i, EventPayload = take (min (unat (lx_DataLen m)) 8) (lx_Data m),
        ev_ChecksumType = 0, ev_Direction = RX, ev_Timestamp = tc_now api w'\<rparr>]"
proof -
  let ?e = "\<lparr>ev_Channel = c, EventID = i, EventPayload = take (min (unat (lx_DataLen m)) 8) (lx_Data m),
        ev_ChecksumType = 0, ev_Direction = RX, ev_Timestamp = tc_now api w'\<rparr>"
  have ret: "\<not> ret \<le> 0" using assms(4) by simp
  have n: "min (unat (lx_DataLen m)) 8 \<noteq> 0" using assms(5) by (simp add: word_less_nat_alt)
  have sent: "fst (toomoss_enqueue c ?e d)"
    using assms(1,2)
    by (cases "tm_eventChans d c")
       (auto simp: toomoss_enqueue_def toomoss_eventChannel_def queue_at_def try_send_def make_chan_def
         queues_open_def queued_def Let_def)
  have "queued (tm_eventChans (snd (toomoss_enqueue c ?e d))) c = [?e]"
    using assms(1,2) by (simp add: queued_put_room queues_open_def)
  then show ?thesis
    using assms(3) ret n sent
    by (intro exI [of _ "snd (toomoss_enqueue c ?e d)"])
       (simp add: toomoss_RequestSlaveResponse_def Let_def split_beta)
qed

lemma toomoss_request_good:
  "toomoss_good (fst s) \<Longrightarrow> toomoss_good (fst (snd (toomoss_RequestSlaveResponse api i c s)))"
  by (cases s)
     (auto simp: toomoss_RequestSlaveResponse_def Let_def split_beta toomoss_frame_def intro!: all_queued_put)

lemma toomoss_write_good:
  "toomoss_good (fst s) \<Longrightarrow> toomoss_good (fst (snd (toomoss_WriteMessage api (Some e) c s)))"
  by (cases s)
     (auto simp: toomoss_WriteMessage_def Let_def split_beta toomoss_frame_def intro!: all_queued_put)

interpretation toomoss_frames: frame_driver "toomoss_driver api" "\<lambda>s. toomoss_good (fst s)" for api
proof
  fix s s' :: "'a Toomoss_scheme \<times> 'b" and r rt c
  assume "toomoss_good (fst s)" and "ReadEvent (toomoss_driver api) rt c s = Some (r, s')"
  then show "toomoss_good (fst s') \<and> (\<forall>ev. r = Inr (Some ev) \<longrightarrow> length (EventPayload ev) \<le> 8)"
    using toomoss_read_good [of api rt c s r s'] by (auto simp: toomoss_driver_def toomoss_frame_def)
qed (simp_all add: toomoss_driver_def toomoss_write_good toomoss_request_good toomoss_ScheduleSlaveResponse_def)

subsection \<open>Calls that check the channel\<close>

text \<open>
  What the operations rely on when a channel is not valid: the calls then do nothing, and the one
  that sends yields 0.
\<close>

locale checked_calls =
  fixes api :: "('z, 'w) ToomossCalls"
  assumes sync_checked: "toomoss_validateChannel c d = Some err \<Longrightarrow> length out = length msg \<Longrightarrow> msg \<noteq> [] \<Longrightarrow>
      tc_sync api msg out c d w = (0, out, w)"
begin

text \<open>No operation on an invalid channel reaches the adapter; not every one says so.\<close>

lemma invalid_channel:
  assumes "toomoss_validateChannel c d = Some err"
  shows "toomoss_ReadEvent api timeout c (d, w) = Some (Inl err, d, w)"
    and "\<exists>e. toomoss_WriteMessage api event c (d, w) = (Some e, d, w) \<and>
      (\<forall>ev. event = Some ev \<and> length (EventPayload ev) \<le> 8 \<longrightarrow> e = ErrorText ''toomoss LIN write failed'' [0])"
    and "\<exists>e. toomoss_MasterWrite api i bytes c (d, w) = (Some e, d, w) \<and>
      (length bytes \<le> 8 \<longrightarrow> e = ErrorText ''toomoss LIN write failed'' [0])"
    and "\<exists>e. toomoss_MasterRead api i c (d, w) = (Inl e, d, w) \<and> (i \<le> 0x3F \<longrightarrow> e = ErrNoSlaveResponse)"
    and "toomoss_RequestSlaveResponse api i c (d, w) = (None, d, w)"
    and "toomoss_LinBreak api c (d, w) = (Some (ErrorText ''LIN break failed'' []), d, w)"
  by (simp_all add: toomoss_ReadEvent_def toomoss_WriteMessage_def toomoss_MasterWrite_def toomoss_MasterRead_def
      toomoss_RequestSlaveResponse_def toomoss_LinBreak_def sync_checked [OF assms] assms Let_def linorder_not_le [symmetric] split: option.split)

end

end
