(* ===== verification/Windows_Paths.thy ===== *)
theory Windows_Paths
  imports Driver_Common
begin

section \<open>Strings and paths on Windows\<close>

text \<open>
  What the search for the vendors' libraries uses of Go's \<^verbatim>\<open>strings\<close> and \<^verbatim>\<open>path/filepath\<close>, with the
  rules of Windows. A string is a list of bytes, and letters and blanks are those of ASCII. A volume
  is a drive letter or a share; the device prefixes \<^verbatim>\<open>\\.\UNC\<close> and \<^verbatim>\<open>\??\<close> have no rule of their own.
\<close>

subsection \<open>Strings\<close>

definition lower_char :: "char \<Rightarrow> char" where
  "lower_char c =
     (let n = of_char c :: nat in if 65 \<le> n \<and> n \<le> 90 then char_of (n + 32) else c)"

definition ToLower :: "string \<Rightarrow> string" where
  "ToLower s = map lower_char s"

definition EqualFold :: "string \<Rightarrow> string \<Rightarrow> bool" where
  "EqualFold s t \<longleftrightarrow> ToLower s = ToLower t"

definition trim_by :: "(char \<Rightarrow> bool) \<Rightarrow> string \<Rightarrow> string" where
  "trim_by p s = rev (dropWhile p (rev (dropWhile p s)))"

definition TrimSpace :: "string \<Rightarrow> string" where
  "TrimSpace s = trim_by (\<lambda>c. of_char c \<in> {9 :: nat, 10, 11, 12, 13, 32}) s"

definition TrimQuotes :: "string \<Rightarrow> string" where
  "TrimQuotes s = trim_by (\<lambda>c. of_char c = (34 :: nat)) s"

fun Contains :: "string \<Rightarrow> string \<Rightarrow> bool" where
  "Contains [] t = (t = [])"
| "Contains (c # s) t = (take (length t) (c # s) = t \<or> Contains s t)"

fun strings_Join :: "string list \<Rightarrow> string \<Rightarrow> string" where
  "strings_Join [] sep = ''''"
| "strings_Join [e] sep = e"
| "strings_Join (e # es) sep = e @ sep @ strings_Join es sep"

lemma Contains_iff: "Contains s t \<longleftrightarrow> (\<exists>u v. s = u @ t @ v)"
proof (induction s)
  case (Cons c s)
  show ?case
  proof
    assume "Contains (c # s) t"
    then consider "take (length t) (c # s) = t" | "Contains s t" by auto
    then show "\<exists>u v. c # s = u @ t @ v"
    proof cases
      case 1
      then have "c # s = [] @ t @ drop (length t) (c # s)" by (metis append_Nil append_take_drop_id)
      then show ?thesis by blast
    next
      case 2
      then show ?thesis using Cons by (metis append_Cons)
    qed
  next
    assume "\<exists>u v. c # s = u @ t @ v"
    then obtain u v where uv: "c # s = u @ t @ v" by blast
    then show "Contains (c # s) t"
    proof (cases u)
      case Nil
      then have "take (length t) (c # s) = t" using uv by simp
      then show ?thesis by simp
    next
      case (Cons a u')
      then show ?thesis using uv Cons.IH by auto
    qed
  qed
qed simp

subsection \<open>Paths\<close>

abbreviation (input) Separator :: char where "Separator \<equiv> CHR 0x5C"

definition is_separator :: "char \<Rightarrow> bool" where
  "is_separator c \<longleftrightarrow> of_char c \<in> {47 :: nat, 92}"

definition FromSlash :: "string \<Rightarrow> string" where
  "FromSlash path = map (\<lambda>c. if c = CHR ''/'' then Separator else c) path"

text \<open>The length of a share: up to the second separator after its host, or all of the path.\<close>

definition uncLen :: "string \<Rightarrow> nat \<Rightarrow> nat" where
  "uncLen path prefixLen =
     (let rest = drop prefixLen path;
          host = takeWhile (\<lambda>c. \<not> is_separator c) rest;
          share = takeWhile (\<lambda>c. \<not> is_separator c) (drop (length host + 1) rest)
      in min (length path) (prefixLen + length host + 1 + length share))"

definition volumeNameLen :: "string \<Rightarrow> nat" where
  "volumeNameLen path =
     (if length path \<ge> 2 \<and> path ! 1 = CHR '':'' then 2
      else if length path = 0 \<or> \<not> is_separator (path ! 0) then 0
      else if length path \<ge> 2 \<and> is_separator (path ! 1) then uncLen path 2
      else 0)"

definition VolumeName :: "string \<Rightarrow> string" where
  "VolumeName path = FromSlash (take (volumeNameLen path) path)"

fun path_elements :: "string \<Rightarrow> string list" where
  "path_elements [] = ['''']"
| "path_elements (c # s) =
     (if is_separator c then '''' # path_elements s
      else case path_elements s of [] \<Rightarrow> [[c]] | e # es \<Rightarrow> (c # e) # es)"

text \<open>Empty elements and dots go away, two dots take the element before them where there is one.\<close>

fun clean_elements :: "bool \<Rightarrow> string list \<Rightarrow> string list \<Rightarrow> string list" where
  "clean_elements rooted out [] = rev out"
| "clean_elements rooted out (e # es) =
     (if e = '''' \<or> e = ''.'' then clean_elements rooted out es
      else if e = ''..'' then
        if out \<noteq> [] \<and> hd out \<noteq> ''..'' then clean_elements rooted (tl out) es
        else if rooted then clean_elements rooted out es
        else clean_elements rooted (''..'' # out) es
      else clean_elements rooted (e # out) es)"

definition Clean :: "string \<Rightarrow> string" where
  "Clean originalPath =
     (let volLen = volumeNameLen originalPath;
          path = drop volLen originalPath
      in if path = '''' then
           if volLen > 1 \<and> is_separator (originalPath ! 0) \<and> is_separator (originalPath ! 1)
           then FromSlash originalPath
           else originalPath @ ''.''
         else
           let rooted = is_separator (path ! 0);
               out = strings_Join (clean_elements rooted [] (path_elements path)) [Separator];
               out = (if rooted then Separator # out else if out = '''' then ''.'' else out)
           in VolumeName originalPath @ out)"

definition join_step :: "string \<Rightarrow> string \<Rightarrow> string" where
  "join_step b e =
     (if b = '''' then e
      else if is_separator (last b) then b @ dropWhile is_separator e
      else if last b = CHR '':'' then b @ e
      else b @ [Separator] @ e)"

definition Join :: "string list \<Rightarrow> string" where
  "Join elements =
     (let b = foldl join_step '''' elements in if b = '''' then '''' else Clean b)"

definition not_separator_suffix :: "string \<Rightarrow> string" where
  "not_separator_suffix path = rev (takeWhile (\<lambda>c. \<not> is_separator c) (rev path))"

definition Base :: "string \<Rightarrow> string" where
  "Base path =
     (if path = '''' then ''.''
      else
        let path = rev (dropWhile is_separator (rev path));
            path = drop (volumeNameLen path) path;
            path = not_separator_suffix path
        in if path = '''' then [Separator] else path)"

definition Dir :: "string \<Rightarrow> string" where
  "Dir path =
     (let vol = VolumeName path;
          rest = drop (volumeNameLen path) path;
          dir = Clean (take (length rest - length (not_separator_suffix rest)) rest)
      in if dir = ''.'' \<and> length vol > 2 then vol else vol @ dir)"

lemma Clean_nonempty: "Clean p \<noteq> ''''"
  by (cases p) (auto simp: Clean_def FromSlash_def volumeNameLen_def Let_def)

end
