(* ===== verification/Library_Search.thy ===== *)
theory Library_Search
  imports Windows_Paths
begin

section \<open>Finding and loading the vendors' libraries on Windows\<close>

text \<open>
  How the Windows drivers find their DLLs and the addresses of the functions they call:
  \<^verbatim>\<open>pcan.go\<close>, \<^verbatim>\<open>vector.go\<close>, \<^verbatim>\<open>tsmaster.go\<close> and the registry search of \<^verbatim>\<open>toomoss.go\<close>. The operating system
  (environment, registry, file system, loader) is the parameter \<open>Windows\<close> over a state \<open>'x\<close>. The error
  that joins the errors of all candidates holds their number.
\<close>

subsection \<open>The system\<close>

text \<open>A subkey of the uninstall key: its values (empty when missing) and the result of closing it.\<close>

record subkey =
  sk_Publisher :: string
  sk_DisplayName :: string
  sk_InstallLocation :: string
  sk_AppPath :: string
  sk_UninstallString :: string
  sk_Close :: "error option"

datatype registry_view = View64 | View32 | DefaultView

record 'x Windows =
  GOARCH :: string
  Getenv :: "string \<Rightarrow> 'x \<Rightarrow> string"
  SharedDlls :: "registry_view \<Rightarrow> 'x \<Rightarrow> error + string list"
  Uninstall :: "registry_view \<Rightarrow> 'x \<Rightarrow> error + string list"
  OpenSubkey :: "registry_view \<Rightarrow> string \<Rightarrow> 'x \<Rightarrow> error + subkey"
  TSMasterValue :: "registry_view \<Rightarrow> string \<Rightarrow> 'x \<Rightarrow> error + string"
  Stat :: "string \<Rightarrow> 'x \<Rightarrow> error option"
  SetDllDirectory :: "string \<Rightarrow> 'x \<Rightarrow> error option \<times> 'x"
  sys_LoadLibrary :: "string \<Rightarrow> 'x \<Rightarrow> (error + u64) \<times> 'x"
  sys_GetProcAddress :: "u64 \<Rightarrow> string \<Rightarrow> 'x \<Rightarrow> u64 \<times> error option \<times> 'x"
  sys_FreeLibrary :: "u64 \<Rightarrow> 'x \<Rightarrow> error option \<times> 'x"

subsection \<open>Candidates\<close>

text \<open>A path joins the candidates unless it is empty or there already, whatever the case of its letters.\<close>

definition normalized_path :: "string \<Rightarrow> string" where
  "normalized_path path = ToLower (Clean path)"

definition add_candidate :: "string \<Rightarrow> string list \<times> string set \<Rightarrow> string list \<times> string set" where
  "add_candidate path s =
     (if path = '''' then s
      else
        let (candidates, seen) = s;
            normalized = normalized_path path
        in if normalized \<in> seen then s
           else (candidates @ [path], insert normalized seen))"

fun find_shared :: "string \<Rightarrow> string list \<Rightarrow> error + string" where
  "find_shared dllName [] = Inl (ErrorText (dllName @ '' not found in SharedDlls'') [])"
| "find_shared dllName (name # names) =
     (if EqualFold (Base name) dllName then Inr name else find_shared dllName names)"

definition dll_from_registry :: "'x Windows \<Rightarrow> string \<Rightarrow> 'x \<Rightarrow> error + string" where
  "dll_from_registry os dllName x =
     (case SharedDlls os (if GOARCH os = ''386'' then View32 else View64) x of
        Inl err \<Rightarrow> Inl err
      | Inr names \<Rightarrow> find_shared dllName names)"

definition system_root :: "'x Windows \<Rightarrow> 'x \<Rightarrow> string" where
  "system_root os x =
     (let systemRoot = Getenv os ''SystemRoot'' x
      in if systemRoot = '''' then ''C:'' @ [Separator] @ ''Windows'' else systemRoot)"

definition pcanDLLName :: string where
  "pcanDLLName = ''PLinApi.dll''"

definition getPCANBasicDLLFromRegistry :: "'x Windows \<Rightarrow> 'x \<Rightarrow> error + string" where
  "getPCANBasicDLLFromRegistry os x = dll_from_registry os pcanDLLName x"

definition pcanDLLCandidates :: "'x Windows \<Rightarrow> 'x \<Rightarrow> string list" where
  "pcanDLLCandidates os x =
     (let s = ([], {});
          s = (case getPCANBasicDLLFromRegistry os x of
                 Inr path \<Rightarrow> if path \<noteq> '''' then add_candidate path s else s
               | Inl err \<Rightarrow> s);
          systemRoot = system_root os x;
          s = (if GOARCH os = ''386''
               then add_candidate (Join [systemRoot, ''SysWOW64'', pcanDLLName]) s else s);
          s = add_candidate (Join [systemRoot, ''System32'', pcanDLLName]) s;
          s = add_candidate (Join [''.'', ''bin'', pcanDLLName]) s;
          s = add_candidate pcanDLLName s
      in fst s)"

definition vectorDLLName :: "'x Windows \<Rightarrow> string" where
  "vectorDLLName os = (if GOARCH os = ''386'' then ''vxlapi.dll'' else ''vxlapi64.dll'')"

definition vectorDLLCandidates :: "'x Windows \<Rightarrow> string \<Rightarrow> 'x \<Rightarrow> string list" where
  "vectorDLLCandidates os override x =
     (if override \<noteq> '''' then [override]
      else
        let dllName = vectorDLLName os;
            s = ([], {});
            s = (case dll_from_registry os dllName x of
                   Inr path \<Rightarrow> add_candidate path s
                 | Inl err \<Rightarrow> s);
            systemRoot = system_root os x;
            s = (if GOARCH os = ''386''
                 then add_candidate (Join [systemRoot, ''SysWOW64'', dllName]) s else s);
            s = add_candidate (Join [systemRoot, ''System32'', dllName]) s;
            s = add_candidate (Join [''.'', ''bin'', dllName]) s;
            s = add_candidate dllName s
        in fst s)"

subsection \<open>PLIN\<close>

record pcanAPI =
  api_dll :: u64
  registerClient :: u64
  removeClient :: u64
  connectClient :: u64
  disconnectClient :: u64
  resetClient :: u64
  setClientFilter :: u64
  api_read :: u64
  api_write :: u64
  initializeHardware :: u64
  getAvailableHW :: u64
  getHardwareParam :: u64
  api_setFrameEntry :: u64
  updateByteArray :: u64
  calculateChecksum :: u64

definition new_pcanAPI :: "u64 \<Rightarrow> pcanAPI" where
  "new_pcanAPI handle =
     \<lparr>api_dll = handle, registerClient = 0, removeClient = 0, connectClient = 0, disconnectClient = 0,
      resetClient = 0, setClientFilter = 0, api_read = 0, api_write = 0, initializeHardware = 0,
      getAvailableHW = 0, getHardwareParam = 0, api_setFrameEntry = 0, updateByteArray = 0,
      calculateChecksum = 0\<rparr>"

definition pcan_procedures :: "(string \<times> (u64 \<Rightarrow> pcanAPI \<Rightarrow> pcanAPI)) list" where
  "pcan_procedures =
     [(''LIN_RegisterClient'', \<lambda>a. registerClient_update (\<lambda>_. a)),
      (''LIN_RemoveClient'', \<lambda>a. removeClient_update (\<lambda>_. a)),
      (''LIN_ConnectClient'', \<lambda>a. connectClient_update (\<lambda>_. a)),
      (''LIN_DisconnectClient'', \<lambda>a. disconnectClient_update (\<lambda>_. a)),
      (''LIN_ResetClient'', \<lambda>a. resetClient_update (\<lambda>_. a)),
      (''LIN_SetClientFilter'', \<lambda>a. setClientFilter_update (\<lambda>_. a)),
      (''LIN_Read'', \<lambda>a. api_read_update (\<lambda>_. a)),
      (''LIN_Write'', \<lambda>a. api_write_update (\<lambda>_. a)),
      (''LIN_InitializeHardware'', \<lambda>a. initializeHardware_update (\<lambda>_. a)),
      (''LIN_GetAvailableHardware'', \<lambda>a. getAvailableHW_update (\<lambda>_. a)),
      (''LIN_GetHardwareParam'', \<lambda>a. getHardwareParam_update (\<lambda>_. a)),
      (''LIN_SetFrameEntry'', \<lambda>a. api_setFrameEntry_update (\<lambda>_. a)),
      (''LIN_UpdateByteArray'', \<lambda>a. updateByteArray_update (\<lambda>_. a)),
      (''LIN_CalculateChecksum'', \<lambda>a. calculateChecksum_update (\<lambda>_. a))]"

text \<open>The addresses of the functions that are there, and the names of those that are missing.\<close>

fun load_each ::
    "'x Windows \<Rightarrow> (string \<times> (u64 \<Rightarrow> pcanAPI \<Rightarrow> pcanAPI)) list \<Rightarrow> pcanAPI \<Rightarrow> 'x \<Rightarrow>
     string list \<times> pcanAPI \<times> 'x" where
  "load_each os [] a x = ([], a, x)"
| "load_each os ((name, dst) # procedures) a x =
     (let (address, err, x) = sys_GetProcAddress os (api_dll a) name x
      in if err \<noteq> None \<or> address = 0
         then let (missing, a, x) = load_each os procedures a x in (name # missing, a, x)
         else load_each os procedures (dst address a) x)"

definition loadProcedures :: "'x Windows \<Rightarrow> pcanAPI \<Rightarrow> 'x \<Rightarrow> error option \<times> pcanAPI \<times> 'x" where
  "loadProcedures os a x =
     (let (missing, a, x) = load_each os pcan_procedures a x
      in if length missing \<noteq> 0
         then (Some (ErrorText (''missing procedures: '' @ strings_Join missing '', '') []), a, x)
         else (None, a, x))"

fun load_first :: "'x Windows \<Rightarrow> string list \<Rightarrow> nat \<Rightarrow> 'x \<Rightarrow> (error + pcanAPI) \<times> 'x" where
  "load_first os [] loadErrors x = (Inl (ErrorText (''load '' @ pcanDLLName) [int loadErrors]), x)"
| "load_first os (candidate # candidates) loadErrors x =
     (case sys_LoadLibrary os candidate x of
        (Inl err, x) \<Rightarrow> load_first os candidates (loadErrors + 1) x
      | (Inr handle, x) \<Rightarrow>
          (case loadProcedures os (new_pcanAPI handle) x of
             (Some err, a, x) \<Rightarrow>
               load_first os candidates (loadErrors + 1) (snd (sys_FreeLibrary os handle x))
           | (None, a, x) \<Rightarrow> (Inr a, x)))"

definition loadPCANAPI :: "'x Windows \<Rightarrow> 'x \<Rightarrow> (error + pcanAPI) \<times> 'x" where
  "loadPCANAPI os x = load_first os (pcanDLLCandidates os x) 0 x"

text \<open>The API is never nil: the driver closes it once.\<close>

definition pcanAPI_close :: "'x Windows \<Rightarrow> pcanAPI \<Rightarrow> 'x \<Rightarrow> error option \<times> pcanAPI \<times> 'x" where
  "pcanAPI_close os a x =
     (if api_dll a = 0 then (None, a, x)
      else let (err, x) = sys_FreeLibrary os (api_dll a) x in (err, a\<lparr>api_dll := 0\<rparr>, x))"

subsection \<open>Vector XL\<close>

text \<open>
  The library is loaded by a \<^verbatim>\<open>LazyDLL\<close>, which nothing releases; its functions are the map
  \<open>procedures\<close> from their names to the addresses found, which the code goes through in the order
  of the names.
\<close>

record vectorAPI =
  va_dll :: u64
  va_procedures :: "string \<Rightarrow> u64 option"

definition vector_procedures :: "string list" where
  "vector_procedures =
     [''xlActivateChannel'', ''xlCloseDriver'', ''xlClosePort'', ''xlDeactivateChannel'',
      ''xlFlushReceiveQueue'', ''xlGetApplConfig'', ''xlGetChannelIndex'', ''xlGetChannelMask'',
      ''xlGetErrorString'', ''xlGetReceiveQueueLevel'', ''xlLinSendRequest'',
      ''xlLinSetChannelParams'', ''xlLinSetChecksum'', ''xlLinSetDLC'', ''xlLinSetSlave'',
      ''xlLinSetSleepMode'', ''xlLinSwitchSlave'', ''xlLinWakeUp'', ''xlOpenDriver'', ''xlOpenPort'',
      ''xlReceive'']"

fun find_procedures ::
    "'x Windows \<Rightarrow> string list \<Rightarrow> vectorAPI \<Rightarrow> 'x \<Rightarrow> string option \<times> vectorAPI \<times> 'x" where
  "find_procedures os [] api x = (None, api, x)"
| "find_procedures os (name # names) api x =
     (case sys_GetProcAddress os (va_dll api) name x of
        (address, Some err, x) \<Rightarrow> (Some name, api, x)
      | (address, None, x) \<Rightarrow>
          find_procedures os names (api\<lparr>va_procedures := (va_procedures api)(name \<mapsto> address)\<rparr>) x)"

fun load_first_vector :: "'x Windows \<Rightarrow> string list \<Rightarrow> nat \<Rightarrow> 'x \<Rightarrow> (error + vectorAPI) \<times> 'x" where
  "load_first_vector os [] loadErrors x =
     (Inl (ErrorText (''failed to load '' @ vectorDLLName os) [int loadErrors]), x)"
| "load_first_vector os (candidate # candidates) loadErrors x =
     (case sys_LoadLibrary os candidate x of
        (Inl err, x) \<Rightarrow> load_first_vector os candidates (loadErrors + 1) x
      | (Inr handle, x) \<Rightarrow>
          (case find_procedures os vector_procedures \<lparr>va_dll = handle, va_procedures = (\<lambda>_. None)\<rparr> x of
             (Some missing, api, x) \<Rightarrow> load_first_vector os candidates (loadErrors + 1) x
           | (None, api, x) \<Rightarrow> (Inr api, x)))"

definition loadVectorAPI :: "'x Windows \<Rightarrow> string \<Rightarrow> 'x \<Rightarrow> (error + vectorAPI) \<times> 'x" where
  "loadVectorAPI os override x =
     (if GOARCH os \<noteq> ''amd64'' \<and> GOARCH os \<noteq> ''386''
      then (Inl (ErrorText (''Vector XL LIN is unsupported on Windows/'' @ GOARCH os) []), x)
      else load_first_vector os (vectorDLLCandidates os override x) 0 x)"

subsection \<open>TSMaster\<close>

record tsmasterLoader =
  tl_dll :: "u64 option"
  tl_dllPath :: string

definition getTSMasterDLLFromRegistry :: "'x Windows \<Rightarrow> 'x \<Rightarrow> error + string" where
  "getTSMasterDLLFromRegistry os x =
     TSMasterValue os View32 (if GOARCH os = ''386'' then ''libTSMaster_x86'' else ''libTSMaster_x64'') x"

definition newTSMasterLoader :: "'x Windows \<Rightarrow> 'x \<Rightarrow> (error + tsmasterLoader) \<times> 'x" where
  "newTSMasterLoader os x =
     (let loader = \<lparr>tl_dll = None, tl_dllPath = ''''\<rparr>
      in case getTSMasterDLLFromRegistry os x of
           Inl err \<Rightarrow> (Inl (Wrapped ''failed to get TSMaster DLL path from registry'' [] err), x)
         | Inr dllPath \<Rightarrow>
             if dllPath = '''' then (Inl (ErrorText ''TSMaster DLL path from registry is empty'' []), x)
             else case SetDllDirectory os (Dir dllPath) x of
                    (Some err, x) \<Rightarrow> (Inl (Wrapped ''failed to set TSMaster DLL directory'' [] err), x)
                  | (None, x) \<Rightarrow>
                      let loader = loader\<lparr>tl_dllPath := dllPath\<rparr>
                      in case sys_LoadLibrary os dllPath x of
                           (Inl err, x) \<Rightarrow> (Inl (Wrapped ''failed to load TSMaster.dll'' [] err), x)
                         | (Inr handle, x) \<Rightarrow> (Inr (loader\<lparr>tl_dll := Some handle\<rparr>), x))"

subsection \<open>The directory of the Toomoss library\<close>

definition cut_at_blank :: "string \<Rightarrow> string" where
  "cut_at_blank s = (if s \<noteq> '''' \<and> hd s \<noteq> CHR '' '' then takeWhile (\<lambda>c. c \<noteq> CHR '' '') s else s)"

definition dirFromUninstallString :: "string \<Rightarrow> string" where
  "dirFromUninstallString s =
     (let s = TrimSpace s
      in if s = '''' then ''''
         else
           let s = TrimQuotes (cut_at_blank (TrimQuotes s))
           in if s = '''' then '''' else Dir s)"

definition hasUSB2XXXDLL :: "'x Windows \<Rightarrow> string \<Rightarrow> 'x \<Rightarrow> bool" where
  "hasUSB2XXXDLL os dir x \<longleftrightarrow> dir \<noteq> '''' \<and> Stat os (Join [dir, ''USB2XXX.dll'']) x = None"

definition pathLooksToomoss :: "string \<Rightarrow> bool" where
  "pathLooksToomoss p =
     (let pl = ToLower p in Contains pl ''toomoss'' \<or> Contains pl ''tcanlinpro'')"

definition names_toomoss :: "subkey \<Rightarrow> bool" where
  "names_toomoss sk =
     (let pubL = ToLower (TrimSpace (sk_Publisher sk));
          dnL = ToLower (TrimSpace (sk_DisplayName sk))
      in Contains pubL ''toomoss'' \<or> Contains dnL ''toomoss'')"

text \<open>The path of a subkey that names the vendor, and of one whose paths do.\<close>

definition named_path :: "'x Windows \<Rightarrow> subkey \<Rightarrow> 'x \<Rightarrow> string option" where
  "named_path os sk x =
     (let install = TrimSpace (sk_InstallLocation sk);
          appPath = TrimSpace (sk_AppPath sk);
          dir = dirFromUninstallString (sk_UninstallString sk)
      in if \<not> names_toomoss sk then None
         else if install \<noteq> '''' then Some (Clean install)
         else if appPath \<noteq> '''' then Some (Clean appPath)
         else if dir \<noteq> '''' \<and> hasUSB2XXXDLL os dir x then Some dir
         else None)"

definition hinted_path :: "subkey \<Rightarrow> string option" where
  "hinted_path sk =
     (let install = TrimSpace (sk_InstallLocation sk);
          appPath = TrimSpace (sk_AppPath sk);
          dir = dirFromUninstallString (sk_UninstallString sk)
      in if install \<noteq> '''' \<and> pathLooksToomoss install then Some (Clean install)
         else if appPath \<noteq> '''' \<and> pathLooksToomoss appPath then Some (Clean appPath)
         else if dir \<noteq> '''' \<and> pathLooksToomoss dir then Some dir
         else None)"

text \<open>One pass over the subkeys; a subkey that cannot be closed ends the search without a path.\<close>

fun search_subkeys ::
    "'x Windows \<Rightarrow> registry_view \<Rightarrow> (subkey \<Rightarrow> string option) \<Rightarrow> string list \<Rightarrow> 'x \<Rightarrow> string option" where
  "search_subkeys os view path [] x = None"
| "search_subkeys os view path (name # names) x =
     (case OpenSubkey os view name x of
        Inl err \<Rightarrow> search_subkeys os view path names x
      | Inr sk \<Rightarrow>
          if sk_Close sk \<noteq> None then Some ''''
          else case path sk of
                 Some p \<Rightarrow> Some p
               | None \<Rightarrow> search_subkeys os view path names x)"

definition findRegistryPathInView :: "'x Windows \<Rightarrow> registry_view \<Rightarrow> 'x \<Rightarrow> string" where
  "findRegistryPathInView os view x =
     (case Uninstall os view x of
        Inl err \<Rightarrow> ''''
      | Inr names \<Rightarrow>
          (case search_subkeys os view (\<lambda>sk. named_path os sk x) names x of
             Some path \<Rightarrow> path
           | None \<Rightarrow>
               (case search_subkeys os view hinted_path names x of
                  Some path \<Rightarrow> path
                | None \<Rightarrow> '''')))"

fun search_views :: "'x Windows \<Rightarrow> registry_view list \<Rightarrow> 'x \<Rightarrow> string" where
  "search_views os [] x = ''''"
| "search_views os (view # views) x =
     (let path = findRegistryPathInView os view x
      in if path \<noteq> '''' then path else search_views os views x)"

definition getRegistryPath :: "'x Windows \<Rightarrow> 'x \<Rightarrow> string" where
  "getRegistryPath os x = search_views os [View64, View32, DefaultView] x"

subsection \<open>The candidates are the search order without repetitions\<close>

definition search_order :: "'x Windows \<Rightarrow> string \<Rightarrow> 'x \<Rightarrow> string list" where
  "search_order os dllName x =
     (case dll_from_registry os dllName x of Inr path \<Rightarrow> [path] | Inl err \<Rightarrow> []) @
     (if GOARCH os = ''386'' then [Join [system_root os x, ''SysWOW64'', dllName]] else []) @
     [Join [system_root os x, ''System32'', dllName], Join [''.'', ''bin'', dllName], dllName]"

text \<open>The first path of every place: no empty path, and none that differs in its letters' case only.\<close>

fun first_paths :: "string list \<Rightarrow> string list" where
  "first_paths [] = []"
| "first_paths (p # ps) =
     (if p = '''' then first_paths ps
      else p # filter (\<lambda>q. normalized_path q \<noteq> normalized_path p) (first_paths ps))"

definition add_candidates :: "string list \<Rightarrow> string list \<times> string set \<Rightarrow> string list \<times> string set" where
  "add_candidates = fold add_candidate"

lemma add_candidates_first_paths:
  assumes "s = (c, normalized_path ` set c)"
  shows "fst (add_candidates ps s) = c @ filter (\<lambda>q. normalized_path q \<notin> normalized_path ` set c) (first_paths ps)"
  using assms
proof (induction ps arbitrary: c s)
  case (Cons p ps)
  show ?case
  proof (cases "p = '''' \<or> normalized_path p \<in> normalized_path ` set c")
    case True
    then have "add_candidate p s = s" by (auto simp: add_candidate_def Cons.prems Let_def)
    moreover have "filter (\<lambda>q. normalized_path q \<notin> normalized_path ` set c) (first_paths (p # ps)) =
      filter (\<lambda>q. normalized_path q \<notin> normalized_path ` set c) (first_paths ps)"
      using True by (auto intro: filter_cong)
    ultimately show ?thesis using Cons by (simp add: add_candidates_def)
  next
    case False
    then have step: "add_candidate p s = (c @ [p], normalized_path ` set (c @ [p]))"
      by (simp add: add_candidate_def Cons.prems Let_def)
    show ?thesis using Cons.IH [OF step] False
      by (auto simp: add_candidates_def intro!: filter_cong)
  qed
qed (simp add: add_candidates_def)

lemma first_paths_set:
  "set (first_paths ps) \<subseteq> set ps - {''''}"
  "normalized_path ` set (first_paths ps) = normalized_path ` (set ps - {''''})"
  "distinct (map normalized_path (first_paths ps))"
proof (induction ps)
  case (Cons p ps)
  have image: "f ` {x \<in> S. f x \<noteq> y} = f ` S - {y}" for f :: "string \<Rightarrow> string" and S y by auto
  { case 1 then show ?case using Cons(1) by auto
  next
    case 2
    have "normalized_path ` (set (p # ps) - {''''}) =
      (if p = '''' then {} else {normalized_path p}) \<union> normalized_path ` (set ps - {''''})" by auto
    then show ?case by (simp add: image Cons(2))
  next case 3 then show ?case using Cons(3) by (auto simp: distinct_map intro: inj_on_subset)
  }
qed simp_all

text \<open>
  C38: The libraries are looked for in one order: the place the registry names, the system directories
  and the directories of the program. The candidates of the PCAN driver, and those of the Vector driver
  unless the configuration names a file, are the paths of that order, each place once: no two of them
  differ in the case of their letters or in the spelling of the directories only, none is empty, and
  no place of the order is left out.
\<close>

theorem library_candidates_correct:
  "pcanDLLCandidates os x = first_paths (search_order os pcanDLLName x) \<and>
   vectorDLLCandidates os override x =
     (if override \<noteq> '''' then [override] else first_paths (search_order os (vectorDLLName os) x)) \<and>
   distinct (map normalized_path (pcanDLLCandidates os x)) \<and> '''' \<notin> set (pcanDLLCandidates os x) \<and>
   normalized_path ` set (pcanDLLCandidates os x) =
     normalized_path ` (set (search_order os pcanDLLName x) - {''''})"
proof -
  have all: "fst (add_candidates (search_order os n x) ([], {})) = first_paths (search_order os n x)" for n
    using add_candidates_first_paths [of "([], {})" "[]"] by simp
  have empty: "(if path \<noteq> '''' then add_candidate path s else s) = add_candidate path s" for path s
    by (simp add: add_candidate_def)
  have pcan: "pcanDLLCandidates os x = fst (add_candidates (search_order os pcanDLLName x) ([], {}))"
    by (cases "dll_from_registry os pcanDLLName x")
       (simp_all add: pcanDLLCandidates_def getPCANBasicDLLFromRegistry_def search_order_def
         add_candidates_def empty Let_def)
  have vector: "vectorDLLCandidates os override x =
    (if override \<noteq> '''' then [override] else fst (add_candidates (search_order os (vectorDLLName os) x) ([], {})))"
    by (cases "dll_from_registry os (vectorDLLName os) x")
       (simp_all add: vectorDLLCandidates_def search_order_def add_candidates_def Let_def)
  show ?thesis
    using first_paths_set [of "search_order os pcanDLLName x"] by (auto simp: pcan vector all)
qed

subsection \<open>The registry search of the Toomoss driver\<close>

lemma search_subkeys_Some:
  assumes "search_subkeys os view path names x = Some p" and "p \<noteq> ''''"
  shows "\<exists>name \<in> set names. \<exists>sk. OpenSubkey os view name x = Inr sk \<and> path sk = Some p"
  using assms by (induction names) (auto split: sum.splits if_splits option.splits)

lemma findRegistryPathInView_sound:
  assumes "findRegistryPathInView os view x \<noteq> ''''"
  shows "\<exists>names name sk. Uninstall os view x = Inr names \<and> name \<in> set names \<and>
    OpenSubkey os view name x = Inr sk \<and>
    (named_path os sk x = Some (findRegistryPathInView os view x) \<or>
     hinted_path sk = Some (findRegistryPathInView os view x))"
proof (cases "Uninstall os view x")
  case (Inl err)
  then show ?thesis using assms by (simp add: findRegistryPathInView_def)
next
  case (Inr names)
  let ?p = "findRegistryPathInView os view x"
  have "search_subkeys os view (\<lambda>sk. named_path os sk x) names x = Some ?p \<or>
    search_subkeys os view hinted_path names x = Some ?p"
    using assms by (auto simp: findRegistryPathInView_def Inr split: option.splits)
  then show ?thesis
    using assms search_subkeys_Some [of os view _ names x ?p] Inr by blast
qed

text \<open>
  A directory that the registry search returns comes from a subkey of the uninstall key that names
  the vendor or a path of the vendor: it is its cleaned installation or application path, or the
  directory of its uninstaller.
\<close>

theorem getRegistryPath_sound:
  assumes "getRegistryPath os x \<noteq> ''''"
  shows "\<exists>view name sk. OpenSubkey os view name x = Inr sk \<and>
    (getRegistryPath os x = Clean (TrimSpace (sk_InstallLocation sk)) \<or>
     getRegistryPath os x = Clean (TrimSpace (sk_AppPath sk)) \<or>
     getRegistryPath os x = dirFromUninstallString (sk_UninstallString sk)) \<and>
    (names_toomoss sk \<or> pathLooksToomoss (TrimSpace (sk_InstallLocation sk)) \<or>
     pathLooksToomoss (TrimSpace (sk_AppPath sk)) \<or>
     pathLooksToomoss (dirFromUninstallString (sk_UninstallString sk)))"
proof -
  have "\<exists>view. search_views os views x = findRegistryPathInView os view x"
    if "search_views os views x \<noteq> ''''" for views
    using that by (induction views) (auto simp: Let_def split: if_splits)
  then obtain view where v: "getRegistryPath os x = findRegistryPathInView os view x"
    using assms unfolding getRegistryPath_def by blast
  from findRegistryPathInView_sound [of os view x] v assms obtain name sk where
    "OpenSubkey os view name x = Inr sk"
    and "named_path os sk x = Some (getRegistryPath os x) \<or> hinted_path sk = Some (getRegistryPath os x)"
    by auto
  then show ?thesis
    by (intro exI conjI) (auto simp: named_path_def hinted_path_def Let_def split: if_splits)
qed

text \<open>
  Of an uninstaller that is quoted because its path has a blank, only what is before the blank
  counts: the directory found is not that of the uninstaller.
\<close>

lemma uninstall_string_cut:
  assumes "p \<noteq> ''''" and "\<forall>c \<in> set p. of_char c \<notin> {32 :: nat, 34}"
  shows "dirFromUninstallString (CHR 0x22 # p @ CHR '' '' # r @ [CHR 0x22]) = Dir p"
proof -
  have space: "TrimSpace (CHR 0x22 # s @ [CHR 0x22]) = CHR 0x22 # s @ [CHR 0x22]" for s
    by (simp add: TrimSpace_def trim_by_def)
  have "\<exists>u. dropWhile (\<lambda>c. of_char c = (34 :: nat)) (s @ CHR '' '' # t) = u @ CHR '' '' # t" for s t
    by (induction s) (auto intro: exI [of _ "[]"] exI [of _ "c # s" for c s])
  then obtain u where u: "dropWhile (\<lambda>c. of_char c = (34 :: nat)) (rev r @ CHR '' '' # rev p) = u @ CHR '' '' # rev p"
    by blast
  have keep: "dropWhile (\<lambda>c. of_char c = (34 :: nat)) (s @ t) = s @ t"
    if "s \<noteq> ''''" "\<forall>c \<in> set s. of_char c \<notin> {32 :: nat, 34}" for s t
    using that by (cases s) auto
  from keep [OF assms] have quotes: "TrimQuotes (CHR 0x22 # p @ CHR '' '' # r @ [CHR 0x22]) = p @ CHR '' '' # rev u"
    by (simp add: TrimQuotes_def trim_by_def u)
  have cut: "cut_at_blank (p @ CHR '' '' # rev u) = p"
    using assms by (cases p) (auto simp: cut_at_blank_def takeWhile_tail)
  have "TrimQuotes p = p"
    using keep [OF assms, of "[]"] keep [of "rev p" "[]"] assms by (simp add: TrimQuotes_def trim_by_def)
  then show ?thesis
    using space [of "p @ CHR '' '' # r"] assms(1) by (simp add: dirFromUninstallString_def quotes cut)
qed

end
