(* ===== verification/Toomoss_Windows.thy ===== *)
theory Toomoss_Windows
  imports Toomoss Library_Search
begin

section \<open>The Toomoss driver on Windows (\<^verbatim>\<open>driver/toomoss.go\<close>)\<close>

text \<open>
  What \<^verbatim>\<open>toomoss.go\<close> adds to the operations of \<open>Toomoss\<close>: loading \<^verbatim>\<open>USB2XXX.dll\<close> and its
  functions into package variables (\<open>USBGlobals\<close>), the one active instance, and the ELINS slave
  channels. The library, the system with its loader and registry (\<open>Windows\<close>) and the clock are the
  parameter \<open>USB2XXX\<close> over a state \<open>'x\<close>; a function yields the 64-bit return value, where the
  code looks at it the error number of the call, and what it writes through its pointers. Error texts
  are abridged, a driver is never nil, and a call holds the mutex from its check to its end.
\<close>

abbreviation (input) Bt :: u64 where "Bt \<equiv> 19200"
abbreviation (input) SlaveMode :: byte where "SlaveMode \<equiv> 0"
abbreviation (input) ELINS_SUCCESS :: int where "ELINS_SUCCESS \<equiv> 0"
abbreviation (input) ELINS_VER_IND83010 :: byte where "ELINS_VER_IND83010 \<equiv> 2"
abbreviation (input) CH1 :: Channel where "CH1 \<equiv> 0"
abbreviation (input) CH4 :: Channel where "CH4 \<equiv> 3"
abbreviation (input) linExSlaveGetDataMaxFrames :: nat where "linExSlaveGetDataMaxFrames \<equiv> 512"
abbreviation (input) elinsSlaveReadMaxFrames :: nat where "elinsSlaveReadMaxFrames \<equiv> 1024"
abbreviation (input) defaultELINSReceiveTimeoutUS :: u32 where "defaultELINSReceiveTimeoutUS \<equiv> 1000"

record ElinsMsg =
  em_DataLen :: byte
  em_BreakBits :: byte
  em_Status :: byte
  em_Flags :: byte
  em_SYNC :: byte
  em_TimeStampHigh :: byte
  em_MsgSendTimes :: u16
  em_TimeStamp :: u32
  em_CmdCode :: byte
  em_DevID :: byte
  em_RegAddr :: u16
  em_Crc16 :: u16
  em_Data :: "byte list"
  em_ACKValue :: "byte list"

definition zeroElinsMsg :: ElinsMsg where
  "zeroElinsMsg = \<lparr>em_DataLen = 0, em_BreakBits = 0, em_Status = 0, em_Flags = 0, em_SYNC = 0,
     em_TimeStampHigh = 0, em_MsgSendTimes = 0, em_TimeStamp = 0, em_CmdCode = 0, em_DevID = 0,
     em_RegAddr = 0, em_Crc16 = 0, em_Data = replicate 64 0, em_ACKValue = replicate 4 0\<rparr>"

text \<open>
  The package variables: the library, the addresses of its functions (0 when missing), the first
  device handle and whether an instance is active.
\<close>

record USBGlobals =
  UsbDeviceDLL :: u64
  UsbScanDevice :: u64
  UsbOpenDevice :: u64
  UsbCloseDevice :: u64
  LinExInit :: u64
  LinExMasterSync :: u64
  LinEXSlaveGetData :: u64
  ELINS_Init :: u64
  ELINS_GetMsg :: u64
  ELINS_SetRevTime :: u64
  ELINS_Stop :: u64
  LinEXCtrlPowerOut :: u64
  DevHandle :: u64
  toomossInstanceActive :: bool

record 'x USB2XXX =
  usb_system :: "'x Windows"
  USB_ScanDevice :: "'x \<Rightarrow> u64 \<times> u64 \<times> u64 \<times> 'x"
  USB_OpenDevice :: "u64 \<Rightarrow> 'x \<Rightarrow> u64 \<times> u64 \<times> 'x"
  USB_CloseDevice :: "u64 \<Rightarrow> 'x \<Rightarrow> u64 \<times> u64 \<times> 'x"
  LIN_EX_Init :: "u64 \<Rightarrow> Channel \<Rightarrow> u64 \<Rightarrow> byte \<Rightarrow> 'x \<Rightarrow> u64 \<times> u64 \<times> 'x"
  LIN_EX_MasterSync ::
    "u64 \<Rightarrow> Channel \<Rightarrow> LinExMsg list \<Rightarrow> LinExMsg list \<Rightarrow> 'x \<Rightarrow> u64 \<times> u64 \<times> LinExMsg list \<times> 'x"
  LIN_EX_SlaveGetData :: "u64 \<Rightarrow> Channel \<Rightarrow> LinExMsg list \<Rightarrow> 'x \<Rightarrow> u64 \<times> u64 \<times> LinExMsg list \<times> 'x"
  LIN_EX_CtrlPowerOut :: "u64 \<Rightarrow> Channel \<Rightarrow> byte \<Rightarrow> 'x \<Rightarrow> u64 \<times> u64 \<times> 'x"
  elins_init :: "u64 \<Rightarrow> Channel \<Rightarrow> u32 \<Rightarrow> byte \<Rightarrow> byte \<Rightarrow> byte \<Rightarrow> 'x \<Rightarrow> u64 \<times> u64 \<times> 'x"
  elins_set_rev_time :: "u64 \<Rightarrow> Channel \<Rightarrow> u32 \<Rightarrow> 'x \<Rightarrow> u64 \<times> u64 \<times> 'x"
  elins_stop :: "u64 \<Rightarrow> Channel \<Rightarrow> 'x \<Rightarrow> 'x"
  elins_get_msg :: "u64 \<Rightarrow> Channel \<Rightarrow> ElinsMsg list \<Rightarrow> 'x \<Rightarrow> u64 \<times> u64 \<times> ElinsMsg list \<times> 'x"
  usb_now :: "'x \<Rightarrow> int"
  usb_sleep :: "int \<Rightarrow> 'x \<Rightarrow> 'x"

record ToomossWin = Toomoss +
  tm_elinsChannels :: "Channel list"
  tm_closeErr :: "error option"

subsection \<open>Loading the library\<close>

text \<open>The calls of the system, of which \<open>LoadLibrary\<close> takes the elements of the path.\<close>

definition arch_386 :: "'x USB2XXX \<Rightarrow> bool" where
  "arch_386 api \<longleftrightarrow> GOARCH (usb_system api) = ''386''"

text \<open>
  \<^verbatim>\<open>int(ret)\<close> of a \<^verbatim>\<open>uintptr\<close>: both have 32 bits in a build for 386 and 64 bits otherwise.
\<close>

definition uintptr_int :: "'x USB2XXX \<Rightarrow> u64 \<Rightarrow> int" where
  "uintptr_int api ret = (if arch_386 api then sint (ucast ret :: u32) else sint ret)"

definition LoadLibrary :: "'x USB2XXX \<Rightarrow> string list \<Rightarrow> 'x \<Rightarrow> (error + u64) \<times> 'x" where
  "LoadLibrary api elements = sys_LoadLibrary (usb_system api) (Join elements)"

definition GetProcAddress :: "'x USB2XXX \<Rightarrow> u64 \<Rightarrow> string \<Rightarrow> 'x \<Rightarrow> u64 \<times> error option \<times> 'x" where
  "GetProcAddress api = sys_GetProcAddress (usb_system api)"

definition FreeLibrary :: "'x USB2XXX \<Rightarrow> u64 \<Rightarrow> 'x \<Rightarrow> error option \<times> 'x" where
  "FreeLibrary api = sys_FreeLibrary (usb_system api)"

definition toomossReady :: "USBGlobals \<Rightarrow> bool" where
  "toomossReady g \<longleftrightarrow> UsbDeviceDLL g \<noteq> 0 \<and> UsbScanDevice g \<noteq> 0 \<and> UsbOpenDevice g \<noteq> 0 \<and>
     UsbCloseDevice g \<noteq> 0 \<and> LinExInit g \<noteq> 0 \<and> LinExMasterSync g \<noteq> 0 \<and> LinEXSlaveGetData g \<noteq> 0"

definition resetToomossState :: "USBGlobals \<Rightarrow> USBGlobals" where
  "resetToomossState g =
     g\<lparr>UsbDeviceDLL := 0, UsbScanDevice := 0, UsbOpenDevice := 0, UsbCloseDevice := 0, LinExInit := 0,
       LinExMasterSync := 0, LinEXSlaveGetData := 0, ELINS_Init := 0, ELINS_GetMsg := 0,
       ELINS_SetRevTime := 0, ELINS_Stop := 0, LinEXCtrlPowerOut := 0\<rparr>"

definition archDLLDir :: "'x USB2XXX \<Rightarrow> string" where
  "archDLLDir api = (if arch_386 api then ''windows_x86'' else '''')"

definition bin_dir :: string where
  "bin_dir = ''.'' @ [Separator] @ ''bin''"

text \<open>The library from the place the registry names, on 32 bits only; whether it was there.\<close>

definition load_from_registry :: "'x USB2XXX \<Rightarrow> USBGlobals \<times> 'x \<Rightarrow> bool \<times> USBGlobals \<times> 'x" where
  "load_from_registry api w =
     (let (g, x) = w;
          registryPath = getRegistryPath (usb_system api) x
      in if registryPath = '''' then (False, g, x)
         else
           let (_, x) = LoadLibrary api [registryPath, ''libusb-1.0.dll''] x
           in case LoadLibrary api [registryPath, ''USB2XXX.dll''] x of
                (Inr handle, x) \<Rightarrow> (True, g\<lparr>UsbDeviceDLL := handle\<rparr>, x)
              | (Inl err, x) \<Rightarrow> (False, g, x))"

definition loadDLLs :: "'x USB2XXX \<Rightarrow> USBGlobals \<times> 'x \<Rightarrow> error option \<times> USBGlobals \<times> 'x" where
  "loadDLLs api w =
     (if UsbDeviceDLL (fst w) \<noteq> 0 then (None, w)
      else
        let (done, g, x) = (if arch_386 api then load_from_registry api w else (False, w))
        in if done then (None, g, x)
           else
             let dllDir = archDLLDir api;
                 (_, x) = LoadLibrary api [bin_dir, dllDir, ''libusb-1.0.dll''] x
             in case LoadLibrary api [bin_dir, dllDir, ''USB2XXX.dll''] x of
                  (Inl err, x) \<Rightarrow> (Some (Wrapped ''failed to load USB2XXX.dll'' [] err), g, x)
                | (Inr handle, x) \<Rightarrow> (None, g\<lparr>UsbDeviceDLL := handle\<rparr>, x))"

definition getProc :: "'x USB2XXX \<Rightarrow> string \<Rightarrow> USBGlobals \<times> 'x \<Rightarrow> (error + u64) \<times> USBGlobals \<times> 'x" where
  "getProc api name w =
     (let (g, x) = w;
          (addr, err, x) = GetProcAddress api (UsbDeviceDLL g) name x
      in if addr = 0
         then (Inl (Wrapped name [] (case err of None \<Rightarrow> ErrorText ''not found'' [] | Some e \<Rightarrow> e)), g, x)
         else (Inr addr, g, x))"

text \<open>A required function: its address into its variable, or 0 and one more error.\<close>

definition load_required ::
    "'x USB2XXX \<Rightarrow> string \<Rightarrow> (u64 \<Rightarrow> USBGlobals \<Rightarrow> USBGlobals) \<Rightarrow>
     error list \<times> USBGlobals \<times> 'x \<Rightarrow> error list \<times> USBGlobals \<times> 'x" where
  "load_required api name store s =
     (let (errs, w) = s
      in case getProc api name w of
           (Inl err, g, x) \<Rightarrow> (errs @ [err], store 0 g, x)
         | (Inr addr, g, x) \<Rightarrow> (errs, store addr g, x))"

definition loadOptionalProc ::
    "'x USB2XXX \<Rightarrow> string \<Rightarrow> (u64 \<Rightarrow> USBGlobals \<Rightarrow> USBGlobals) \<Rightarrow> USBGlobals \<times> 'x \<Rightarrow> USBGlobals \<times> 'x" where
  "loadOptionalProc api name dest w =
     (case getProc api name w of
        (Inl err, g, x) \<Rightarrow> (dest 0 g, x)
      | (Inr addr, g, x) \<Rightarrow> (dest addr g, x))"

definition required_procs :: "(string \<times> (u64 \<Rightarrow> USBGlobals \<Rightarrow> USBGlobals)) list" where
  "required_procs =
     [(''USB_ScanDevice'', \<lambda>a. UsbScanDevice_update (\<lambda>_. a)),
      (''USB_OpenDevice'', \<lambda>a. UsbOpenDevice_update (\<lambda>_. a)),
      (''USB_CloseDevice'', \<lambda>a. UsbCloseDevice_update (\<lambda>_. a)),
      (''LIN_EX_Init'', \<lambda>a. LinExInit_update (\<lambda>_. a)),
      (''LIN_EX_MasterSync'', \<lambda>a. LinExMasterSync_update (\<lambda>_. a)),
      (''LIN_EX_SlaveGetData'', \<lambda>a. LinEXSlaveGetData_update (\<lambda>_. a))]"

definition optional_procs :: "(string \<times> (u64 \<Rightarrow> USBGlobals \<Rightarrow> USBGlobals)) list" where
  "optional_procs =
     [(''ELINS_Init'', \<lambda>a. ELINS_Init_update (\<lambda>_. a)),
      (''ELINS_GetMsg'', \<lambda>a. ELINS_GetMsg_update (\<lambda>_. a)),
      (''ELINS_SetRevTime'', \<lambda>a. ELINS_SetRevTime_update (\<lambda>_. a)),
      (''ELINS_Stop'', \<lambda>a. ELINS_Stop_update (\<lambda>_. a)),
      (''LIN_EX_CtrlPowerOut'', \<lambda>a. LinEXCtrlPowerOut_update (\<lambda>_. a))]"

text \<open>The text of the error joins those of the missing functions; their number stands for it.\<close>

definition loadProcAddresses :: "'x USB2XXX \<Rightarrow> USBGlobals \<times> 'x \<Rightarrow> error option \<times> USBGlobals \<times> 'x" where
  "loadProcAddresses api w =
     (if UsbDeviceDLL (fst w) = 0 then (Some (ErrorText ''USB2XXX.dll not loaded'' []), w)
      else
        let (errs, w) = fold (\<lambda>(name, store). load_required api name store) required_procs ([], w);
            w = fold (\<lambda>(name, store). loadOptionalProc api name store) optional_procs w
        in if length errs > 0
           then (Some (ErrorText ''missing functions'' [int (length errs)]), w) else (None, w))"

definition ensureToomossLoaded :: "'x USB2XXX \<Rightarrow> USBGlobals \<times> 'x \<Rightarrow> error option \<times> USBGlobals \<times> 'x" where
  "ensureToomossLoaded api w =
     (if toomossReady (fst w) then (None, w)
      else
        let w = (resetToomossState (fst w), snd w)
        in case loadDLLs api w of
             (Some err, w) \<Rightarrow> (Some err, w)
           | (None, w) \<Rightarrow>
               (case loadProcAddresses api w of
                  (None, w) \<Rightarrow> (None, w)
                | (Some err, g, x) \<Rightarrow>
                    let x = (if UsbDeviceDLL g \<noteq> 0 then snd (FreeLibrary api (UsbDeviceDLL g) x) else x)
                    in (Some err, resetToomossState g, x)))"

subsection \<open>The device\<close>

text \<open>The results of a system call that failed (its error number) or returned.\<close>

definition usbScan :: "'x USB2XXX \<Rightarrow> USBGlobals \<times> 'x \<Rightarrow> (error + bool) \<times> USBGlobals \<times> 'x" where
  "usbScan api w =
     (let (g, x) = w
      in if UsbScanDevice g = 0 then (Inl (ErrorText ''USB_ScanDevice not loaded'' []), w)
         else
           let (ret, callErr, handle, x) = USB_ScanDevice api x;
               g = g\<lparr>DevHandle := handle\<rparr>
           in if callErr \<noteq> 0
              then (Inl (ErrorText ''USB_ScanDevice syscall failed'' [uint callErr]), g, x)
              else (Inr (ret > 0), g, x))"

definition UsbScan :: "'x USB2XXX \<Rightarrow> USBGlobals \<times> 'x \<Rightarrow> bool \<times> USBGlobals \<times> 'x" where
  "UsbScan api w =
     (case ensureToomossLoaded api w of
        (Some err, w) \<Rightarrow> (False, w)
      | (None, w) \<Rightarrow>
          (case usbScan api w of
             (Inl err, w) \<Rightarrow> (False, w)
           | (Inr ok, w) \<Rightarrow> (ok, w)))"

definition usbOpen :: "'x USB2XXX \<Rightarrow> USBGlobals \<times> 'x \<Rightarrow> (error + bool) \<times> USBGlobals \<times> 'x" where
  "usbOpen api w =
     (let (g, x) = w
      in if UsbOpenDevice g = 0 then (Inl (ErrorText ''USB_OpenDevice not loaded'' []), w)
         else
           let (stateValue, callErr, x) = USB_OpenDevice api (DevHandle g) x
           in if callErr \<noteq> 0
              then (Inl (ErrorText ''USB_OpenDevice syscall failed'' [uint callErr]), g, x)
              else (Inr (stateValue \<ge> 1), g, x))"

definition UsbOpen :: "'x USB2XXX \<Rightarrow> USBGlobals \<times> 'x \<Rightarrow> bool \<times> USBGlobals \<times> 'x" where
  "UsbOpen api w =
     (case ensureToomossLoaded api w of
        (Some err, w) \<Rightarrow> (False, w)
      | (None, w) \<Rightarrow>
          (case usbOpen api w of
             (Inl err, w) \<Rightarrow> (False, w)
           | (Inr ok, w) \<Rightarrow> (ok, w)))"

definition usbClose :: "'x USB2XXX \<Rightarrow> USBGlobals \<times> 'x \<Rightarrow> error option \<times> USBGlobals \<times> 'x" where
  "usbClose api w =
     (let (g, x) = w
      in if UsbDeviceDLL g = 0 then (None, w)
         else if UsbCloseDevice g = 0 then (Some (ErrorText ''USB_CloseDevice not loaded'' []), w)
         else
           let (ret, callErr, x) = USB_CloseDevice api (DevHandle g) x
           in if callErr \<noteq> 0
              then (Some (ErrorText ''USB_CloseDevice syscall failed'' [uint callErr]), g, x)
              else if ret < 1 then (Some (ErrorText ''USB_CloseDevice returned'' [uint ret]), g, x)
              else case FreeLibrary api (UsbDeviceDLL g) x of
                     (Some err, x) \<Rightarrow> (Some (Wrapped ''FreeLibrary failed'' [] err), g, x)
                   | (None, x) \<Rightarrow> (None, resetToomossState g, x))"

definition ensureLinReady :: "'x USB2XXX \<Rightarrow> USBGlobals \<times> 'x \<Rightarrow> error option \<times> USBGlobals \<times> 'x" where
  "ensureLinReady api w =
     (let (err, w) = ensureToomossLoaded api w
      in (map_option (Wrapped ''load Toomoss LIN DLLs'' []) err, w))"

fun init_lin_channels ::
    "'x USB2XXX \<Rightarrow> byte \<Rightarrow> Channel list \<Rightarrow> USBGlobals \<times> 'x \<Rightarrow> error option \<times> USBGlobals \<times> 'x" where
  "init_lin_channels api mode [] w = (None, w)"
| "init_lin_channels api mode (ch # cs) w =
     (let (g, x) = w;
          (tmsInit, ret, x) = LIN_EX_Init api (DevHandle g) ch Bt mode x
      in if tmsInit \<noteq> 0 then
           let (_, w) = usbClose api (g, x)
           in (Some (ErrorText ''failed to initialize Toomoss LIN device'' [uint ret]), w)
         else init_lin_channels api mode cs (g, x))"

definition NewToomoss ::
    "'x USB2XXX \<Rightarrow> Channel list \<Rightarrow> byte \<Rightarrow> USBGlobals \<times> 'x \<Rightarrow> (error + ToomossWin) \<times> USBGlobals \<times> 'x" where
  "NewToomoss api channel mode w =
     (if toomossInstanceActive (fst w)
      then (Inl (ErrorText ''a Toomoss device instance is already active'' []), w)
      else if length channel = 0 then (Inl (ErrorText ''at least one LIN channel is required'' []), w)
      else case ensureLinReady api w of
             (Some err, w) \<Rightarrow> (Inl err, w)
           | (None, w) \<Rightarrow>
               (case UsbScan api w of
                  (False, w) \<Rightarrow> (Inl (ErrorText ''USB scan failed: device not found or DLL missing'' []), w)
                | (True, w) \<Rightarrow>
                    (case UsbOpen api w of
                       (False, w) \<Rightarrow> (Inl (ErrorText ''USB open failed'' []), w)
                     | (True, w) \<Rightarrow>
                         (case init_lin_channels api mode channel w of
                            (Some err, w) \<Rightarrow> (Inl err, w)
                          | (None, g, x) \<Rightarrow>
                              (Inr \<lparr>tm_closed = False, tm_closeOnce = False, tm_channels = channel,
                                    tm_eventChans = (\<lambda>_. None), tm_panicked = False,
                                    tm_elinsChannels = [], tm_closeErr = None\<rparr>,
                               g\<lparr>toomossInstanceActive := True\<rparr>, x)))))"

text \<open>\<open>Close\<close> does its work once and gives its result every time.\<close>

definition stop_elins :: "'x USB2XXX \<Rightarrow> USBGlobals \<Rightarrow> Channel list \<Rightarrow> 'x \<Rightarrow> 'x" where
  "stop_elins api g cs x = (if ELINS_Stop g = 0 then x else fold (elins_stop api (DevHandle g)) cs x)"

definition Toomoss_Close ::
    "'x USB2XXX \<Rightarrow> ToomossWin \<Rightarrow> USBGlobals \<times> 'x \<Rightarrow> error option \<times> ToomossWin \<times> USBGlobals \<times> 'x" where
  "Toomoss_Close api d w =
     (if tm_closeOnce d then (tm_closeErr d, d, w)
      else
        let (g, x) = w;
            d = d\<lparr>tm_closeOnce := True, tm_closed := True\<rparr>;
            x = stop_elins api g (tm_elinsChannels d) x;
            (closeErr, g, x) = usbClose api (g, x)
        in (closeErr, d\<lparr>tm_closeErr := closeErr\<rparr>, g\<lparr>toomossInstanceActive := False\<rparr>, x))"

subsection \<open>The calls of the LIN channels\<close>

text \<open>The error of a system call is its error number, never nil.\<close>

definition LinMasterSync ::
    "'x USB2XXX \<Rightarrow> LinExMsg list \<Rightarrow> LinExMsg list \<Rightarrow> Channel \<Rightarrow> 'z Toomoss_scheme \<Rightarrow> USBGlobals \<times> 'x \<Rightarrow>
     (u64 \<times> error option) \<times> LinExMsg list \<times> USBGlobals \<times> 'x" where
  "LinMasterSync api msg outMsg channel d w =
     (if length outMsg = 0 \<or> length msg = 0
      then ((0, Some (ErrorText ''LinMasterSync called with empty outMsg'' [])), outMsg, w)
      else if length msg \<noteq> length outMsg
      then ((0, Some (ErrorText ''LinMasterSync: len(msg) != len(outMsg)'' [])), outMsg, w)
      else case toomoss_validateChannel channel d of
             Some err \<Rightarrow> ((0, Some err), outMsg, w)
           | None \<Rightarrow>
               let (g, x) = w;
                   (ret, err, outMsg, x) = LIN_EX_MasterSync api (DevHandle g) channel msg outMsg x
               in ((ret, Some (ErrorText ''errno'' [uint err])), outMsg, g, x))"

definition LinExSlaveGetData ::
    "'x USB2XXX \<Rightarrow> Channel \<Rightarrow> 'z Toomoss_scheme \<Rightarrow> USBGlobals \<times> 'x \<Rightarrow>
     (error + LinExMsg list) \<times> USBGlobals \<times> 'x" where
  "LinExSlaveGetData api channel d w =
     (let (g, x) = w
      in if LinEXSlaveGetData g = 0 then (Inl (ErrorText ''LIN_EX_SlaveGetData not loaded'' []), w)
         else case toomoss_validateChannel channel d of
                Some err \<Rightarrow> (Inl err, w)
              | None \<Rightarrow>
                  let linMsgs = replicate linExSlaveGetDataMaxFrames zeroLinExMsg;
                      (ret, callErr, linMsgs, x) = LIN_EX_SlaveGetData api (DevHandle g) channel linMsgs x
                  in if callErr \<noteq> 0
                     then (Inl (ErrorText ''LIN_EX_SlaveGetData syscall failed'' [uint callErr]), g, x)
                     else if uintptr_int api ret < 0
                     then (Inl (ErrorText ''LIN_EX_SlaveGetData failed'' [uintptr_int api ret]), g, x)
                     else
                       let count = min (uintptr_int api ret) (int (length linMsgs))
                       in (Inr (take (nat count) linMsgs), g, x))"

text \<open>The shared operations over these calls.\<close>

definition windows_calls :: "'x USB2XXX \<Rightarrow> ('z, USBGlobals \<times> 'x) ToomossCalls" where
  "windows_calls api =
     \<lparr>tc_sync = (\<lambda>msg outMsg channel d w.
        let ((ret, _), outMsg, w) = LinMasterSync api msg outMsg channel d w in (ret, outMsg, w)),
      tc_data = LinExSlaveGetData api,
      tc_now = (\<lambda>(g, x). usb_now api x),
      tc_sleep = (\<lambda>t (g, x). (g, usb_sleep api t x))\<rparr>"

definition windows_driver :: "'x USB2XXX \<Rightarrow> (ToomossWin \<times> USBGlobals \<times> 'x) Driver" where
  "windows_driver api = toomoss_driver (windows_calls api)"

subsection \<open>ELINS slave channels\<close>

record ELINSConfig =
  el_Channels :: "Channel list"
  el_Baudrate :: u32
  el_ResEnable :: byte
  el_Version :: byte
  el_ReceiveTimeoutUS :: u32

fun check_elins_channels :: "Channel list \<Rightarrow> Channel set \<Rightarrow> error option" where
  "check_elins_channels [] seen = None"
| "check_elins_channels (channel # cs) seen =
     (if channel < CH1 \<or> channel > CH4 then Some (Wrapped '''' [uint channel] ErrInvalidChannel)
      else if channel \<in> seen then Some (ErrorText ''duplicate ELINS channel'' [uint channel])
      else check_elins_channels cs (insert channel seen))"

definition normalizeELINSConfig :: "ELINSConfig \<Rightarrow> error + ELINSConfig" where
  "normalizeELINSConfig config =
     (if length (el_Channels config) = 0
      then Inl (ErrorText ''at least one ELINS channel is required'' [])
      else if el_Baudrate config < 2000 \<or> el_Baudrate config > 5000000
      then Inl (ErrorText ''ELINS baudrate out of range'' [uint (el_Baudrate config)])
      else if el_ResEnable config > 1
      then Inl (ErrorText ''ELINS resistor enable must be 0 or 1'' [uint (el_ResEnable config)])
      else if el_Version config > ELINS_VER_IND83010
      then Inl (ErrorText ''unsupported ELINS version'' [uint (el_Version config)])
      else case check_elins_channels (el_Channels config) {} of
             Some err \<Rightarrow> Inl err
           | None \<Rightarrow> Inr (if el_ReceiveTimeoutUS config = 0
                          then config\<lparr>el_ReceiveTimeoutUS := defaultELINSReceiveTimeoutUS\<rparr> else config))"

text \<open>The channels one by one; a failure stops those initialised before it, the last one first.\<close>

fun init_elins ::
    "'x USB2XXX \<Rightarrow> ELINSConfig \<Rightarrow> USBGlobals \<Rightarrow> Channel list \<Rightarrow> Channel list \<Rightarrow> 'x \<Rightarrow>
     (error + Channel list) \<times> 'x" where
  "init_elins api config g [] initialized x = (Inr initialized, x)"
| "init_elins api config g (channel # cs) initialized x =
     (let (ret, callErr, x) = elins_init api (DevHandle g) channel (el_Baudrate config) SlaveMode
            (el_ResEnable config) (el_Version config) x
      in if callErr \<noteq> 0 \<or> uintptr_int api ret \<noteq> ELINS_SUCCESS
         then (Inl (ErrorText ''ELINS_Init failed'' [uint channel, uintptr_int api ret, uint callErr]),
               stop_elins api g (rev initialized) x)
         else
           let initialized = initialized @ [channel]
           in if ELINS_SetRevTime g \<noteq> 0 then
                let (ret, callErr, x) =
                      elins_set_rev_time api (DevHandle g) channel (el_ReceiveTimeoutUS config) x
                in if callErr \<noteq> 0 \<or> uintptr_int api ret \<noteq> ELINS_SUCCESS
                   then (Inl (ErrorText ''ELINS_SetRevTime failed'' [uint channel, uintptr_int api ret, uint callErr]),
                         stop_elins api g (rev initialized) x)
                   else init_elins api config g cs initialized x
              else init_elins api config g cs initialized x)"

definition ConfigureELINS ::
    "'x USB2XXX \<Rightarrow> ELINSConfig \<Rightarrow> ToomossWin \<Rightarrow> USBGlobals \<times> 'x \<Rightarrow> error option \<times> ToomossWin \<times> USBGlobals \<times> 'x" where
  "ConfigureELINS api config d w =
     (case normalizeELINSConfig config of
        Inl err \<Rightarrow> (Some err, d, w)
      | Inr config \<Rightarrow>
          let (g, x) = w
          in if tm_closed d then (Some ErrDriverClosed, d, w)
             else if ELINS_Init g = 0 \<or> ELINS_GetMsg g = 0
             then (Some (ErrorText ''ELINS APIs are not available in USB2XXX.dll'' []), d, w)
             else case find (\<lambda>channel. channel \<in> set (tm_elinsChannels d)) (el_Channels config) of
                    Some channel \<Rightarrow>
                      (Some (ErrorText ''ELINS channel already configured'' [uint channel]), d, w)
                  | None \<Rightarrow>
                      (case init_elins api config g (el_Channels config) [] x of
                         (Inl err, x) \<Rightarrow> (Some err, d, g, x)
                       | (Inr initialized, x) \<Rightarrow>
                           (None, d\<lparr>tm_elinsChannels := tm_elinsChannels d @ initialized\<rparr>, g, x)))"

definition validateELINSChannel :: "Channel \<Rightarrow> ToomossWin \<Rightarrow> error option" where
  "validateELINSChannel channel d =
     (if tm_closed d then Some ErrDriverClosed
      else if channel \<notin> set (tm_elinsChannels d)
      then Some (Wrapped ''ELINS channel'' [uint channel] ErrInvalidChannel)
      else None)"

definition validateConfiguredChannel :: "Channel \<Rightarrow> ToomossWin \<Rightarrow> error option" where
  "validateConfiguredChannel channel d =
     (if tm_closed d then Some ErrDriverClosed
      else if channel \<in> set (tm_channels d) then None
      else if channel \<in> set (tm_elinsChannels d) then None
      else Some (Wrapped '''' [uint channel] ErrInvalidChannel))"

definition LinExCtrlPowerOut ::
    "'x USB2XXX \<Rightarrow> Channel \<Rightarrow> byte \<Rightarrow> ToomossWin \<Rightarrow> USBGlobals \<times> 'x \<Rightarrow> error option \<times> USBGlobals \<times> 'x" where
  "LinExCtrlPowerOut api channel vbat d w =
     (let (g, x) = w
      in if LinEXCtrlPowerOut g = 0 then (Some (ErrorText ''LIN_EX_CtrlPowerOut not loaded'' []), w)
         else case validateConfiguredChannel channel d of
                Some err \<Rightarrow> (Some err, w)
              | None \<Rightarrow>
                  let (ret, callErr, x) = LIN_EX_CtrlPowerOut api (DevHandle g) channel vbat x
                  in if callErr \<noteq> 0
                     then (Some (ErrorText ''LIN_EX_CtrlPowerOut syscall failed'' [uint callErr]), g, x)
                     else if uintptr_int api ret \<noteq> 0
                     then (Some (ErrorText ''LIN_EX_CtrlPowerOut failed'' [uintptr_int api ret]), g, x)
                     else (None, g, x))"

text \<open>A read into the buffer of the caller: the number of frames, the buffer afterwards.\<close>

definition ElinsSlaveReadInto ::
    "'x USB2XXX \<Rightarrow> Channel \<Rightarrow> ElinsMsg list \<Rightarrow> ToomossWin \<Rightarrow> USBGlobals \<times> 'x \<Rightarrow>
     (error + nat) \<times> ElinsMsg list \<times> USBGlobals \<times> 'x" where
  "ElinsSlaveReadInto api channel msgs d w =
     (let (g, x) = w
      in if length msgs = 0
         then (Inl (ErrorText ''ElinsSlaveReadInto requires a non-empty buffer'' []), msgs, w)
         else case validateELINSChannel channel d of
                Some err \<Rightarrow> (Inl err, msgs, w)
              | None \<Rightarrow>
                  if ELINS_GetMsg g = 0
                  then (Inl (ErrorText ''ELINS_GetMsg not loaded'' []), msgs, w)
                  else
                    let (ret, callErr, msgs, x) = elins_get_msg api (DevHandle g) channel msgs x
                    in if callErr \<noteq> 0
                       then (Inl (ErrorText ''ELINS_GetMsg syscall failed'' [uint callErr]), msgs, g, x)
                       else if uintptr_int api ret < 0
                       then (Inl (ErrorText ''ELINS_GetMsg failed'' [uintptr_int api ret]), msgs, g, x)
                       else (Inr (nat (min (uintptr_int api ret) (int (length msgs)))), msgs, g, x))"

definition ElinsSlaveRead ::
    "'x USB2XXX \<Rightarrow> Channel \<Rightarrow> ToomossWin \<Rightarrow> USBGlobals \<times> 'x \<Rightarrow> (error + ElinsMsg list) \<times> USBGlobals \<times> 'x" where
  "ElinsSlaveRead api channel d w =
     (case ElinsSlaveReadInto api channel (replicate elinsSlaveReadMaxFrames zeroElinsMsg) d w of
        (Inl err, msgs, w) \<Rightarrow> (Inl err, w)
      | (Inr count, msgs, w) \<Rightarrow> (Inr (take count msgs), w))"

subsection \<open>Filters\<close>

text \<open>A filter is a function, possibly nil. No values at all filter nothing out.\<close>

type_synonym ElinsMsgFilter = "(ElinsMsg \<Rightarrow> bool) option"

definition elinsContains :: "'v list \<Rightarrow> 'v \<Rightarrow> bool" where
  "elinsContains xs v = (if length xs = 0 then True else list_ex (\<lambda>x. x = v) xs)"

definition ElinsFilterDevID :: "byte list \<Rightarrow> ElinsMsgFilter" where
  "ElinsFilterDevID ids = Some (\<lambda>m. elinsContains ids (em_DevID m))"

definition ElinsFilterCmdCode :: "byte list \<Rightarrow> ElinsMsgFilter" where
  "ElinsFilterCmdCode cmds = Some (\<lambda>m. elinsContains cmds (em_CmdCode m))"

definition ElinsFilterRegAddr :: "u16 list \<Rightarrow> ElinsMsgFilter" where
  "ElinsFilterRegAddr addrs = Some (\<lambda>m. elinsContains addrs (em_RegAddr m))"

definition ElinsFilterStatus :: "byte \<Rightarrow> ElinsMsgFilter" where
  "ElinsFilterStatus status = Some (\<lambda>m. em_Status m = status)"

fun elins_all :: "ElinsMsgFilter list \<Rightarrow> ElinsMsg \<Rightarrow> bool" where
  "elins_all [] m = True"
| "elins_all (f # fs) m =
     (if (case f of None \<Rightarrow> False | Some f \<Rightarrow> \<not> f m) then False else elins_all fs m)"

definition ElinsFilterAnd :: "ElinsMsgFilter list \<Rightarrow> ElinsMsgFilter" where
  "ElinsFilterAnd filters = Some (elins_all filters)"

text \<open>
  The frames kept are moved to the front of the array they came in: the loop over the index \<open>i\<close>
  with \<open>n\<close> frames kept so far. The result is the slice and the array behind it.
\<close>

function filter_loop :: "(ElinsMsg \<Rightarrow> bool) \<Rightarrow> nat \<Rightarrow> nat \<Rightarrow> ElinsMsg list \<Rightarrow> nat \<times> ElinsMsg list" where
  "filter_loop keep i n msgs =
     (if i < length msgs then
        let m = msgs ! i
        in if keep m then filter_loop keep (i + 1) (n + 1) (msgs[n := m])
           else filter_loop keep (i + 1) n msgs
      else (n, msgs))"
  by pat_completeness auto
termination
  by (relation "measure (\<lambda>(keep, i, n, msgs). length msgs - i)") auto

declare filter_loop.simps [simp del]

definition FilterElinsMsgs :: "ElinsMsg list \<Rightarrow> ElinsMsgFilter \<Rightarrow> ElinsMsg list \<times> ElinsMsg list" where
  "FilterElinsMsgs msgs keep =
     (case keep of
        None \<Rightarrow> (msgs, msgs)
      | Some keep \<Rightarrow> let (n, msgs) = filter_loop keep 0 0 msgs in (take n msgs, msgs))"

definition ElinsSlaveReadFilter ::
    "'x USB2XXX \<Rightarrow> Channel \<Rightarrow> ElinsMsgFilter \<Rightarrow> ToomossWin \<Rightarrow> USBGlobals \<times> 'x \<Rightarrow>
     (error + ElinsMsg list) \<times> USBGlobals \<times> 'x" where
  "ElinsSlaveReadFilter api channel keep d w =
     (case ElinsSlaveRead api channel d w of
        (Inl err, w) \<Rightarrow> (Inl err, w)
      | (Inr msgs, w) \<Rightarrow> (Inr (fst (FilterElinsMsgs msgs keep)), w))"

end
