(* ===== verification/Toomoss_Darwin.thy ===== *)
theory Toomoss_Darwin
  imports Toomoss
begin

section \<open>The Toomoss driver on macOS (\<^verbatim>\<open>driver/toomoss_darwin.go\<close>)\<close>

text \<open>
  The same driver over the vendor's dynamic libraries, called through the C functions in the file's
  preamble. The C variables (\<open>DarwinGlobals\<close>) hold the handles of the two libraries and the
  addresses of six functions, 0 for \<^verbatim>\<open>NULL\<close>; a wrapper of a missing function returns -1. The
  libraries and the dynamic loader are the parameter \<open>USB2XXX_dylib\<close> over a state \<open>'x\<close>. A C \<^verbatim>\<open>int\<close>
  is a word of 32 bits. Error texts are abridged, a driver is never nil, and a call holds the
  mutex from its check to its end. \<^verbatim>\<open>libusb\<close>'s path and that of the library are constants.
\<close>

abbreviation (input) darwin_Bt :: u32 where "darwin_Bt \<equiv> 19200"
abbreviation (input) darwin_MaxFrames :: nat where "darwin_MaxFrames \<equiv> 512"

definition toomossLibusbPath :: string where
  "toomossLibusbPath = ''/Applications/TCANLINPro.app/Contents/Frameworks/libusb-1.0.0.dylib''"

definition toomossUSB2XXX :: string where
  "toomossUSB2XXX = ''/Applications/TCANLINPro.app/Contents/Frameworks/libUSB2XXX.dylib''"

subsection \<open>The C side\<close>

record LIN_EX_MSG =
  c_Timestamp :: u32
  c_MsgType :: byte
  c_CheckType :: byte
  c_DataLen :: byte
  c_Sync :: byte
  c_PID :: byte
  c_Data :: "byte list"
  c_Check :: byte
  c_BreakBits :: byte
  c_Reserve1 :: byte

definition zero_LIN_EX_MSG :: LIN_EX_MSG where
  "zero_LIN_EX_MSG = \<lparr>c_Timestamp = 0, c_MsgType = 0, c_CheckType = 0, c_DataLen = 0, c_Sync = 0,
     c_PID = 0, c_Data = replicate 8 0, c_Check = 0, c_BreakBits = 0, c_Reserve1 = 0\<rparr>"

record DarwinGlobals =
  g_libusb :: u64
  g_usb2xxx :: u64
  pUSB_ScanDevice :: u64
  pUSB_OpenDevice :: u64
  pUSB_CloseDevice :: u64
  pLIN_EX_Init :: u64
  pLIN_EX_MasterSync :: u64
  pLIN_EX_SlaveGetData :: u64
  darwin_DevHandle :: u32
  toomossLoaded :: bool
  darwin_instanceActive :: bool

text \<open>\<open>dl_sym\<close> yields the address and whether \<^verbatim>\<open>dlerror\<close> reports an error.\<close>

record 'x USB2XXX_dylib =
  dl_open :: "string \<Rightarrow> 'x \<Rightarrow> u64 \<times> 'x"
  dl_close :: "u64 \<Rightarrow> 'x \<Rightarrow> 'x"
  dl_sym :: "u64 \<Rightarrow> string \<Rightarrow> 'x \<Rightarrow> u64 \<times> bool \<times> 'x"
  c_ScanDevice :: "'x \<Rightarrow> u32 \<times> u32 \<times> 'x"
  c_OpenDevice :: "u32 \<Rightarrow> 'x \<Rightarrow> bool \<times> 'x"
  c_CloseDevice :: "u32 \<Rightarrow> 'x \<Rightarrow> bool \<times> 'x"
  c_Init :: "u32 \<Rightarrow> Channel \<Rightarrow> u32 \<Rightarrow> byte \<Rightarrow> 'x \<Rightarrow> u32 \<times> 'x"
  c_MasterSync ::
    "u32 \<Rightarrow> Channel \<Rightarrow> LIN_EX_MSG list \<Rightarrow> LIN_EX_MSG list \<Rightarrow> 'x \<Rightarrow> u32 \<times> LIN_EX_MSG list \<times> 'x"
  c_SlaveGetData :: "u32 \<Rightarrow> Channel \<Rightarrow> LIN_EX_MSG list \<Rightarrow> 'x \<Rightarrow> u32 \<times> LIN_EX_MSG list \<times> 'x"
  c_now :: "'x \<Rightarrow> int"
  c_sleep :: "int \<Rightarrow> 'x \<Rightarrow> 'x"

definition lin_toomoss_unload :: "'x USB2XXX_dylib \<Rightarrow> DarwinGlobals \<times> 'x \<Rightarrow> DarwinGlobals \<times> 'x" where
  "lin_toomoss_unload api w =
     (let (g, x) = w;
          g = g\<lparr>pUSB_ScanDevice := 0, pUSB_OpenDevice := 0, pUSB_CloseDevice := 0, pLIN_EX_Init := 0,
                pLIN_EX_MasterSync := 0, pLIN_EX_SlaveGetData := 0\<rparr>;
          (g, x) = (if g_usb2xxx g \<noteq> 0 then (g\<lparr>g_usb2xxx := 0\<rparr>, dl_close api (g_usb2xxx g) x) else (g, x));
          (g, x) = (if g_libusb g \<noteq> 0 then (g\<lparr>g_libusb := 0\<rparr>, dl_close api (g_libusb g) x) else (g, x))
      in (g, x))"

text \<open>\<^verbatim>\<open>LOAD_SYMBOL\<close> of a list of functions: a missing one unloads everything.\<close>

fun load_symbols ::
    "'x USB2XXX_dylib \<Rightarrow> (string \<times> (u64 \<Rightarrow> DarwinGlobals \<Rightarrow> DarwinGlobals)) list \<Rightarrow>
     DarwinGlobals \<times> 'x \<Rightarrow> error option \<times> DarwinGlobals \<times> 'x" where
  "load_symbols api [] w = (None, w)"
| "load_symbols api ((name, store) # symbols) w =
     (let (g, x) = w;
          (addr, sym_err, x) = dl_sym api (g_usb2xxx g) name x;
          g = store addr g
      in if sym_err \<or> addr = 0 then
           let w = lin_toomoss_unload api (g, x) in (Some (ErrorText name []), w)
         else load_symbols api symbols (g, x))"

definition toomoss_symbols :: "(string \<times> (u64 \<Rightarrow> DarwinGlobals \<Rightarrow> DarwinGlobals)) list" where
  "toomoss_symbols =
     [(''USB_ScanDevice'', \<lambda>a. pUSB_ScanDevice_update (\<lambda>_. a)),
      (''USB_OpenDevice'', \<lambda>a. pUSB_OpenDevice_update (\<lambda>_. a)),
      (''USB_CloseDevice'', \<lambda>a. pUSB_CloseDevice_update (\<lambda>_. a)),
      (''LIN_EX_Init'', \<lambda>a. pLIN_EX_Init_update (\<lambda>_. a)),
      (''LIN_EX_MasterSync'', \<lambda>a. pLIN_EX_MasterSync_update (\<lambda>_. a)),
      (''LIN_EX_SlaveGetData'', \<lambda>a. pLIN_EX_SlaveGetData_update (\<lambda>_. a))]"

definition lin_toomoss_load ::
    "'x USB2XXX_dylib \<Rightarrow> string \<Rightarrow> string \<Rightarrow> DarwinGlobals \<times> 'x \<Rightarrow> error option \<times> DarwinGlobals \<times> 'x" where
  "lin_toomoss_load api libusb_path usb2xxx_path w =
     (let (g, x) = w
      in if g_usb2xxx g \<noteq> 0 then (None, w)
         else
           let (handle, x) = dl_open api libusb_path x;
               g = g\<lparr>g_libusb := handle\<rparr>
           in if handle = 0 then (Some (ErrorText ''dlopen libusb-1.0.0.dylib failed'' []), g, x)
              else
                let (handle, x) = dl_open api usb2xxx_path x;
                    g = g\<lparr>g_usb2xxx := handle\<rparr>
                in if handle = 0 then
                     let x = dl_close api (g_libusb g) x
                     in (Some (ErrorText ''dlopen libUSB2XXX.dylib failed'' []), g\<lparr>g_libusb := 0\<rparr>, x)
                   else load_symbols api toomoss_symbols (g, x))"

text \<open>The wrappers; a scan writes the handle of the first device.\<close>

definition lin_toomoss_usb_scan_device ::
    "'x USB2XXX_dylib \<Rightarrow> DarwinGlobals \<times> 'x \<Rightarrow> u32 \<times> DarwinGlobals \<times> 'x" where
  "lin_toomoss_usb_scan_device api w =
     (let (g, x) = w
      in if pUSB_ScanDevice g = 0 then (- 1, w)
         else let (ret, handle, x) = c_ScanDevice api x in (ret, g\<lparr>darwin_DevHandle := handle\<rparr>, x))"

definition lin_toomoss_usb_open_device ::
    "'x USB2XXX_dylib \<Rightarrow> DarwinGlobals \<times> 'x \<Rightarrow> u32 \<times> DarwinGlobals \<times> 'x" where
  "lin_toomoss_usb_open_device api w =
     (let (g, x) = w
      in if pUSB_OpenDevice g = 0 then (- 1, w)
         else let (ok, x) = c_OpenDevice api (darwin_DevHandle g) x in (if ok then 1 else 0, g, x))"

definition lin_toomoss_usb_close_device ::
    "'x USB2XXX_dylib \<Rightarrow> DarwinGlobals \<times> 'x \<Rightarrow> u32 \<times> DarwinGlobals \<times> 'x" where
  "lin_toomoss_usb_close_device api w =
     (let (g, x) = w
      in if pUSB_CloseDevice g = 0 then (- 1, w)
         else let (ok, x) = c_CloseDevice api (darwin_DevHandle g) x in (if ok then 1 else 0, g, x))"

definition lin_toomoss_lin_ex_init ::
    "'x USB2XXX_dylib \<Rightarrow> Channel \<Rightarrow> u32 \<Rightarrow> byte \<Rightarrow> DarwinGlobals \<times> 'x \<Rightarrow> u32 \<times> DarwinGlobals \<times> 'x" where
  "lin_toomoss_lin_ex_init api channel baudRate mode w =
     (let (g, x) = w
      in if pLIN_EX_Init g = 0 then (- 1, w)
         else let (ret, x) = c_Init api (darwin_DevHandle g) channel baudRate mode x in (ret, g, x))"

definition lin_toomoss_lin_ex_master_sync ::
    "'x USB2XXX_dylib \<Rightarrow> Channel \<Rightarrow> LIN_EX_MSG list \<Rightarrow> LIN_EX_MSG list \<Rightarrow> DarwinGlobals \<times> 'x \<Rightarrow>
     u32 \<times> LIN_EX_MSG list \<times> DarwinGlobals \<times> 'x" where
  "lin_toomoss_lin_ex_master_sync api channel inMsg outMsg w =
     (let (g, x) = w
      in if pLIN_EX_MasterSync g = 0 then (- 1, outMsg, w)
         else let (ret, outMsg, x) = c_MasterSync api (darwin_DevHandle g) channel inMsg outMsg x
              in (ret, outMsg, g, x))"

definition lin_toomoss_lin_ex_slave_get_data ::
    "'x USB2XXX_dylib \<Rightarrow> Channel \<Rightarrow> LIN_EX_MSG list \<Rightarrow> DarwinGlobals \<times> 'x \<Rightarrow>
     u32 \<times> LIN_EX_MSG list \<times> DarwinGlobals \<times> 'x" where
  "lin_toomoss_lin_ex_slave_get_data api channel linMsg w =
     (let (g, x) = w
      in if pLIN_EX_SlaveGetData g = 0 then (- 1, linMsg, w)
         else let (ret, linMsg, x) = c_SlaveGetData api (darwin_DevHandle g) channel linMsg x
              in (ret, linMsg, g, x))"

subsection \<open>The device\<close>

definition darwin_resetToomossState :: "DarwinGlobals \<Rightarrow> DarwinGlobals" where
  "darwin_resetToomossState g = g\<lparr>darwin_DevHandle := 0, toomossLoaded := False\<rparr>"

definition darwin_ensureToomossLoaded ::
    "'x USB2XXX_dylib \<Rightarrow> DarwinGlobals \<times> 'x \<Rightarrow> error option \<times> DarwinGlobals \<times> 'x" where
  "darwin_ensureToomossLoaded api w =
     (if toomossLoaded (fst w) then (None, w)
      else case lin_toomoss_load api toomossLibusbPath toomossUSB2XXX w of
             (Some err, w) \<Rightarrow> (Some (Wrapped ''load Toomoss dylib failed'' [] err), w)
           | (None, g, x) \<Rightarrow> (None, g\<lparr>toomossLoaded := True\<rparr>, x))"

definition darwin_usbScan :: "'x USB2XXX_dylib \<Rightarrow> DarwinGlobals \<times> 'x \<Rightarrow> (error + bool) \<times> DarwinGlobals \<times> 'x" where
  "darwin_usbScan api w =
     (case darwin_ensureToomossLoaded api w of
        (Some err, w) \<Rightarrow> (Inl err, w)
      | (None, w) \<Rightarrow>
          let (ret, w) = lin_toomoss_usb_scan_device api w
          in if sint ret \<le> 0 then (Inr False, w) else (Inr True, w))"

definition darwin_usbOpen :: "'x USB2XXX_dylib \<Rightarrow> DarwinGlobals \<times> 'x \<Rightarrow> (error + bool) \<times> DarwinGlobals \<times> 'x" where
  "darwin_usbOpen api w =
     (case darwin_ensureToomossLoaded api w of
        (Some err, w) \<Rightarrow> (Inl err, w)
      | (None, w) \<Rightarrow>
          let (stateValue, w) = lin_toomoss_usb_open_device api w in (Inr (sint stateValue \<ge> 1), w))"

text \<open>The exported forms give no error.\<close>

definition darwin_UsbScan :: "'x USB2XXX_dylib \<Rightarrow> DarwinGlobals \<times> 'x \<Rightarrow> bool \<times> DarwinGlobals \<times> 'x" where
  "darwin_UsbScan api w =
     (case darwin_usbScan api w of (Inl err, w) \<Rightarrow> (False, w) | (Inr ok, w) \<Rightarrow> (ok, w))"

definition darwin_UsbOpen :: "'x USB2XXX_dylib \<Rightarrow> DarwinGlobals \<times> 'x \<Rightarrow> bool \<times> DarwinGlobals \<times> 'x" where
  "darwin_UsbOpen api w =
     (case darwin_usbOpen api w of (Inl err, w) \<Rightarrow> (False, w) | (Inr ok, w) \<Rightarrow> (ok, w))"

definition darwin_usbClose :: "'x USB2XXX_dylib \<Rightarrow> DarwinGlobals \<times> 'x \<Rightarrow> error option \<times> DarwinGlobals \<times> 'x" where
  "darwin_usbClose api w =
     (if \<not> toomossLoaded (fst w) then (None, w)
      else
        let (ret, w) = lin_toomoss_usb_close_device api w
        in if sint ret < 1 then (Some (ErrorText ''USB_CloseDevice returned'' [sint ret]), w)
           else let (g, x) = lin_toomoss_unload api w in (None, darwin_resetToomossState g, x))"

definition darwin_ensureLinReady ::
    "'x USB2XXX_dylib \<Rightarrow> DarwinGlobals \<times> 'x \<Rightarrow> error option \<times> DarwinGlobals \<times> 'x" where
  "darwin_ensureLinReady api w =
     (let (err, w) = darwin_ensureToomossLoaded api w
      in (map_option (Wrapped ''load Toomoss LIN dylibs'' []) err, w))"

fun darwin_init_channels ::
    "'x USB2XXX_dylib \<Rightarrow> byte \<Rightarrow> Channel list \<Rightarrow> DarwinGlobals \<times> 'x \<Rightarrow> error option \<times> DarwinGlobals \<times> 'x" where
  "darwin_init_channels api mode [] w = (None, w)"
| "darwin_init_channels api mode (channel # cs) w =
     (let (ret, w) = lin_toomoss_lin_ex_init api channel darwin_Bt mode w
      in if ret \<noteq> 0 then
           let (_, w) = darwin_usbClose api w
           in (Some (ErrorText ''failed to initialize Toomoss LIN channel'' [uint channel, sint ret]), w)
         else darwin_init_channels api mode cs w)"

definition darwin_NewToomoss ::
    "'x USB2XXX_dylib \<Rightarrow> Channel list \<Rightarrow> byte \<Rightarrow> DarwinGlobals \<times> 'x \<Rightarrow> (error + Toomoss) \<times> DarwinGlobals \<times> 'x" where
  "darwin_NewToomoss api channels mode w =
     (if darwin_instanceActive (fst w)
      then (Inl (ErrorText ''a Toomoss device instance is already active'' []), w)
      else if length channels = 0 then (Inl (ErrorText ''at least one LIN channel is required'' []), w)
      else case darwin_ensureLinReady api w of
             (Some err, w) \<Rightarrow> (Inl err, w)
           | (None, w) \<Rightarrow>
               (case darwin_UsbScan api w of
                  (False, w) \<Rightarrow> (Inl (ErrorText ''USB scan failed: device not found or dylib missing'' []), w)
                | (True, w) \<Rightarrow>
                    (case darwin_UsbOpen api w of
                       (False, w) \<Rightarrow> (Inl (ErrorText ''USB open failed'' []), w)
                     | (True, w) \<Rightarrow>
                         (case darwin_init_channels api mode channels w of
                            (Some err, w) \<Rightarrow> (Inl err, w)
                          | (None, g, x) \<Rightarrow>
                              (Inr \<lparr>tm_closed = False, tm_closeOnce = False, tm_channels = channels,
                                    tm_eventChans = (\<lambda>_. None), tm_panicked = False\<rparr>,
                               g\<lparr>darwin_instanceActive := True\<rparr>, x)))))"

text \<open>The result of the first \<open>Close\<close> only; a second one has none.\<close>

definition darwin_Close ::
    "'x USB2XXX_dylib \<Rightarrow> Toomoss \<Rightarrow> DarwinGlobals \<times> 'x \<Rightarrow> error option \<times> Toomoss \<times> DarwinGlobals \<times> 'x" where
  "darwin_Close api d w =
     (if tm_closeOnce d then (None, d, w)
      else
        let d = d\<lparr>tm_closeOnce := True, tm_closed := True\<rparr>;
            (closeErr, g, x) = darwin_usbClose api w
        in (closeErr, d, g\<lparr>darwin_instanceActive := False\<rparr>, x))"

subsection \<open>The calls of the LIN channels\<close>

definition goToCLINMsg :: "LinExMsg \<Rightarrow> LIN_EX_MSG" where
  "goToCLINMsg msg =
     \<lparr>c_Timestamp = lx_Timestamp msg, c_MsgType = lx_MsgType msg, c_CheckType = lx_CheckType msg,
      c_DataLen = lx_DataLen msg, c_Sync = lx_Sync msg, c_PID = lx_PID msg,
      c_Data = map (\<lambda>i. lx_Data msg ! i) [0..<8], c_Check = lx_Check msg,
      c_BreakBits = lx_BreakBits msg, c_Reserve1 = lx_Reserve1 msg\<rparr>"

definition cToGoLINMsg :: "LIN_EX_MSG \<Rightarrow> LinExMsg" where
  "cToGoLINMsg cMsg =
     \<lparr>lx_Timestamp = c_Timestamp cMsg, lx_MsgType = c_MsgType cMsg, lx_CheckType = c_CheckType cMsg,
      lx_DataLen = c_DataLen cMsg, lx_Sync = c_Sync cMsg, lx_PID = c_PID cMsg,
      lx_Data = map (\<lambda>i. c_Data cMsg ! i) [0..<8], lx_Check = c_Check cMsg,
      lx_BreakBits = c_BreakBits cMsg, lx_Reserve1 = c_Reserve1 cMsg\<rparr>"

text \<open>\<^verbatim>\<open>uintptr(ret)\<close> of a C \<^verbatim>\<open>int\<close> extends its sign.\<close>

definition darwin_LinMasterSync ::
    "'x USB2XXX_dylib \<Rightarrow> LinExMsg list \<Rightarrow> LinExMsg list \<Rightarrow> Channel \<Rightarrow> 'z Toomoss_scheme \<Rightarrow>
     DarwinGlobals \<times> 'x \<Rightarrow> (u64 \<times> error option) \<times> LinExMsg list \<times> DarwinGlobals \<times> 'x" where
  "darwin_LinMasterSync api msg outMsg channel d w =
     (if length outMsg = 0 \<or> length msg = 0
      then ((0, Some (ErrorText ''LinMasterSync called with empty outMsg'' [])), outMsg, w)
      else if length msg \<noteq> length outMsg
      then ((0, Some (ErrorText ''LinMasterSync: len(msg) != len(outMsg)'' [])), outMsg, w)
      else
        let cIn = map goToCLINMsg msg;
            cOut = replicate (length outMsg) zero_LIN_EX_MSG
        in case toomoss_validateChannel channel d of
             Some err \<Rightarrow> ((0, Some err), outMsg, w)
           | None \<Rightarrow>
               let (ret, cOut, w) = lin_toomoss_lin_ex_master_sync api channel cIn cOut w
               in ((scast ret, None), map (\<lambda>i. cToGoLINMsg (cOut ! i)) [0..<length outMsg], w))"

definition darwin_LinExSlaveGetData ::
    "'x USB2XXX_dylib \<Rightarrow> Channel \<Rightarrow> 'z Toomoss_scheme \<Rightarrow> DarwinGlobals \<times> 'x \<Rightarrow>
     (error + LinExMsg list) \<times> DarwinGlobals \<times> 'x" where
  "darwin_LinExSlaveGetData api channel d w =
     (case toomoss_validateChannel channel d of
        Some err \<Rightarrow> (Inl err, w)
      | None \<Rightarrow>
          (case darwin_ensureToomossLoaded api w of
             (Some err, w) \<Rightarrow> (Inl err, w)
           | (None, w) \<Rightarrow>
               let cMsgs = replicate darwin_MaxFrames zero_LIN_EX_MSG
               in case toomoss_validateChannel channel d of
                    Some err \<Rightarrow> (Inl err, w)
                  | None \<Rightarrow>
                      let (ret, cMsgs, w) = lin_toomoss_lin_ex_slave_get_data api channel cMsgs w
                      in if sint ret < 0
                         then (Inl (ErrorText ''LIN_EX_SlaveGetData failed'' [sint ret]), w)
                         else
                           let count = nat (min (sint ret) (int (length cMsgs)))
                           in (Inr (map (\<lambda>i. cToGoLINMsg (cMsgs ! i)) [0..<count]), w)))"

text \<open>The shared operations over these calls.\<close>

definition darwin_calls :: "'x USB2XXX_dylib \<Rightarrow> ('z, DarwinGlobals \<times> 'x) ToomossCalls" where
  "darwin_calls api =
     \<lparr>tc_sync = (\<lambda>msg outMsg channel d w.
        let ((ret, _), outMsg, w) = darwin_LinMasterSync api msg outMsg channel d w in (ret, outMsg, w)),
      tc_data = darwin_LinExSlaveGetData api,
      tc_now = (\<lambda>(g, x). c_now api x),
      tc_sleep = (\<lambda>t (g, x). (g, c_sleep api t x))\<rparr>"

definition darwin_ReadEvent ::
    "'x USB2XXX_dylib \<Rightarrow> int \<Rightarrow> Channel \<Rightarrow> Toomoss \<times> DarwinGlobals \<times> 'x \<Rightarrow>
     ((error + LinEvent option) \<times> Toomoss \<times> DarwinGlobals \<times> 'x) option" where
  "darwin_ReadEvent api = toomoss_ReadEvent (darwin_calls api)"

definition darwin_WriteMessage ::
    "'x USB2XXX_dylib \<Rightarrow> LinEvent option \<Rightarrow> Channel \<Rightarrow> Toomoss \<times> DarwinGlobals \<times> 'x \<Rightarrow>
     error option \<times> Toomoss \<times> DarwinGlobals \<times> 'x" where
  "darwin_WriteMessage api = toomoss_WriteMessage (darwin_calls api)"

definition darwin_MasterWrite ::
    "'x USB2XXX_dylib \<Rightarrow> byte \<Rightarrow> byte list \<Rightarrow> Channel \<Rightarrow> Toomoss \<times> DarwinGlobals \<times> 'x \<Rightarrow>
     error option \<times> Toomoss \<times> DarwinGlobals \<times> 'x" where
  "darwin_MasterWrite api = toomoss_MasterWrite (darwin_calls api)"

definition darwin_MasterRead ::
    "'x USB2XXX_dylib \<Rightarrow> byte \<Rightarrow> Channel \<Rightarrow> Toomoss \<times> DarwinGlobals \<times> 'x \<Rightarrow>
     (error + byte list) \<times> Toomoss \<times> DarwinGlobals \<times> 'x" where
  "darwin_MasterRead api = toomoss_MasterRead (darwin_calls api)"

definition darwin_RequestSlaveResponse ::
    "'x USB2XXX_dylib \<Rightarrow> byte \<Rightarrow> Channel \<Rightarrow> Toomoss \<times> DarwinGlobals \<times> 'x \<Rightarrow>
     error option \<times> Toomoss \<times> DarwinGlobals \<times> 'x" where
  "darwin_RequestSlaveResponse api = toomoss_RequestSlaveResponse (darwin_calls api)"

definition darwin_LinBreak ::
    "'x USB2XXX_dylib \<Rightarrow> Channel \<Rightarrow> Toomoss \<times> DarwinGlobals \<times> 'x \<Rightarrow>
     error option \<times> Toomoss \<times> DarwinGlobals \<times> 'x" where
  "darwin_LinBreak api = toomoss_LinBreak (darwin_calls api)"

definition darwin_driver :: "'x USB2XXX_dylib \<Rightarrow> (Toomoss \<times> DarwinGlobals \<times> 'x) Driver" where
  "darwin_driver api =
     \<lparr>ReadEvent = darwin_ReadEvent api,
      WriteMessage = darwin_WriteMessage api,
      ScheduleSlaveResponse = toomoss_ScheduleSlaveResponse,
      RequestSlaveResponse = darwin_RequestSlaveResponse api\<rparr>"

end
