(* ===== verification/Toomoss_Platforms.thy ===== *)
theory Toomoss_Platforms
  imports Toomoss_Properties Toomoss_Windows Toomoss_Darwin
begin

section \<open>What the Toomoss driver guarantees on its platforms\<close>


interpretation mac: checked_calls "darwin_calls api" for api
  by unfold_locales (simp add: darwin_calls_def darwin_LinMasterSync_def Let_def)

subsection \<open>Loading the library on Windows\<close>

text \<open>
  All steps of loading change only the variables that a reset clears.
\<close>

lemma reset_idem [simp]: "resetToomossState (resetToomossState g) = resetToomossState g"
  by (simp add: resetToomossState_def)

lemma load_from_registry_keeps:
  "load_from_registry api (g, x) = (b, g', x') \<Longrightarrow> resetToomossState g' = resetToomossState g \<and> (\<not> b \<longrightarrow> g' = g)"
  by (auto simp: load_from_registry_def resetToomossState_def Let_def split: prod.splits sum.splits if_splits)

lemma loadDLLs_keeps:
  assumes "loadDLLs api (g, x) = (r, g', x')"
  shows "resetToomossState g' = resetToomossState g \<and> (r \<noteq> None \<longrightarrow> g' = g)"
proof (cases "UsbDeviceDLL g = 0")
  case True
  obtain b g1 x1 where l: "(if arch_386 api then load_from_registry api (g, x) else (False, g, x)) = (b, g1, x1)"
    by (metis surj_pair)
  then have keeps: "resetToomossState g1 = resetToomossState g" "\<not> b \<longrightarrow> g1 = g"
    using load_from_registry_keeps [of api g x b g1 x1] by (auto split: if_splits)
  obtain a x2 where a: "LoadLibrary api [bin_dir, archDLLDir api, ''libusb-1.0.dll''] x1 = (a, x2)"
    by (metis surj_pair)
  obtain h x3 where h: "LoadLibrary api [bin_dir, archDLLDir api, ''USB2XXX.dll''] x2 = (h, x3)"
    by (metis surj_pair)
  show ?thesis
  proof (cases b)
    case True
    then have "r = None \<and> g' = g1"
      using assms \<open>UsbDeviceDLL g = 0\<close> unfolding loadDLLs_def l by simp
    then show ?thesis using keeps by simp
  next
    case False
    then have "(r, g', x') = (case h of Inl err \<Rightarrow> (Some (Wrapped ''failed to load USB2XXX.dll'' [] err), g1, x3)
        | Inr handle \<Rightarrow> (None, g1\<lparr>UsbDeviceDLL := handle\<rparr>, x3))"
      using assms \<open>UsbDeviceDLL g = 0\<close> a h unfolding loadDLLs_def l by (simp add: Let_def)
    then show ?thesis using keeps False by (cases h) (simp_all add: resetToomossState_def)
  qed
qed (use assms in \<open>simp add: loadDLLs_def\<close>)

lemma getProc_cases:
  assumes "getProc api name (g, x) = (r, w)"
  obtains (found) a x' where "a \<noteq> 0" "r = Inr a" "w = (g, x')" | (missing) e x' where "r = Inl e" "w = (g, x')"
  using assms by (auto simp: getProc_def Let_def split: prod.splits if_splits)

lemma load_required_cases:
  assumes "load_required api name store (errs, g, x) = (errs', w')"
  shows "\<exists>a. fst w' = store a g \<and> (errs' = [] \<longrightarrow> errs = [] \<and> a \<noteq> 0)"
proof -
  obtain r w where r: "getProc api name (g, x) = (r, w)" by (metis surj_pair)
  then show ?thesis using assms by (cases rule: getProc_cases) (auto simp: load_required_def r)
qed

lemma load_all_required:
  assumes "fold (\<lambda>(name, store). load_required api name store) procs (errs, g, x) = (errs', w')"
  shows "\<exists>as. length as = length procs \<and> fst w' = fold (\<lambda>(p, a). snd p a) (zip procs as) g \<and>
    (errs' = [] \<longrightarrow> errs = [] \<and> 0 \<notin> set as)"
  using assms
proof (induction procs arbitrary: errs g x)
  case Nil
  then show ?case by (cases w') simp
next
  case (Cons p procs)
  obtain name store where p: "p = (name, store)" by (cases p)
  obtain errs1 g1 x1 where s: "load_required api name store (errs, g, x) = (errs1, g1, x1)"
    by (metis surj_pair)
  from load_required_cases [OF s] obtain a where a: "g1 = store a g" "errs1 = [] \<longrightarrow> errs = [] \<and> a \<noteq> 0"
    by auto
  from Cons.IH [of errs1 g1 x1] Cons.prems obtain as where as: "length as = length procs"
    "fst w' = fold (\<lambda>(p, a). snd p a) (zip procs as) g1" "errs' = [] \<longrightarrow> errs1 = [] \<and> 0 \<notin> set as"
    by (auto simp: p s)
  then show ?case using a by (intro exI [of _ "a # as"]) (auto simp: p)
qed

lemma loadOptionalProc_keeps: "\<exists>a x'. loadOptionalProc api name dest (g, x) = (dest a g, x')"
proof -
  obtain r w where r: "getProc api name (g, x) = (r, w)" by (metis surj_pair)
  then show ?thesis by (cases rule: getProc_cases) (auto simp: loadOptionalProc_def r)
qed

lemma load_all_optional:
  "\<exists>as. length as = length procs \<and>
    fst (fold (\<lambda>(name, store). loadOptionalProc api name store) procs w) =
      fold (\<lambda>(p, a). snd p a) (zip procs as) (fst w)"
proof (induction procs arbitrary: w)
  case (Cons p procs)
  obtain name store where p: "p = (name, store)" by (cases p)
  obtain g x where w: "w = (g, x)" by (cases w)
  from loadOptionalProc_keeps [of api name store g x] obtain a x1 where a: "loadOptionalProc api name store w = (store a (fst w), x1)"
    unfolding w fst_conv by blast
  from Cons.IH [of "(store a (fst w), x1)"] obtain as where "length as = length procs"
    "fst (fold (\<lambda>(name, store). loadOptionalProc api name store) procs (store a (fst w), x1)) =
      fold (\<lambda>(p, a). snd p a) (zip procs as) (store a (fst w))" by auto
  then show ?case by (intro exI [of _ "a # as"]) (simp add: p a)
qed simp

lemma six: "length as = 6 \<longleftrightarrow> (\<exists>a b c d e f. as = [a, b, c, d, e, f])"
  and five: "length as = 5 \<longleftrightarrow> (\<exists>a b c d e. as = [a, b, c, d, e])"
  by (auto simp: numeral_eq_Suc length_Suc_conv)

lemma loadProcAddresses_keeps:
  assumes "loadProcAddresses api (g, x) = (r, g', x')"
  shows "resetToomossState g' = resetToomossState g \<and> (r = None \<longrightarrow> toomossReady g')"
proof (cases "UsbDeviceDLL g = 0")
  case False
  obtain errs w where w: "fold (\<lambda>(name, store). load_required api name store) required_procs ([], g, x) = (errs, w)"
    by (metis surj_pair)
  have n: "length required_procs = 6" "length optional_procs = 5"
    by (simp_all add: required_procs_def optional_procs_def)
  from load_all_required [OF w, unfolded n] obtain as where as: "length as = 6"
    "fst w = fold (\<lambda>(p, a). snd p a) (zip required_procs as) g" "errs = [] \<longrightarrow> 0 \<notin> set as" by blast
  from load_all_optional [of optional_procs api w, unfolded n] obtain bs where bs: "length bs = 5"
    "fst (fold (\<lambda>(name, store). loadOptionalProc api name store) optional_procs w) =
      fold (\<lambda>(p, a). snd p a) (zip optional_procs bs) (fst w)" by blast
  have "g' = fst (fold (\<lambda>(name, store). loadOptionalProc api name store) optional_procs w)"
    "r = None \<longleftrightarrow> errs = []"
    using assms False by (auto simp: loadProcAddresses_def w Let_def split: if_splits)
  then show ?thesis
    using as bs False
    by (auto simp: six five required_procs_def optional_procs_def resetToomossState_def toomossReady_def)
qed (use assms in \<open>auto simp: loadProcAddresses_def\<close>)

lemma toomoss_load_cases:
  "case ensureToomossLoaded api (g, x) of
     (None, g', x') \<Rightarrow> toomossReady g' \<and> resetToomossState g' = resetToomossState g \<and>
       (toomossReady g \<longrightarrow> (g', x') = (g, x))
   | (Some err, g', x') \<Rightarrow> \<not> toomossReady g \<and> g' = resetToomossState g"
proof (cases "toomossReady g")
  case False
  obtain r1 g1 x1 where l: "loadDLLs api (resetToomossState g, x) = (r1, g1, x1)" by (metis surj_pair)
  obtain r2 g2 x2 where p: "loadProcAddresses api (g1, x1) = (r2, g2, x2)" by (metis surj_pair)
  show ?thesis
    using False loadDLLs_keeps [OF l] loadProcAddresses_keeps [OF p]
    by (cases r1; cases r2) (simp_all add: ensureToomossLoaded_def l p Let_def)
qed (simp add: ensureToomossLoaded_def)

text \<open>
  C33: Loading the library on Windows is all or nothing. When it succeeds, the library and the seven
  addresses that the driver calls are there; when it fails, whatever was missing, all variables
  of the library are zero again and nothing else has changed. A library that is ready is not loaded
  again.
\<close>

theorem toomoss_load_all_or_nothing:
  "case ensureToomossLoaded api (g, x) of
     (None, g', x') \<Rightarrow> toomossReady g' \<and> resetToomossState g' = resetToomossState g \<and>
       (toomossReady g \<longrightarrow> (g', x') = (g, x))
   | (Some err, g', x') \<Rightarrow> \<not> toomossReady g \<and> g' = resetToomossState g"
  by (rule toomoss_load_cases)

subsection \<open>What opening and closing keep on Windows\<close>

lemma reset_active [simp]: "toomossInstanceActive (resetToomossState g) = toomossInstanceActive g"
  by (simp add: resetToomossState_def)

lemma reset_eqD: "resetToomossState g' = resetToomossState g \<Longrightarrow> toomossInstanceActive g' = toomossInstanceActive g"
  by (metis reset_active)

lemma ensure_ready [simp]: "toomossReady (fst w) \<Longrightarrow> ensureToomossLoaded api w = (None, w)"
  by (simp add: ensureToomossLoaded_def)

lemma ensure_active:
  "ensureToomossLoaded api w = (r, w') \<Longrightarrow>
   toomossInstanceActive (fst w') = toomossInstanceActive (fst w) \<and> (r = None \<longrightarrow> toomossReady (fst w'))"
  using toomoss_load_cases [where api = api and g = "fst w" and x = "snd w"] reset_eqD [of "fst w'" "fst w"]
  by (cases r; cases w') simp_all

lemma UsbScan_ready:
  assumes "toomossReady (fst w)" and "UsbScan api w = (ok, w')"
  shows "toomossReady (fst w') \<and> toomossInstanceActive (fst w') = toomossInstanceActive (fst w)"
proof -
  obtain r e h y where s: "USB_ScanDevice api (snd w) = (r, e, h, y)" by (metis surj_pair)
  obtain g x where w: "w = (g, x)" by (cases w)
  show ?thesis
    using assms s
    by (auto simp: w UsbScan_def usbScan_def toomossReady_def ensureToomossLoaded_def Let_def split: if_splits)
qed

lemma UsbOpen_ready:
  assumes "toomossReady (fst w)" and "UsbOpen api w = (ok, w')"
  shows "fst w' = fst w"
proof -
  obtain r e y where s: "USB_OpenDevice api (DevHandle (fst w)) (snd w) = (r, e, y)" by (metis surj_pair)
  obtain g x where w: "w = (g, x)" by (cases w)
  show ?thesis
    using assms s
    by (auto simp: w UsbOpen_def usbOpen_def toomossReady_def ensureToomossLoaded_def Let_def split: if_splits)
qed

lemma usbClose_keeps:
  assumes "usbClose api w = (r, w')"
  shows "resetToomossState (fst w') = resetToomossState (fst w)"
proof -
  obtain g x where w: "w = (g, x)" by (cases w)
  obtain a e y where c: "USB_CloseDevice api (DevHandle g) x = (a, e, y)" by (metis surj_pair)
  obtain f z where f: "FreeLibrary api (UsbDeviceDLL g) y = (f, z)" by (metis surj_pair)
  show ?thesis
    using assms by (cases f) (auto simp: w c f usbClose_def Let_def split: if_splits)
qed

lemma init_lin_channels_keeps:
  assumes "init_lin_channels api mode cs w = (r, w')"
  shows "toomossInstanceActive (fst w') = toomossInstanceActive (fst w) \<and> (r = None \<longrightarrow> fst w' = fst w)"
  using assms
proof (induction cs arbitrary: w)
  case (Cons c cs)
  obtain g x where w: "w = (g, x)" by (cases w)
  obtain a b y where i: "LIN_EX_Init api (DevHandle g) c Bt mode x = (a, b, y)" by (metis surj_pair)
  obtain u w2 where u: "usbClose api (g, y) = (u, w2)" by (metis surj_pair)
  show ?case
    using Cons reset_eqD [OF usbClose_keeps [OF u]]
    by (cases "a = 0") (auto simp: w i u Let_def)
qed simp

subsection \<open>Return codes\<close>

text \<open>
  The functions of the library return a C \<^verbatim>\<open>int\<close>, negative for an error (\<^verbatim>\<open>LIN_EX_ERR_...\<close>). The code
  reads 64 bits: on macOS with the sign extended, on Windows as the register has it, with the upper
  half zero or the sign.
\<close>

lemma sint_scast_u32: "sint (scast (code :: u32) :: u64) = sint code"
  by (simp add: sint_up_scast is_up)

lemma signed_small: "uint w < 2 ^ n \<Longrightarrow> signed_take_bit n (uint w) = uint w"
  by (rule signed_take_bit_int_eq_self) (simp_all add: order_trans [OF _ uint_ge_0])

lemma sint_ucast_u32: "sint (ucast (code :: u32) :: u64) = uint code"
proof -
  have "uint code < 2 ^ 32" using uint_lt2p [of code] by simp
  moreover have "uint (ucast code :: u64) = uint code" by (simp add: is_up uint_up_ucast)
  moreover have "signed_take_bit 63 (uint code) = uint code"
    by (rule signed_small) (use calculation in simp)
  ultimately show ?thesis by (simp add: sint_uint)
qed

lemma negative_code:
  fixes code :: u32
  assumes "sint code < 0"
  shows "2147483648 \<le> uint code" and "(ucast code :: u64) \<noteq> 0" and "(scast code :: u64) \<noteq> 0"
proof -
  show "2147483648 \<le> uint code"
  proof (rule ccontr)
    assume "\<not> 2147483648 \<le> uint code"
    then have "signed_take_bit 31 (uint code) = uint code"
      by (intro signed_small) simp
    then have "sint code = uint code" by (simp add: sint_uint)
    then show False using assms uint_ge_0 [of code] by simp
  qed
  then have "uint (ucast code :: u64) \<noteq> 0" by (simp add: is_up uint_up_ucast)
  then show "(ucast code :: u64) \<noteq> 0" by auto
  show "(scast code :: u64) \<noteq> 0" using assms sint_scast_u32 [of code] by auto
qed

lemma toomoss_write_result:
  assumes "toomoss_validateChannel c d = None" and "length (EventPayload e) \<le> 8"
    and "tc_sync api [toomoss_write_message (EventID e) (EventPayload e)] [zeroLinExMsg] c d w = (ret, [m], w')"
  shows "toomoss_WriteMessage api (Some e) c (d, w) =
    (if ret = 0 then (Some (ErrorText ''toomoss LIN write failed'' [0]), d, w')
     else if 8 < lx_DataLen m then (Some (ErrorText ''slice bounds out of range'' []), d\<lparr>tm_panicked := True\<rparr>, w')
     else (None, snd (toomoss_enqueue c
       (e\<lparr>ev_Channel := c, ev_Direction := TX, ev_Timestamp := tc_now api w'\<rparr>) d), w'))"
  using assms by (simp add: toomoss_WriteMessage_def log_slice_panics_def word_less_nat_alt Let_def)

text \<open>
  C34: An error of the adapter counts as a write. When the function that sends a frame returns a
  negative code, \<open>WriteMessage\<close> on a valid channel reports success, and a master write does
  too, on macOS and on Windows, as long as the length in the answer is one of a frame: the test
  \<^verbatim>\<open>ret <= 0\<close> is on an unsigned value and finds only 0.
\<close>

theorem toomoss_error_codes_succeed:
  fixes code :: u32
  assumes "sint code < 0" and "toomoss_validateChannel c d = None" and "length (EventPayload e) \<le> 8"
    and "ret = ucast code \<or> ret = scast code"
    and "LIN_EX_MasterSync api (DevHandle g) c [toomoss_write_message (EventID e) (EventPayload e)]
      [zeroLinExMsg] x = (ret, errno, [m], x')" and "lx_DataLen m \<le> 8"
    and "toomoss_validateChannel c d2 = None" and "pLIN_EX_MasterSync g2 \<noteq> 0"
    and "c_MasterSync dylib (darwin_DevHandle g2) c
      [goToCLINMsg (toomoss_write_message (EventID e) (EventPayload e))] [zero_LIN_EX_MSG] y = (code, [cm], y')"
    and "c_DataLen cm \<le> 8"
  shows "fst (toomoss_WriteMessage (windows_calls api) (Some e) c (d, g, x)) = None \<and>
    fst (toomoss_MasterWrite (windows_calls api) (EventID e) (EventPayload e) c (d, g, x)) = None \<and>
    fst (darwin_WriteMessage dylib (Some e) c (d2, g2, y)) = None \<and>
    fst (darwin_MasterWrite dylib (EventID e) (EventPayload e) c (d2, g2, y)) = None"
proof (intro conjI)
  have ret: "ret \<noteq> 0" "\<not> ret \<le> 0" using assms(4) negative_code [OF assms(1)] by auto
  have s: "\<not> (scast code :: u64) \<le> 0" using negative_code [OF assms(1)] by simp
  have win: "tc_sync (windows_calls api) [toomoss_write_message (EventID e) (EventPayload e)] [zeroLinExMsg]
      c d (g, x) = (ret, [m], g, x')"
    using assms(2,5) by (simp add: windows_calls_def LinMasterSync_def Let_def)
  have mac: "tc_sync (darwin_calls dylib) [toomoss_write_message (EventID e) (EventPayload e)] [zeroLinExMsg]
      c d2 (g2, y) = (scast code, [cToGoLINMsg cm], g2, y')"
    using assms(7-9)
    by (simp add: darwin_calls_def darwin_LinMasterSync_def lin_toomoss_lin_ex_master_sync_def Let_def)
  have cm: "lx_DataLen (cToGoLINMsg cm) = c_DataLen cm" by (simp add: cToGoLINMsg_def)
  show "fst (toomoss_WriteMessage (windows_calls api) (Some e) c (d, g, x)) = None"
    using assms(6) ret(1) by (simp add: toomoss_write_result [OF assms(2,3) win])
  show "fst (darwin_WriteMessage dylib (Some e) c (d2, g2, y)) = None"
    using assms(10) negative_code(3) [OF assms(1)]
    by (simp add: darwin_WriteMessage_def toomoss_write_result [OF assms(7,3) mac] cm)
  show "fst (toomoss_MasterWrite (windows_calls api) (EventID e) (EventPayload e) c (d, g, x)) = None"
    using assms(3,6) ret(2) by (simp add: toomoss_MasterWrite_def win log_slice_panics_def word_le_nat_alt Let_def)
  show "fst (darwin_MasterWrite dylib (EventID e) (EventPayload e) c (d2, g2, y)) = None"
    using assms(3,10) s
    by (simp add: darwin_MasterWrite_def toomoss_MasterWrite_def mac log_slice_panics_def word_le_nat_alt cm Let_def)
qed

text \<open>
  A failed poll is noticed on macOS, and on Windows only if the register has the sign. When the
  function that yields received frames returns a negative code, \<open>LinExSlaveGetData\<close> gives an
  error with that code on macOS and in a build for 386; in a build for 64 bits it does so if the code
  comes with its sign extended, and otherwise, with the upper half of the register zero, it reports
  all 512 frames of its buffer as received.
\<close>

theorem toomoss_read_error_codes:
  fixes code :: u32
  assumes "sint code < 0" and "toomoss_validateChannel c d = None" and "LinEXSlaveGetData g \<noteq> 0"
    and "LIN_EX_SlaveGetData api (DevHandle g) c (replicate 512 zeroLinExMsg) x = (ret, 0, buf, x')"
    and "length buf = 512"
    and "toomoss_validateChannel c d2 = None" and "toomossLoaded g2" and "pLIN_EX_SlaveGetData g2 \<noteq> 0"
    and "c_SlaveGetData dylib (darwin_DevHandle g2) c (replicate 512 zero_LIN_EX_MSG) y = (code, cbuf, y')"
  shows "(ret = scast code \<or> ret = ucast code \<and> arch_386 api \<longrightarrow>
      LinExSlaveGetData api c d (g, x) = (Inl (ErrorText ''LIN_EX_SlaveGetData failed'' [sint code]), g, x')) \<and>
    (ret = ucast code \<and> \<not> arch_386 api \<longrightarrow> LinExSlaveGetData api c d (g, x) = (Inr buf, g, x')) \<and>
    darwin_LinExSlaveGetData dylib c d2 (g2, y) =
      (Inl (ErrorText ''LIN_EX_SlaveGetData failed'' [sint code]), g2, y')"
proof (intro conjI)
  have cut: "(ucast (scast code :: u64) :: u32) = code" "(ucast (ucast code :: u64) :: u32) = code"
    by (rule bit_word_eqI; simp add: bit_simps; fastforce)+
  show "ret = scast code \<or> ret = ucast code \<and> arch_386 api \<longrightarrow>
      LinExSlaveGetData api c d (g, x) = (Inl (ErrorText ''LIN_EX_SlaveGetData failed'' [sint code]), g, x')"
    using assms(1-5) by (auto simp: LinExSlaveGetData_def uintptr_int_def sint_scast_u32 cut Let_def)
  have "min (uint code) 512 = 512" using negative_code(1) [OF assms(1)] by simp
  then show "ret = ucast code \<and> \<not> arch_386 api \<longrightarrow> LinExSlaveGetData api c d (g, x) = (Inr buf, g, x')"
    using assms(2-5) uint_ge_0 [of code]
    by (simp add: LinExSlaveGetData_def uintptr_int_def sint_ucast_u32 Let_def)
  show "darwin_LinExSlaveGetData dylib c d2 (g2, y) =
      (Inl (ErrorText ''LIN_EX_SlaveGetData failed'' [sint code]), g2, y')"
    using assms(1,6-9)
    by (simp add: darwin_LinExSlaveGetData_def darwin_ensureToomossLoaded_def lin_toomoss_lin_ex_slave_get_data_def Let_def)
qed

text \<open>A message of the driver and one of the C library with the same content.\<close>

definition represents :: "LinExMsg \<Rightarrow> LIN_EX_MSG \<Rightarrow> bool" where
  "represents m cm \<longleftrightarrow> lx_Timestamp m = c_Timestamp cm \<and> lx_MsgType m = c_MsgType cm \<and>
     lx_CheckType m = c_CheckType cm \<and> lx_DataLen m = c_DataLen cm \<and> lx_Sync m = c_Sync cm \<and>
     lx_PID m = c_PID cm \<and> lx_Data m = c_Data cm \<and> lx_Check m = c_Check cm \<and>
     lx_BreakBits m = c_BreakBits cm \<and> lx_Reserve1 m = c_Reserve1 cm"

lemma map_nth_8: "length xs = 8 \<Longrightarrow> map (\<lambda>i. xs ! i) [0..<8] = xs"
  using map_nth [of xs] by simp

lemma cToGo_represents: "length (c_Data cm) = 8 \<Longrightarrow> represents (cToGoLINMsg cm) cm"
  by (simp add: represents_def cToGoLINMsg_def map_nth_8)

lemma goToC_represents:
  assumes "represents m cm" and "length (lx_Data m) = 8"
  shows "goToCLINMsg m = cm"
  using assms by (cases cm) (simp add: represents_def goToCLINMsg_def map_nth_8)

lemma represents_unique: "represents m cm \<Longrightarrow> represents m' cm \<Longrightarrow> m = m'"
  by (cases m; cases m') (simp add: represents_def)

lemma all_represented:
  "\<forall>cm \<in> set cms. length (c_Data cm) = 8 \<Longrightarrow> list_all2 represents (map cToGoLINMsg cms) cms"
  by (simp add: list_all2_map1 list_all2_same cToGo_represents)

lemma all_unique: "list_all2 represents ms cms \<Longrightarrow> list_all2 represents ms' cms \<Longrightarrow> ms = ms'"
proof (induction arbitrary: ms' rule: list_all2_induct)
  case (Cons m ms cm cms)
  from Cons.prems obtain m' ms2 where "ms' = m' # ms2" "represents m' cm" "list_all2 represents ms2 cms"
    by (auto simp: list_all2_Cons2)
  then show ?case using Cons.IH represents_unique [OF Cons.hyps(1)] by blast
qed simp

text \<open>
  C40: On macOS messages cross the border to the C library unchanged. \<open>LinMasterSync\<close> hands the
  library exactly the messages it is given (\<open>cIn\<close>), and afterwards the caller has exactly the
  messages the library wrote (\<open>cOut\<close>), in order and field by field, with the sign of the return
  code extended; so frames that the library echoes come back as they were sent.
  \<open>LinExSlaveGetData\<close> gives as many of the messages the library delivered as its return code says, at
  most the 512 of the buffer, and an error with that code when it is negative.
\<close>

theorem darwin_messages_faithful:
  assumes "toomoss_validateChannel c d = None" and "msg \<noteq> []" and "length out = length msg"
    and "\<forall>m \<in> set msg. length (lx_Data m) = 8" and "list_all2 represents msg cIn" and "pLIN_EX_MasterSync g \<noteq> 0"
    and "c_MasterSync dylib (darwin_DevHandle g) c cIn (replicate (length msg) zero_LIN_EX_MSG) x = (ret, cOut, x')"
    and "length cOut = length msg" and "\<forall>cm \<in> set cOut. length (c_Data cm) = 8"
    and "darwin_ensureToomossLoaded dylib w = (None, g2, y)" and "pLIN_EX_SlaveGetData g2 \<noteq> 0"
    and "c_SlaveGetData dylib (darwin_DevHandle g2) c (replicate 512 zero_LIN_EX_MSG) y = (code, cBuf, y')"
    and "length cBuf = 512" and "\<forall>cm \<in> set cBuf. length (c_Data cm) = 8"
  shows "(\<exists>out'. darwin_LinMasterSync dylib msg out c d (g, x) = ((scast ret, None), out', g, x') \<and>
      list_all2 represents out' cOut \<and> (cOut = cIn \<longrightarrow> out' = msg)) \<and>
    (if sint code < 0
     then darwin_LinExSlaveGetData dylib c d w = (Inl (ErrorText ''LIN_EX_SlaveGetData failed'' [sint code]), g2, y')
     else \<exists>ms. darwin_LinExSlaveGetData dylib c d w = (Inr ms, g2, y') \<and>
       list_all2 represents ms (take (nat (sint code)) cBuf) \<and> length ms = min (nat (sint code)) 512)"
proof
  have "map goToCLINMsg msg = cIn"
    using assms(4,5) goToC_represents by (induction msg arbitrary: cIn) (auto simp: list_all2_Cons1)
  then have sync: "darwin_LinMasterSync dylib msg out c d (g, x) =
      ((scast ret, None), map (\<lambda>i. cToGoLINMsg (cOut ! i)) [0..<length cOut], g, x')"
    using assms(1-3,6-8) by (simp add: darwin_LinMasterSync_def lin_toomoss_lin_ex_master_sync_def Let_def)
  have copied: "map (\<lambda>i. cToGoLINMsg (cOut ! i)) [0..<length cOut] = map cToGoLINMsg cOut"
    by (rule nth_equalityI) simp_all
  note out = all_represented [OF assms(9)]
  moreover have "cOut = cIn \<longrightarrow> map cToGoLINMsg cOut = msg"
    using all_unique [OF out] assms(5) by blast
  ultimately show "\<exists>out'. darwin_LinMasterSync dylib msg out c d (g, x) = ((scast ret, None), out', g, x') \<and>
      list_all2 represents out' cOut \<and> (cOut = cIn \<longrightarrow> out' = msg)" unfolding sync copied by blast
  have "darwin_LinExSlaveGetData dylib c d w =
      (if sint code < 0 then (Inl (ErrorText ''LIN_EX_SlaveGetData failed'' [sint code]), g2, y')
       else (Inr (map (\<lambda>i. cToGoLINMsg (cBuf ! i)) [0..<nat (min (sint code) 512)]), g2, y'))"
    using assms(1,10-13) by (simp add: darwin_LinExSlaveGetData_def lin_toomoss_lin_ex_slave_get_data_def Let_def)
  moreover have bound: "nat (min (sint code) 512) = min (nat (sint code)) 512" by linarith
  have "map (\<lambda>i. cToGoLINMsg (cBuf ! i)) [0..<nat (min (sint code) 512)] = map cToGoLINMsg (take (nat (sint code)) cBuf)"
    unfolding bound by (rule nth_equalityI) (simp_all add: assms(13))
  moreover have "list_all2 represents (map cToGoLINMsg (take (nat (sint code)) cBuf)) (take (nat (sint code)) cBuf)"
    using assms(14) by (intro all_represented) (auto dest: in_set_takeD)
  ultimately show "if sint code < 0
     then darwin_LinExSlaveGetData dylib c d w = (Inl (ErrorText ''LIN_EX_SlaveGetData failed'' [sint code]), g2, y')
     else \<exists>ms. darwin_LinExSlaveGetData dylib c d w = (Inr ms, g2, y') \<and>
       list_all2 represents ms (take (nat (sint code)) cBuf) \<and> length ms = min (nat (sint code)) 512"
    using assms(13) by (simp add: min.commute)
qed

subsection \<open>Reads, batches and requests on Windows\<close>

definition usb_runs_dry :: "'x USB2XXX \<Rightarrow> ('x \<Rightarrow> nat) \<Rightarrow> bool" where
  "usb_runs_dry api backlog \<longleftrightarrow>
     (\<forall>h c buf x ret errno buf' x'. LIN_EX_SlaveGetData api h c buf x = (ret, errno, buf', x') \<longrightarrow>
        usb_now api x \<le> usb_now api x' \<and> backlog x' + min (nat (uintptr_int api ret)) (length buf') \<le> backlog x) \<and>
     (\<forall>t x. 0 < t \<longrightarrow> usb_now api x + t \<le> usb_now api (usb_sleep api t x))"

lemma windows_time [simp]:
  "tc_now (windows_calls api) w = usb_now api (snd w)"
  "snd (tc_sleep (windows_calls api) t w) = usb_sleep api t (snd w)"
  by (simp_all add: windows_calls_def split_beta)

lemma windows_data:
  assumes "usb_runs_dry api backlog" and "tc_data (windows_calls api) c d w = (r, w')"
  shows "usb_now api (snd w) \<le> usb_now api (snd w') \<and>
    (\<forall>ms. r = Inr ms \<longrightarrow> backlog (snd w') + length ms \<le> backlog (snd w))"
proof -
  obtain g x where w: "w = (g, x)" by (cases w)
  obtain ret errno buf y where l: "LIN_EX_SlaveGetData api (DevHandle g) c (replicate 512 zeroLinExMsg) x =
    (ret, errno, buf, y)" by (metis surj_pair)
  then have "usb_now api x \<le> usb_now api y" "backlog y + min (nat (uintptr_int api ret)) (length buf) \<le> backlog x"
    using assms(1) unfolding usb_runs_dry_def by blast+
  moreover have "nat (min (uintptr_int api ret) (int (length buf))) = min (nat (uintptr_int api ret)) (length buf)" by linarith
  ultimately show ?thesis
    using assms(2) l
    by (auto simp: w windows_calls_def LinExSlaveGetData_def Let_def split: if_splits option.splits)
qed

lemma windows_run_dry:
  "usb_runs_dry api backlog \<Longrightarrow> calls_run_dry (windows_calls api) (\<lambda>w. backlog (snd w))"
  unfolding calls_run_dry_def by (auto dest: windows_data) (simp add: usb_runs_dry_def)

text \<open>
  C35: A read of the Toomoss driver ends. On Windows, over an adapter that runs dry, \<open>ReadEvent\<close>
  returns for every channel and timeout. An event it returns is of that channel and has at most
  eight bytes; nothing is returned only after the timeout; and the events queued stay valid.
\<close>

theorem toomoss_ReadEvent_correct:
  assumes "usb_runs_dry api backlog" and "all_queued toomoss_frame (tm_eventChans d)"
  shows "\<exists>r d' g' x'. toomoss_ReadEvent (windows_calls api) timeout c (d, g, x) = Some (r, d', g', x') \<and>
    all_queued toomoss_frame (tm_eventChans d') \<and>
    (\<forall>ev. r = Inr (Some ev) \<longrightarrow> ev_Channel ev = c \<and> length (EventPayload ev) \<le> 8) \<and>
    (r = Inr None \<longrightarrow> timeout \<le> 0 \<or> usb_now api x + timeout \<le> usb_now api x')"
proof -
  from toomoss_read_returns [OF windows_run_dry [OF assms(1)] assms(2), of timeout c "(g, x)"]
  obtain r d' w' where r: "toomoss_ReadEvent (windows_calls api) timeout c (d, g, x) = Some (r, d', w')"
    "all_queued toomoss_frame (tm_eventChans d')" "\<forall>ev. r = Inr (Some ev) \<longrightarrow> toomoss_frame c ev"
    "r = Inr None \<longrightarrow> timeout \<le> 0 \<or> usb_now api x + timeout \<le> usb_now api (snd w')"
    unfolding windows_time snd_conv by blast
  obtain g' x' where "w' = (g', x')" by (cases w')
  with r show ?thesis unfolding toomoss_frame_def by auto
qed

text \<open>
  C36: A batch of received frames loses all but eleven. When nothing is queued and the adapter yields
  \<open>n\<close> frames, a read returns the first and queues the next ten in order; the rest,
  of up to 512, is dropped without an error.
\<close>

theorem toomoss_batch_keeps_eleven:
  assumes "toomoss_validateChannel c d = None" and "queues_open 10 (tm_eventChans d)"
    and "queued (tm_eventChans d) c = []" and "LinEXSlaveGetData g \<noteq> 0"
    and "LIN_EX_SlaveGetData api (DevHandle g) c (replicate 512 zeroLinExMsg) x = (ret, 0, buf, x')"
    and "length buf = 512" and "0 < uintptr_int api ret"
  shows "\<exists>d'. toomoss_ReadEvent (windows_calls api) timeout c (d, g, x) =
      Some (Inr (Some (toomossEvent (usb_now api x') (hd buf) c)), d', g, x') \<and>
    queued (tm_eventChans d') c =
      map (\<lambda>m. toomossEvent (usb_now api x') m c) (take (min 10 (nat (uintptr_int api ret) - 1)) (tl buf))"
proof -
  obtain m ms where buf: "buf = m # ms" using assms(6) by (cases buf) auto
  obtain k where k: "nat (min (uintptr_int api ret) 512) = Suc k"
    using assms(7) by (cases "nat (min (uintptr_int api ret) 512)") auto
  then have k10: "min 10 k = min 10 (nat (uintptr_int api ret) - 1)" by auto
  have "tc_data (windows_calls api) c d1 (g, x) = (Inr (m # take k ms), g, x')"
    if "toomoss_validateChannel c d1 = None" for d1 :: "'a Toomoss_scheme"
    using that assms(4-7) k by (simp add: windows_calls_def LinExSlaveGetData_def buf Let_def)
  from toomoss_read_batch [OF assms(1-3) this, of timeout] show ?thesis
    by (simp add: windows_calls_def buf k10)
qed

text \<open>
  A request that a slave answers is read back. With nothing queued, a request on a valid channel for
  which the adapter reports an answer of some bytes succeeds, and the next read returns just
  that frame without another call: of the identifier asked for, received, its data cut to eight
  bytes. Its checksum kind is always the classic one, also for identifiers that use the other.
\<close>

theorem toomoss_request_then_read:
  assumes "toomoss_validateChannel c d = None" and "queues_open 10 (tm_eventChans d)"
    and "queued (tm_eventChans d) c = []"
    and "LIN_EX_MasterSync api (DevHandle g) c [toomoss_read_message i] [zeroLinExMsg] x = (ret, errno, [m], x')"
    and "0 < ret" and "0 < lx_DataLen m"
  shows "\<exists>d' d''. toomoss_RequestSlaveResponse (windows_calls api) i c (d, g, x) = (None, d', g, x') \<and>
    toomoss_ReadEvent (windows_calls api) timeout c (d', g, x') = Some (Inr (Some
      \<lparr>ev_Channel = c, EventID = i, EventPayload = take (min (unat (lx_DataLen m)) 8) (lx_Data m),
       ev_ChecksumType = ClassicChecksum, ev_Direction = RX, ev_Timestamp = usb_now api x'\<rparr>), d'', g, x')"
proof -
  have sync: "tc_sync (windows_calls api) [toomoss_read_message i] [zeroLinExMsg] c d (g, x) = (ret, [m], g, x')"
    using assms(1,4) by (simp add: windows_calls_def LinMasterSync_def Let_def)
  from toomoss_request_answered [OF assms(2,3) sync assms(5,6)] obtain d' where
    req: "toomoss_RequestSlaveResponse (windows_calls api) i c (d, g, x) = (None, d', g, x')" and
    same: "tm_closed d' = tm_closed d" "tm_channels d' = tm_channels d" and
    q: "queued (tm_eventChans d') c = [\<lparr>ev_Channel = c, EventID = i,
      EventPayload = take (min (unat (lx_DataLen m)) 8) (lx_Data m), ev_ChecksumType = 0,
      ev_Direction = RX, ev_Timestamp = usb_now api x'\<rparr>]"
    by (auto simp: windows_calls_def)
  have "toomoss_validateChannel c d' = None"
    using assms(1) same by (simp add: toomoss_validateChannel_def split: if_splits)
  from toomoss_read_queued [OF this q, of "windows_calls api" timeout "(g, x')"] req show ?thesis by auto
qed





subsection \<open>ELINS channels\<close>

text \<open>What the library does: it knows which ELINS channels are open.\<close>

definition tracks_elins :: "'x USB2XXX \<Rightarrow> ('x \<Rightarrow> Channel set) \<Rightarrow> bool" where
  "tracks_elins api opened \<longleftrightarrow>
     (\<forall>h c b m r v x ret errno x'. elins_init api h c b m r v x = (ret, errno, x') \<longrightarrow>
        opened x' = (if errno = 0 \<and> uintptr_int api ret = 0 then insert c (opened x) else opened x)) \<and>
     (\<forall>h c t x ret errno x'. elins_set_rev_time api h c t x = (ret, errno, x') \<longrightarrow> opened x' = opened x) \<and>
     (\<forall>h c x. opened (elins_stop api h c x) = opened x - {c})"

lemma stop_elins_opened:
  "tracks_elins api opened \<Longrightarrow> ELINS_Stop g \<noteq> 0 \<Longrightarrow> opened (stop_elins api g cs x) = opened x - set cs"
proof (induction cs arbitrary: x)
  case (Cons c cs)
  then show ?case by (auto simp: stop_elins_def tracks_elins_def)
qed (simp add: stop_elins_def)

lemma init_elins_opened:
  assumes "tracks_elins api opened" and "ELINS_Stop g \<noteq> 0"
    and "opened x = base \<union> set ini" and "base \<inter> (set ini \<union> set cs) = {}"
    and "init_elins api config g cs ini x = (r, x')"
  shows "case r of Inl err \<Rightarrow> opened x' = base
    | Inr ini' \<Rightarrow> ini' = ini @ cs \<and> opened x' = base \<union> set ini'"
  using assms(3-5)
proof (induction cs arbitrary: ini x)
  case (Cons c cs)
  obtain ret errno y where i: "elins_init api (DevHandle g) c (el_Baudrate config) SlaveMode (el_ResEnable config)
      (el_Version config) x = (ret, errno, y)" by (metis surj_pair)
  obtain ret2 errno2 z where t: "elins_set_rev_time api (DevHandle g) c (el_ReceiveTimeoutUS config) y =
      (ret2, errno2, z)" by (metis surj_pair)
  have z: "opened z = opened y" using assms(1) t unfolding tracks_elins_def by blast
  have stop: "opened (stop_elins api g (rev cs') x1) = opened x1 - set cs'" for cs' x1
    using stop_elins_opened [OF assms(1,2), of "rev cs'" x1] by simp
  show ?case
  proof (cases "errno = 0 \<and> uintptr_int api ret = 0")
    case True
    then have y: "opened y = base \<union> set (ini @ [c])"
      using assms(1) i Cons.prems(1) unfolding tracks_elins_def by auto
    have d: "base \<inter> (set (ini @ [c]) \<union> set cs) = {}" using Cons.prems(2) by auto
    show ?thesis
    proof (cases "ELINS_SetRevTime g \<noteq> 0 \<and> \<not> (errno2 = 0 \<and> uintptr_int api ret2 = 0)")
      case True
      then have "opened x' = base \<and> isl r"
        using Cons.prems(3) \<open>errno = 0 \<and> uintptr_int api ret = 0\<close> i t stop [of "ini @ [c]" z] z y d
        by (auto simp: Let_def)
      then show ?thesis by (cases r) simp_all
    next
      case False
      then have run: "init_elins api config g cs (ini @ [c]) (if ELINS_SetRevTime g \<noteq> 0 then z else y) = (r, x')"
        using Cons.prems(3) True i t by (auto simp: Let_def split: if_splits)
      have "opened (if ELINS_SetRevTime g \<noteq> 0 then z else y) = base \<union> set (ini @ [c])" using y z by simp
      from Cons.IH [OF this d run] show ?thesis by (cases r) simp_all
    qed
  next
    case False
    then have "opened y = opened x" using assms(1) i unfolding tracks_elins_def by meson
    moreover have "x' = stop_elins api g (rev ini) y" "isl r"
      using False Cons.prems(3) i by (auto simp: Let_def)
    ultimately have "opened x' = base" using stop [of ini y] Cons.prems(1,2) by auto
    then show ?thesis using \<open>isl r\<close> by (cases r) simp_all
  qed
qed auto

lemma check_elins_channels_None:
  "check_elins_channels cs seen = None \<longleftrightarrow> distinct cs \<and> set cs \<inter> seen = {} \<and> (\<forall>c \<in> set cs. c \<le> CH4)"
  by (induction cs arbitrary: seen) (auto simp: not_less)

lemma normalizeELINSConfig_channels:
  "normalizeELINSConfig config = Inr config' \<Longrightarrow>
   el_Channels config' = el_Channels config \<and> el_Channels config \<noteq> [] \<and> distinct (el_Channels config) \<and>
   (\<forall>c \<in> set (el_Channels config). c \<le> CH4)"
  using check_elins_channels_None [of "el_Channels config" "{}"]
  by (auto simp: normalizeELINSConfig_def split: if_splits option.splits)

text \<open>
  C29: Configuring ELINS channels is all or nothing. If the driver's set of ELINS channels is that of the
  adapter and the library can stop channels, it still is after \<open>ConfigureELINS\<close>: a success adds
  exactly the channels asked for, all new, distinct and among the four of the device; any
  failure, in the middle too, leaves the driver as it was and no further channel open.
\<close>

theorem ConfigureELINS_all_or_nothing:
  assumes "tracks_elins api opened" and "ELINS_Stop g \<noteq> 0" and "opened x = set (tm_elinsChannels d)"
    and "ConfigureELINS api config d (g, x) = (r, d', g', x')"
  shows "opened x' = set (tm_elinsChannels d') \<and> g' = g \<and>
    (if r = None
     then tm_elinsChannels d' = tm_elinsChannels d @ el_Channels config \<and> distinct (el_Channels config) \<and>
       set (tm_elinsChannels d) \<inter> set (el_Channels config) = {} \<and> (\<forall>c \<in> set (el_Channels config). c \<le> CH4)
     else d' = d)"
proof (cases "normalizeELINSConfig config")
  case (Inr config')
  note n = normalizeELINSConfig_channels [OF Inr]
  show ?thesis
  proof (cases "tm_closed d \<or> ELINS_Init g = 0 \<or> ELINS_GetMsg g = 0 \<or>
      set (el_Channels config) \<inter> set (tm_elinsChannels d) \<noteq> {}")
    case True
    then have "r \<noteq> None \<and> d' = d \<and> g' = g \<and> x' = x"
      using assms(4) Inr n
      by (auto simp: ConfigureELINS_def find_None_iff split: if_splits option.splits)
    then show ?thesis using assms(3) by auto
  next
    case False
    then have "find (\<lambda>c. c \<in> set (tm_elinsChannels d)) (el_Channels config') = None"
      using n by (auto simp: find_None_iff)
    moreover obtain e y where e: "init_elins api config' g (el_Channels config') [] x = (e, y)" by (metis surj_pair)
    ultimately have res: "(r, d', g', x') = (case e of Inl err \<Rightarrow> (Some err, d, g, y)
        | Inr ini \<Rightarrow> (None, d\<lparr>tm_elinsChannels := tm_elinsChannels d @ ini\<rparr>, g, y))"
      using assms(4) Inr False by (simp add: ConfigureELINS_def split: sum.splits)
    have "case e of Inl err \<Rightarrow> opened y = set (tm_elinsChannels d)
        | Inr ini \<Rightarrow> ini = [] @ el_Channels config' \<and> opened y = set (tm_elinsChannels d) \<union> set ini"
      by (rule init_elins_opened [OF assms(1,2) _ _ e]) (use assms(3) False n in auto)
    then show ?thesis using res n False assms(3) by (cases e) auto
  qed
qed (use assms in \<open>auto simp: ConfigureELINS_def\<close>)

subsection \<open>ELINS filters\<close>

lemma filter_loop_result:
  "n \<le> i \<Longrightarrow> i \<le> length msgs \<Longrightarrow> filter_loop keep i n msgs =
     (let kept = take n msgs @ filter keep (drop i msgs) in (length kept, kept @ drop (length kept) msgs))"
proof (induction keep i n msgs rule: filter_loop.induct)
  case (1 keep i n msgs)
  show ?case
  proof (cases "i < length msgs")
    case True
    then have d: "drop i msgs = msgs ! i # drop (Suc i) msgs" by (simp add: Cons_nth_drop_Suc)
    show ?thesis
    proof (cases "keep (msgs ! i)")
      case keep: True
      have s: "take (Suc n) (msgs[n := msgs ! i]) = take n msgs @ [msgs ! i]"
        using 1 True by (simp add: take_Suc_conv_app_nth)
      have k: "drop (Suc i) (msgs[n := msgs ! i]) = drop (Suc i) msgs" using 1 by simp
      have t: "drop (Suc n + m) (msgs[n := msgs ! i]) = drop (Suc n + m) msgs" for m by simp
      have "filter_loop keep i n msgs = filter_loop keep (i + 1) (n + 1) (msgs[n := msgs ! i])"
        using True keep by (simp add: filter_loop.simps [of keep i n msgs] Let_def)
      then show ?thesis
        using 1(1) [OF True refl keep] 1(3,4) True keep d s k t
        by (simp add: Let_def min_absorb2)
    next
      case False
      then have "filter_loop keep i n msgs = filter_loop keep (i + 1) n msgs"
        using True by (simp add: filter_loop.simps [of keep i n msgs] Let_def)
      then show ?thesis using 1(2) [OF True refl False] 1(3,4) True False d by (simp add: Let_def)
    qed
  next
    case False
    then show ?thesis using 1(3,4) by (simp add: filter_loop.simps [of keep "length msgs" n msgs] Let_def min_absorb2)
  qed
qed

lemma elins_all_iff: "elins_all fs m \<longleftrightarrow> (\<forall>f \<in> set fs. case f of None \<Rightarrow> True | Some f \<Rightarrow> f m)"
  by (induction fs) (auto split: option.splits)

lemma FilterElinsMsgs_eq:
  "FilterElinsMsgs msgs (Some keep) = (filter keep msgs, filter keep msgs @ drop (length (filter keep msgs)) msgs)"
  by (simp add: FilterElinsMsgs_def filter_loop_result Let_def)

text \<open>
  C39: The in-place filter is the filter. \<open>FilterElinsMsgs\<close> returns exactly the frames that pass, in
  order, and leaves in the caller's array those frames followed by the old rest; a nil filter keeps
  everything; and filtering by a conjunction is filtering by its parts in turn, nil ones skipped.
\<close>

theorem FilterElinsMsgs_is_filter:
  "FilterElinsMsgs msgs (Some keep) = (filter keep msgs, filter keep msgs @ drop (length (filter keep msgs)) msgs) \<and>
   fst (FilterElinsMsgs msgs None) = msgs \<and>
   fst (FilterElinsMsgs msgs (ElinsFilterAnd (f # fs))) =
     fst (FilterElinsMsgs (fst (FilterElinsMsgs msgs f)) (ElinsFilterAnd fs))"
proof -
  have "filter (elins_all (f # fs)) msgs = filter (elins_all fs) (fst (FilterElinsMsgs msgs f))"
  proof (cases f)
    case (Some keep)
    then show ?thesis unfolding Some FilterElinsMsgs_eq fst_conv filter_filter by (intro filter_cong) auto
  qed (simp add: FilterElinsMsgs_def cong: filter_cong)
  then show ?thesis
    unfolding ElinsFilterAnd_def FilterElinsMsgs_eq fst_conv
    by (simp only: refl simp_thms) (simp add: FilterElinsMsgs_def)
qed

subsection \<open>Examples\<close>

text \<open>
  A system that loads every library, a Windows adapter with a clock and its open ELINS channels, all of whose LIN calls return \<open>ret\<close>, with
  \<open>answer\<close> to a frame sent; a macOS one with the handles held, whose LIN calls return \<open>code\<close>; and
  an open driver of channel 0.
\<close>

definition idle_windows :: "'x Windows" where
  "idle_windows =
     \<lparr>GOARCH = ''amd64'', Getenv = (\<lambda>name x. ''''), SharedDlls = (\<lambda>view x. Inr []),
      Uninstall = (\<lambda>view x. Inr []), OpenSubkey = (\<lambda>view name x. Inl (ErrorText ''not found'' [])),
      TSMasterValue = (\<lambda>view name x. Inl (ErrorText ''not found'' [])),
      Stat = (\<lambda>path x. None), SetDllDirectory = (\<lambda>path x. (None, x)), sys_LoadLibrary = (\<lambda>path x. (Inr 1, x)),
      sys_GetProcAddress = (\<lambda>h n x. (1, None, x)), sys_FreeLibrary = (\<lambda>h x. (None, x))\<rparr>"

definition usb_adapter :: "u64 \<Rightarrow> LinExMsg \<Rightarrow> (int \<times> Channel set) USB2XXX" where
  "usb_adapter ret answer =
     \<lparr>usb_system = idle_windows,
      USB_ScanDevice = (\<lambda>x. (1, 0, 7, x)), USB_OpenDevice = (\<lambda>h x. (1, 0, x)),
      USB_CloseDevice = (\<lambda>h x. (1, 0, x)), LIN_EX_Init = (\<lambda>h c b m x. (0, 0, x)),
      LIN_EX_MasterSync = (\<lambda>h c msg out x. (ret, 0, map (\<lambda>_. answer) out, x)),
      LIN_EX_SlaveGetData = (\<lambda>h c buf x. (ret, 0, buf, x)),
      LIN_EX_CtrlPowerOut = (\<lambda>h c v x. (0, 0, x)),
      elins_init = (\<lambda>h c b m r v x. (0, 0, fst x, insert c (snd x))),
      elins_set_rev_time = (\<lambda>h c t x. (0, 0, x)),
      elins_stop = (\<lambda>h c x. (fst x, snd x - {c})),
      elins_get_msg = (\<lambda>h c buf x. (0, 0, buf, x)),
      usb_now = fst, usb_sleep = (\<lambda>t x. (fst x + t, snd x))\<rparr>"

definition mac_adapter :: "u32 \<Rightarrow> u64 list USB2XXX_dylib" where
  "mac_adapter code =
     \<lparr>dl_open = (\<lambda>p hs. (5, 5 # hs)), dl_close = remove1, dl_sym = (\<lambda>h n hs. (1, False, hs)),
      c_ScanDevice = (\<lambda>hs. (1, 7, hs)), c_OpenDevice = (\<lambda>h hs. (True, hs)),
      c_CloseDevice = (\<lambda>h hs. (True, hs)), c_Init = (\<lambda>h c b m hs. (0, hs)),
      c_MasterSync = (\<lambda>h c msg out hs. (code, out, hs)),
      c_SlaveGetData = (\<lambda>h c buf hs. (code, buf, hs)), c_now = (\<lambda>hs. 0), c_sleep = (\<lambda>t hs. hs)\<rparr>"

definition ready_globals :: USBGlobals where
  "ready_globals = \<lparr>UsbDeviceDLL = 1, UsbScanDevice = 1, UsbOpenDevice = 1, UsbCloseDevice = 1, LinExInit = 1,
     LinExMasterSync = 1, LinEXSlaveGetData = 1, ELINS_Init = 1, ELINS_GetMsg = 1, ELINS_SetRevTime = 1,
     ELINS_Stop = 1, LinEXCtrlPowerOut = 1, DevHandle = 7, toomossInstanceActive = True\<rparr>"

definition ready_darwin :: DarwinGlobals where
  "ready_darwin = \<lparr>g_libusb = 5, g_usb2xxx = 5, pUSB_ScanDevice = 1, pUSB_OpenDevice = 1, pUSB_CloseDevice = 1,
     pLIN_EX_Init = 1, pLIN_EX_MasterSync = 1, pLIN_EX_SlaveGetData = 1, darwin_DevHandle = 7,
     toomossLoaded = True, darwin_instanceActive = True\<rparr>"

definition open_toomoss :: ToomossWin where
  "open_toomoss = \<lparr>tm_closed = False, tm_closeOnce = False, tm_channels = [0], tm_eventChans = (\<lambda>_. None),
     tm_panicked = False, tm_elinsChannels = [], tm_closeErr = None\<rparr>"

definition open_toomoss_mac :: Toomoss where
  "open_toomoss_mac = \<lparr>tm_closed = False, tm_closeOnce = False, tm_channels = [0], tm_eventChans = (\<lambda>_. None),
     tm_panicked = False\<rparr>"

lemma usb_adapter_int [simp]: "uintptr_int (usb_adapter ret m) r = sint r"
  by (simp add: uintptr_int_def arch_386_def usb_adapter_def idle_windows_def)

lemmas toomoss_examples = uintptr_int_def arch_386_def idle_windows_def usb_adapter_def mac_adapter_def
  ready_globals_def ready_darwin_def open_toomoss_def open_toomoss_mac_def toomoss_validateChannel_def

theorem toomoss_error_codes_succeed_witness:
  "fst (toomoss_WriteMessage (windows_calls (usb_adapter (ucast (- 3 :: u32)) zeroLinExMsg)) (Some (rx_event 0x10 [1])) 0
     (open_toomoss, ready_globals, 0, {})) = None \<and>
   fst (darwin_WriteMessage (mac_adapter (- 3)) (Some (rx_event 0x10 [1])) 0
     (open_toomoss_mac, ready_darwin, [5, 5])) = None"
  using toomoss_error_codes_succeed [of "- 3" 0 open_toomoss "rx_event 0x10 [1]" "ucast (- 3 :: u32)"
      "usb_adapter (ucast (- 3 :: u32)) zeroLinExMsg" ready_globals "(0, {})" 0 zeroLinExMsg "(0, {})"
      open_toomoss_mac ready_darwin "mac_adapter (- 3)" "[5, 5]" zero_LIN_EX_MSG "[5, 5]"]
  by (simp add: toomoss_examples rx_event_def zeroLinExMsg_def zero_LIN_EX_MSG_def)

theorem toomoss_read_error_codes_witness:
  "LinExSlaveGetData (usb_adapter (ucast (- 3 :: u32)) zeroLinExMsg) 0 open_toomoss (ready_globals, 0, {}) =
     (Inr (replicate 512 zeroLinExMsg), ready_globals, 0, {}) \<and>
   darwin_LinExSlaveGetData (mac_adapter (- 3)) 0 open_toomoss_mac (ready_darwin, [5, 5]) =
     (Inl (ErrorText ''LIN_EX_SlaveGetData failed'' [-3]), ready_darwin, [5, 5])"
  using toomoss_read_error_codes [of "- 3" 0 open_toomoss ready_globals
      "usb_adapter (ucast (- 3 :: u32)) zeroLinExMsg" "(0, {})" "ucast (- 3 :: u32)" "replicate 512 zeroLinExMsg"
      "(0, {})" open_toomoss_mac ready_darwin "mac_adapter (- 3)" "[5, 5]" "replicate 512 zero_LIN_EX_MSG" "[5, 5]"]
  by (simp add: toomoss_examples)

lemma usb_adapter_dry: "usb_runs_dry (usb_adapter 0 m) (\<lambda>x. 0)"
  unfolding usb_runs_dry_def usb_adapter_int by (simp add: usb_adapter_def)

theorem toomoss_ReadEvent_correct_witness:
  "\<exists>r d' g' x'. toomoss_ReadEvent (windows_calls (usb_adapter 0 zeroLinExMsg)) Millisecond 0
       (open_toomoss, ready_globals, 0, {}) = Some (r, d', g', x') \<and> (r = Inr None \<longrightarrow> Millisecond \<le> fst x')"
proof -
  have "all_queued toomoss_frame (tm_eventChans open_toomoss)" by (simp add: open_toomoss_def)
  from toomoss_ReadEvent_correct [OF usb_adapter_dry this, of zeroLinExMsg Millisecond 0 ready_globals "(0, {})"]
  show ?thesis by (auto simp: usb_adapter_def)
qed

theorem toomoss_batch_keeps_eleven_witness:
  "\<exists>d'. toomoss_ReadEvent (windows_calls (usb_adapter 20 zeroLinExMsg)) 0 0 (open_toomoss, ready_globals, 0, {}) =
      Some (Inr (Some (toomossEvent 0 zeroLinExMsg 0)), d', ready_globals, 0, {}) \<and>
    length (queued (tm_eventChans d') 0) = 10"
  using toomoss_batch_keeps_eleven [of 0 open_toomoss ready_globals "usb_adapter 20 zeroLinExMsg" "(0, {})" 20
      "replicate 512 zeroLinExMsg" "(0, {})" 0]
  by (auto simp: toomoss_examples queued_def)

theorem toomoss_request_then_read_witness:
  "\<exists>d' d'' ev. toomoss_RequestSlaveResponse (windows_calls (usb_adapter 1 (zeroLinExMsg\<lparr>lx_DataLen := 2\<rparr>))) 0x3D 0
       (open_toomoss, ready_globals, 0, {}) = (None, d', ready_globals, 0, {}) \<and>
     toomoss_ReadEvent (windows_calls (usb_adapter 1 (zeroLinExMsg\<lparr>lx_DataLen := 2\<rparr>))) 0 0 (d', ready_globals, 0, {}) =
       Some (Inr (Some ev), d'', ready_globals, 0, {}) \<and> EventID ev = 0x3D \<and> EventPayload ev = [0, 0]"
proof -
  let ?m = "zeroLinExMsg\<lparr>lx_DataLen := 2\<rparr>"
  have "toomoss_validateChannel 0 open_toomoss = None" "queues_open 10 (tm_eventChans open_toomoss)"
    "queued (tm_eventChans open_toomoss) 0 = []" "0 < lx_DataLen ?m"
    "LIN_EX_MasterSync (usb_adapter 1 ?m) (DevHandle ready_globals) 0 [toomoss_read_message 0x3D] [zeroLinExMsg] (0, {}) =
      (1, 0, [?m], 0, {})"
    by (simp_all add: open_toomoss_def toomoss_validateChannel_def queued_def usb_adapter_def)
  from toomoss_request_then_read [OF this(1-3) this(5) _ this(4), of 0] obtain d' d'' where
    q: "toomoss_RequestSlaveResponse (windows_calls (usb_adapter 1 ?m)) 0x3D 0
      (open_toomoss, ready_globals, 0, {}) = (None, d', ready_globals, 0, {})"
    "toomoss_ReadEvent (windows_calls (usb_adapter 1 ?m)) 0 0 (d', ready_globals, 0, {}) = Some (Inr (Some
      \<lparr>ev_Channel = 0, EventID = 0x3D, EventPayload = take (min (unat (lx_DataLen ?m)) 8) (lx_Data ?m),
       ev_ChecksumType = ClassicChecksum, ev_Direction = RX, ev_Timestamp = usb_now (usb_adapter 1 ?m) (0, {})\<rparr>),
      d'', ready_globals, 0, {})" by auto
  have "take (min (unat (lx_DataLen ?m)) 8) (lx_Data ?m) = replicate 2 0" by (simp add: zeroLinExMsg_def)
  then show ?thesis by (intro exI conjI) (rule q(1), rule q(2), simp, simp add: numeral_2_eq_2)
qed


lemma usb_adapter_tracks: "tracks_elins (usb_adapter ret m) snd"
  unfolding tracks_elins_def usb_adapter_int by (auto simp: usb_adapter_def)

theorem ConfigureELINS_all_or_nothing_witness:
  "\<exists>d' x'. ConfigureELINS (usb_adapter 0 zeroLinExMsg)
       \<lparr>el_Channels = [1, 2], el_Baudrate = 19200, el_ResEnable = 1, el_Version = 2, el_ReceiveTimeoutUS = 0\<rparr>
       open_toomoss (ready_globals, 0, {}) = (None, d', ready_globals, x') \<and>
     snd x' = {1, 2} \<and> set (tm_elinsChannels d') = {1, 2}"
proof -
  let ?c = "\<lparr>el_Channels = [1, 2], el_Baudrate = 19200, el_ResEnable = 1, el_Version = 2, el_ReceiveTimeoutUS = 0\<rparr> :: ELINSConfig"
  obtain r d' g' x' where r: "ConfigureELINS (usb_adapter 0 zeroLinExMsg) ?c open_toomoss (ready_globals, 0, {}) = (r, d', g', x')"
    by (metis surj_pair)
  have "r = None"
    using r by (auto simp: toomoss_examples ConfigureELINS_def normalizeELINSConfig_def Let_def)
  then show ?thesis
    using ConfigureELINS_all_or_nothing [OF usb_adapter_tracks _ _ r] r
    by (auto simp: ready_globals_def open_toomoss_def)
qed

theorem darwin_messages_faithful_witness:
  "\<exists>out'. darwin_LinMasterSync (mac_adapter 2) [zeroLinExMsg\<lparr>lx_PID := 0x3C\<rparr>] [zeroLinExMsg] 0 open_toomoss_mac
      (ready_darwin, [5, 5]) = ((2, None), out', ready_darwin, [5, 5]) \<and> map lx_PID out' = [0] \<and>
   (\<exists>ms. darwin_LinExSlaveGetData (mac_adapter 2) 0 open_toomoss_mac (ready_darwin, [5, 5]) =
      (Inr ms, ready_darwin, [5, 5]) \<and> length ms = 2)"
proof -
  let ?m = "zeroLinExMsg\<lparr>lx_PID := 0x3C\<rparr>" and ?cm = "zero_LIN_EX_MSG\<lparr>c_PID := 0x3C\<rparr>"
  have "represents ?m ?cm" "length (lx_Data ?m) = 8" "length (c_Data zero_LIN_EX_MSG) = 8"
    by (simp_all add: represents_def zeroLinExMsg_def zero_LIN_EX_MSG_def)
  moreover have "darwin_ensureToomossLoaded (mac_adapter 2) (ready_darwin, [5, 5]) = (None, ready_darwin, [5, 5])"
    by (simp add: darwin_ensureToomossLoaded_def ready_darwin_def)
  ultimately show ?thesis
    using darwin_messages_faithful [of 0 open_toomoss_mac "[?m]" "[zeroLinExMsg]" "[?cm]" ready_darwin "mac_adapter 2"
        "[5, 5]" 2 "[zero_LIN_EX_MSG]" "[5, 5]" "(ready_darwin, [5, 5])" ready_darwin "[5, 5]" 2
        "replicate 512 zero_LIN_EX_MSG" "[5, 5]"]
    by (auto simp: toomoss_examples represents_def zero_LIN_EX_MSG_def list_all2_Cons2)
qed

theorem toomoss_load_all_or_nothing_witness:
  "\<exists>g' x'. ensureToomossLoaded (usb_adapter 0 zeroLinExMsg) (ready_globals\<lparr>UsbDeviceDLL := 0\<rparr>, 0, {}) = (None, g', x') \<and>
     toomossReady g' \<and> ensureToomossLoaded (usb_adapter 0 zeroLinExMsg) (g', x') = (None, g', x')"
proof -
  let ?api = "usb_adapter 0 zeroLinExMsg"
  obtain r g' x' where e: "ensureToomossLoaded ?api (ready_globals\<lparr>UsbDeviceDLL := 0\<rparr>, 0, {}) = (r, g', x')"
    by (metis surj_pair)
  moreover have "r = None"
    using e by (simp add: ensureToomossLoaded_def toomossReady_def resetToomossState_def loadDLLs_def
        loadProcAddresses_def required_procs_def optional_procs_def load_required_def loadOptionalProc_def
        getProc_def usb_adapter_def idle_windows_def arch_386_def LoadLibrary_def GetProcAddress_def
        ready_globals_def Let_def)
  ultimately show ?thesis
    using toomoss_load_all_or_nothing [where api = ?api and g = "ready_globals\<lparr>UsbDeviceDLL := 0\<rparr>" and x = "(0, {})"]
    by simp
qed

subsection \<open>Reads on macOS\<close>

text \<open>
  A library on macOS whose polls do not turn back the clock and yield finitely many frames between two
  sleeps that last; loading it, which a read may do, brings no frames.
\<close>

definition dylib_runs_dry :: "'x USB2XXX_dylib \<Rightarrow> ('x \<Rightarrow> nat) \<Rightarrow> bool" where
  "dylib_runs_dry api backlog \<longleftrightarrow>
     (\<forall>h c buf x ret buf' x'. c_SlaveGetData api h c buf x = (ret, buf', x') \<longrightarrow>
        c_now api x \<le> c_now api x' \<and> backlog x' + min (nat (sint ret)) (length buf') \<le> backlog x) \<and>
     (\<forall>p x. c_now api x \<le> c_now api (snd (dl_open api p x)) \<and> backlog (snd (dl_open api p x)) \<le> backlog x) \<and>
     (\<forall>h x. c_now api x \<le> c_now api (dl_close api h x) \<and> backlog (dl_close api h x) \<le> backlog x) \<and>
     (\<forall>h n x. c_now api x \<le> c_now api (snd (snd (dl_sym api h n x))) \<and>
        backlog (snd (snd (dl_sym api h n x))) \<le> backlog x) \<and>
     (\<forall>t x. 0 < t \<longrightarrow> c_now api x + t \<le> c_now api (c_sleep api t x))"

text \<open>Later, and with no more frames to come.\<close>

definition runs_on :: "'x USB2XXX_dylib \<Rightarrow> ('x \<Rightarrow> nat) \<Rightarrow> 'x \<Rightarrow> 'x \<Rightarrow> bool" where
  "runs_on api backlog x x' \<longleftrightarrow> c_now api x \<le> c_now api x' \<and> backlog x' \<le> backlog x"

lemma runs_on_refl [simp]: "runs_on api backlog x x"
  by (simp add: runs_on_def)

lemma runs_on_trans: "runs_on api backlog x y \<Longrightarrow> runs_on api backlog y z \<Longrightarrow> runs_on api backlog x z"
  by (auto simp: runs_on_def)

lemma dylib_runs_dryD:
  assumes "dylib_runs_dry api backlog"
  shows "dl_open api p x = (h, x1) \<Longrightarrow> runs_on api backlog x x1"
    and "runs_on api backlog x (dl_close api h' x)"
    and "dl_sym api h n x = (a, e, x2) \<Longrightarrow> runs_on api backlog x x2"
    and "c_SlaveGetData api d c buf x = (ret, buf', x3) \<Longrightarrow>
      c_now api x \<le> c_now api x3 \<and> backlog x3 + min (nat (sint ret)) (length buf') \<le> backlog x"
  using assms unfolding dylib_runs_dry_def runs_on_def by (metis snd_conv)+

lemma unload_runs_on:
  assumes "dylib_runs_dry api backlog"
  shows "runs_on api backlog x (snd (lin_toomoss_unload api (g, x)))"
  using dylib_runs_dryD(2) [OF assms]
  by (auto simp: lin_toomoss_unload_def Let_def intro: runs_on_trans)

lemma load_symbols_runs_on:
  assumes "dylib_runs_dry api backlog"
  shows "runs_on api backlog x (snd (snd (load_symbols api symbols (g, x))))"
proof (induction symbols arbitrary: g x)
  case (Cons s symbols)
  obtain name store where s: "s = (name, store)" by (cases s)
  obtain a e y where d: "dl_sym api (g_usb2xxx g) name x = (a, e, y)" by (metis surj_pair)
  have "runs_on api backlog x y" by (rule dylib_runs_dryD(3) [OF assms d])
  then show ?case
    using unload_runs_on [OF assms, of y "store a g"] Cons [of y "store a g"]
    by (auto simp: s d Let_def intro: runs_on_trans)
qed simp

lemma ensure_runs_on:
  assumes "dylib_runs_dry api backlog" and "darwin_ensureToomossLoaded api (g, x) = (r, g', x')"
  shows "runs_on api backlog x x'"
proof -
  obtain h1 y where h1: "dl_open api toomossLibusbPath x = (h1, y)" by (metis surj_pair)
  obtain h2 z where h2: "dl_open api toomossUSB2XXX y = (h2, z)" by (metis surj_pair)
  note on = dylib_runs_dryD(1) [OF assms(1) h1] dylib_runs_dryD(1) [OF assms(1) h2]
  have "runs_on api backlog x (snd (snd (lin_toomoss_load api toomossLibusbPath toomossUSB2XXX (g, x))))"
    using on dylib_runs_dryD(2) [OF assms(1), of z h1] load_symbols_runs_on [OF assms(1), of z toomoss_symbols]
    by (auto simp: lin_toomoss_load_def h1 h2 Let_def intro: runs_on_trans)
  then show ?thesis
    using assms(2) by (auto simp: darwin_ensureToomossLoaded_def split: if_splits prod.splits option.splits)
qed

lemma darwin_data:
  assumes "dylib_runs_dry api backlog" and "darwin_LinExSlaveGetData api c d (g, x) = (r, g', x')"
  shows "c_now api x \<le> c_now api x' \<and> (\<forall>ms. r = Inr ms \<longrightarrow> backlog x' + length ms \<le> backlog x)"
proof (cases "toomoss_validateChannel c d")
  case None
  obtain e g1 y where e: "darwin_ensureToomossLoaded api (g, x) = (e, g1, y)" by (metis surj_pair)
  have on: "c_now api x \<le> c_now api y" "backlog y \<le> backlog x"
    using ensure_runs_on [OF assms(1) e] by (simp_all add: runs_on_def)
  obtain ret buf z where l: "c_SlaveGetData api (darwin_DevHandle g1) c
      (replicate darwin_MaxFrames zero_LIN_EX_MSG) y = (ret, buf, z)" by (metis surj_pair)
  have "c_now api y \<le> c_now api z" "backlog z + min (nat (sint ret)) (length buf) \<le> backlog y"
    using dylib_runs_dryD(4) [OF assms(1) l] by simp_all
  moreover have "nat (min (sint ret) (int (length buf))) = min (nat (sint ret)) (length buf)" by linarith
  ultimately show ?thesis
    using assms(2) on e l None
    by (cases e) (auto simp: darwin_LinExSlaveGetData_def lin_toomoss_lin_ex_slave_get_data_def Let_def
        split: if_splits)
qed (use assms in \<open>auto simp: darwin_LinExSlaveGetData_def\<close>)

lemma darwin_run_dry:
  "dylib_runs_dry api backlog \<Longrightarrow> calls_run_dry (darwin_calls api) (\<lambda>w. backlog (snd w))"
  unfolding calls_run_dry_def
  by (auto simp: darwin_calls_def dest: darwin_data) (simp add: dylib_runs_dry_def)

text \<open>
  A read of the Toomoss driver on macOS ends. Over a library that runs dry, \<open>ReadEvent\<close> returns for
  every channel, timeout and state of the library, loaded or not. An event it returns is of that
  channel and has at most eight bytes; nothing is returned only after the timeout; and the events
  queued stay valid.
\<close>

theorem darwin_ReadEvent_correct:
  assumes "dylib_runs_dry api backlog" and "all_queued toomoss_frame (tm_eventChans d)"
  shows "\<exists>r d' g' x'. darwin_ReadEvent api timeout c (d, g, x) = Some (r, d', g', x') \<and>
    all_queued toomoss_frame (tm_eventChans d') \<and>
    (\<forall>ev. r = Inr (Some ev) \<longrightarrow> ev_Channel ev = c \<and> length (EventPayload ev) \<le> 8) \<and>
    (r = Inr None \<longrightarrow> timeout \<le> 0 \<or> c_now api x + timeout \<le> c_now api x')"
proof -
  have now: "tc_now (darwin_calls api) w = c_now api (snd w)" for w by (cases w) (simp add: darwin_calls_def)
  from toomoss_read_returns [OF darwin_run_dry [OF assms(1)] assms(2), of timeout c "(g, x)"]
  obtain r d' w' where r: "darwin_ReadEvent api timeout c (d, g, x) = Some (r, d', w')"
    "all_queued toomoss_frame (tm_eventChans d')" "\<forall>ev. r = Inr (Some ev) \<longrightarrow> toomoss_frame c ev"
    "r = Inr None \<longrightarrow> timeout \<le> 0 \<or> c_now api x + timeout \<le> c_now api (snd w')"
    unfolding now snd_conv darwin_ReadEvent_def by blast
  obtain g' x' where "w' = (g', x')" by (cases w')
  with r show ?thesis unfolding toomoss_frame_def by auto
qed

text \<open>A library whose state is the clock, without frames.\<close>

definition mac_clock :: "int USB2XXX_dylib" where
  "mac_clock =
     \<lparr>dl_open = (\<lambda>p x. (5, x)), dl_close = (\<lambda>h x. x), dl_sym = (\<lambda>h n x. (1, False, x)),
      c_ScanDevice = (\<lambda>x. (1, 7, x)), c_OpenDevice = (\<lambda>h x. (True, x)),
      c_CloseDevice = (\<lambda>h x. (True, x)), c_Init = (\<lambda>h c b m x. (0, x)),
      c_MasterSync = (\<lambda>h c msg out x. (0, out, x)), c_SlaveGetData = (\<lambda>h c buf x. (0, buf, x)),
      c_now = (\<lambda>x. x), c_sleep = (\<lambda>t x. x + t)\<rparr>"

theorem darwin_ReadEvent_correct_witness:
  "\<exists>r d' g' x'. darwin_ReadEvent mac_clock Millisecond 0 (open_toomoss_mac, ready_darwin, 3) = Some (r, d', g', x') \<and>
     (r = Inr None \<longrightarrow> 3 + Millisecond \<le> x')"
proof -
  have "dylib_runs_dry mac_clock (\<lambda>x. 0)" by (simp add: dylib_runs_dry_def mac_clock_def)
  moreover have "all_queued toomoss_frame (tm_eventChans open_toomoss_mac)" by (simp add: open_toomoss_mac_def)
  ultimately show ?thesis
    using darwin_ReadEvent_correct [of mac_clock "\<lambda>x. 0" open_toomoss_mac Millisecond 0 ready_darwin 3]
    by (auto simp: mac_clock_def)
qed

end
