(* ===== verification/TSMaster.thy ===== *)
theory TSMaster
  imports Driver_Common Transport_Cycle
begin

section \<open>The TSMaster driver (\<^verbatim>\<open>driver/tsmaster.go\<close>)\<close>

text \<open>
  The driver of TOSUN adapters, over the vendor's library \<^verbatim>\<open>libTSMaster\<close> as a parameter
  (\<open>TSLib\<close>): each function yields its code and what the real one writes through its pointers, and
  the new state \<open>'x\<close> of the adapter with the clock. Frames reach the driver in two ways, by a
  callback and by a goroutine that polls a receive queue; both dispatch them to the queues that
  \<open>ReadEvent\<close> reads. One turn of that other activity is \<open>ts_turn\<close>. A send on a closed queue
  panics, which the field \<open>ts_panicked\<close> records. The library is loaded in \<open>Library_Search\<close>; error
  texts and logging are not modelled; a driver is never nil, and the library's functions exist while it is loaded, except
  that \<open>tsapp_transmit_lin_async\<close> is looked up.
\<close>

abbreviation (input) linPropertyDirTxMask :: byte where "linPropertyDirTxMask \<equiv> 1"

definition defaultTSMasterChannels :: "u32 list" where
  "defaultTSMasterChannels = [0]"

subsection \<open>Device types\<close>

text \<open>The constants of \<^verbatim>\<open>TSMasterMap\<close>: a device type is the position of its name.\<close>

definition ts_device_names :: "string list" where
  "ts_device_names =
    [''TS_UNKNOWN_DEVICE'', ''TSCAN_PRO'', ''TSCAN_Lite1'', ''TC1001'', ''TL1001'', ''TC1011'',
     ''TM5011'', ''TC1002'', ''TC1014'', ''TSCANFD2517'', ''TC1026'', ''TC1016'', ''TC1012'',
     ''TC1013'', ''TLog1002'', ''TC1034'', ''TC1018'', ''GW2116'', ''TC2115'', ''MP1013'',
     ''TC1113'', ''TC1114'', ''TP1013'', ''TC1017'', ''TP1018'', ''TF10XX'',
     ''TL1004_FD_4_LIN_2'', ''TE1051'', ''TP1051'', ''TP1034'', ''TTS9015'', ''TP1026'',
     ''TTS1026'', ''TTS1034'', ''TTS1018'', ''TL1011'', ''TTS1015_LiAuto'', ''TTS1013_LiAuto'',
     ''TTS1016Pro'', ''TC1054Pro'', ''TC1054'', ''TLog1038'', ''TO1013'', ''TC1034Pro'',
     ''TC1018Pro'', ''TC1038Pro'', ''TC1014Pro'', ''TC1034ProPlus'', ''TA1038'', ''TC1055Pro'',
     ''TC1056Pro'', ''TC1057Pro'', ''TC4016'', ''GW2208'', ''TLog1039'', ''GW1040'',
     ''TC3014'', ''TP1014'', ''TA825_4'', ''TC1013HV'', ''TC1052'', ''TTS1017Pro'',
     ''TLog1057'', ''TC1017Pro'', ''GW2202'', ''GW2204'', ''GW2212'', ''TA821'', ''TX1000'',
     ''TC1055ProPlus'', ''TC1043'', ''TS_DEV_END'']"

definition TSMasterMap :: "(string \<times> int) list" where
  "TSMasterMap = zip ts_device_names (map int [0..<length ts_device_names])"

text \<open>The entries of the map, in the order in which the loop visits them.\<close>

fun deviceNameFromType :: "(string \<times> int) list \<Rightarrow> int \<Rightarrow> error + string" where
  "deviceNameFromType [] deviceType = Inl (ErrorText ''unsupported TSMaster device type'' [deviceType])"
| "deviceNameFromType ((name, i) # entries) deviceType =
     (if i = deviceType \<and> name \<noteq> ''TS_UNKNOWN_DEVICE'' \<and> name \<noteq> ''TS_DEV_END'' then Inr name
      else deviceNameFromType entries deviceType)"

subsection \<open>State\<close>

record tsmasterLIN =
  FIdxChn :: byte
  FErrStatus :: byte
  FProperties :: byte
  FDLC :: byte
  FIdentifier :: byte
  FChecksum :: byte
  FStatus :: byte
  FTimeUs :: "byte list"
  FData :: "byte list"

record tsmasterLastFrame =
  lf_valid :: bool
  lf_ch :: Channel
  lf_id :: byte
  lf_dir :: Direction
  lf_n :: nat
  lf_data :: "byte list"
  lf_at :: int

record 'x TSLib =
  ts_load :: "'x \<Rightarrow> error option \<times> 'x"
  ts_initialize :: "string \<Rightarrow> 'x \<Rightarrow> u64 \<times> 'x"
  ts_enumerate :: "'x \<Rightarrow> u64 \<times> int \<times> 'x"
  ts_show_window :: "string \<Rightarrow> 'x \<Rightarrow> u64 \<times> 'x"
  ts_set_can_count :: "nat \<Rightarrow> 'x \<Rightarrow> u64 \<times> 'x"
  ts_set_lin_count :: "nat \<Rightarrow> 'x \<Rightarrow> u64 \<times> 'x"
  ts_set_mapping :: "string \<Rightarrow> u32 \<Rightarrow> string \<Rightarrow> int \<Rightarrow> 'x \<Rightarrow> u64 \<times> 'x"
  ts_configure_baudrate :: "u32 \<Rightarrow> 'x \<Rightarrow> u64 \<times> 'x"
  ts_connect :: "'x \<Rightarrow> u64 \<times> 'x"
  ts_enable_fifo :: "'x \<Rightarrow> 'x"
  ts_register_event :: "'x \<Rightarrow> u64 \<times> 'x"
  ts_set_node_master :: "u32 \<Rightarrow> 'x \<Rightarrow> u64 \<times> 'x"
  ts_has_transmit :: "'x \<Rightarrow> bool"
  ts_transmit :: "tsmasterLIN \<Rightarrow> 'x \<Rightarrow> u64 \<times> 'x"
  ts_receive :: "u32 \<Rightarrow> nat \<Rightarrow> 'x \<Rightarrow> u64 \<times> int \<times> tsmasterLIN list \<times> 'x"
  ts_callbacks :: "'x \<Rightarrow> tsmasterLIN list \<times> 'x"
  ts_unregister_event :: "'x \<Rightarrow> 'x"
  ts_disable_fifo :: "'x \<Rightarrow> 'x"
  ts_disconnect :: "'x \<Rightarrow> 'x"
  ts_wakeup :: "u32 \<Rightarrow> 'x \<Rightarrow> u64 \<times> 'x"
  ts_now :: "'x \<Rightarrow> int"
  ts_sleep :: "int \<Rightarrow> 'x \<Rightarrow> 'x"

text \<open>
  \<open>ts_loader\<close>, \<open>ts_transmitProc\<close> and \<open>ts_linCb\<close> say whether the fields of the same name are set;
  \<open>ts_cancelled\<close> is the context, \<open>ts_running\<close> the receive goroutine.
\<close>

record TSMaster =
  ts_loader :: bool
  ts_channels :: "u32 list"
  ts_eventChans :: queues
  ts_errCh :: "error chan"
  ts_transmitProc :: bool
  ts_linCb :: bool
  ts_cancelled :: bool
  ts_running :: bool
  ts_connected :: bool
  ts_deviceType :: int
  ts_closeOnce :: bool
  ts_lastFrame :: tsmasterLastFrame
  ts_masterReadLocks :: channelMutexes
  ts_panicked :: bool

definition zeroLastFrame :: tsmasterLastFrame where
  "zeroLastFrame = \<lparr>lf_valid = False, lf_ch = 0, lf_id = 0, lf_dir = RX, lf_n = 0,
     lf_data = replicate 8 0, lf_at = 0\<rparr>"

subsection \<open>Receiving\<close>

text \<open>A send on an event queue, dropped when the queue is full, and the next event of a queue.\<close>

definition ts_eventChannel :: "Channel \<Rightarrow> TSMaster \<Rightarrow> LinEvent chan \<times> TSMaster" where
  "ts_eventChannel channel t =
     (let (q, qs) = queue_at 128 channel (ts_eventChans t) in (q, t\<lparr>ts_eventChans := qs\<rparr>))"

definition ts_enqueue :: "Channel \<Rightarrow> LinEvent \<Rightarrow> TSMaster \<Rightarrow> TSMaster" where
  "ts_enqueue channel event t =
     (let (q, t) = ts_eventChannel channel t;
          (q, result) = try_send event q
      in t\<lparr>ts_eventChans := (ts_eventChans t)(channel \<mapsto> q),
           ts_panicked := ts_panicked t \<or> result = PanicClosed\<rparr>)"

definition checksumTypeFromID :: "byte \<Rightarrow> ChecksumType" where
  "checksumTypeFromID i =
     (if i = MasterDiagnosticFrameID \<or> i = SlaveDiagnosticFrameID then ClassicChecksum
      else EnhancedChecksum)"

definition isDuplicate ::
    "int \<Rightarrow> Channel \<Rightarrow> byte \<Rightarrow> Direction \<Rightarrow> byte list \<Rightarrow> TSMaster \<Rightarrow> bool \<times> TSMaster" where
  "isDuplicate now ch i dir payload t =
     (let window = 8 * Millisecond;
          last = ts_lastFrame t;
          same = (lf_valid last \<and> lf_ch last = ch \<and> lf_id last = i \<and> lf_dir last = dir \<and>
            lf_n last = length payload \<and> now - lf_at last < window);
          same = (same \<and> list_all (\<lambda>k. lf_data last ! k = payload ! k) [0..<length payload]);
          data = copy_at 0 payload (replicate 8 0)
      in (same, t\<lparr>ts_lastFrame := \<lparr>lf_valid = True, lf_ch = ch, lf_id = i, lf_dir = dir,
            lf_n = length payload, lf_data = data, lf_at = now\<rparr>\<rparr>))"

definition dispatchLIN :: "int \<Rightarrow> tsmasterLIN \<Rightarrow> Channel \<Rightarrow> TSMaster \<Rightarrow> TSMaster" where
  "dispatchLIN now msg channel t =
     (let dlc = min (unat (FDLC msg)) 8;
          payload = copy_at 0 (take dlc (FData msg)) (replicate dlc 0);
          i = FIdentifier msg AND 0x3F
      in if i \<ge> 0x3E then t
         else
           let markedTx = (FProperties msg AND linPropertyDirTxMask \<noteq> 0);
               slaveResponse = (i = SlaveDiagnosticFrameID \<and> dlc > 0 \<and> FErrStatus msg = 0);
               direction = (if markedTx \<and> \<not> slaveResponse then TX else RX)
           in if direction = TX then t
              else if dlc = 0 then t
              else
                let (duplicate, t) = isDuplicate now channel i direction payload t
                in if duplicate then t
                   else ts_enqueue channel
                     \<lparr>ev_Channel = channel, EventID = i, EventPayload = payload,
                      ev_ChecksumType = checksumTypeFromID i, ev_Direction = direction,
                      ev_Timestamp = now\<rparr> t)"

text \<open>The callback of the library, for a non-null message.\<close>

definition onLinEvent :: "int \<Rightarrow> tsmasterLIN \<Rightarrow> TSMaster \<Rightarrow> TSMaster" where
  "onLinEvent now msg t = dispatchLIN now msg (FIdxChn msg) t"

definition ts_pushError :: "error \<Rightarrow> TSMaster \<Rightarrow> TSMaster" where
  "ts_pushError err t =
     (let (q, result) = try_send err (ts_errCh t)
      in t\<lparr>ts_errCh := q, ts_panicked := ts_panicked t \<or> result = PanicClosed\<rparr>)"

text \<open>
  One round of the receive loop: the receive queue of every channel into a buffer of 64 messages,
  and a sleep when no channel had any.
\<close>

fun receive_channels ::
    "'x TSLib \<Rightarrow> u32 list \<Rightarrow> bool \<Rightarrow> TSMaster \<times> 'x \<Rightarrow> bool \<times> TSMaster \<times> 'x" where
  "receive_channels api [] hasFrames s = (hasFrames, s)"
| "receive_channels api (ch # cs) hasFrames s =
     (let (t, x) = s;
          (r, bufferSize, linBuffer, x) = ts_receive api ch 64 x
      in if r \<noteq> 0 then
           receive_channels api cs hasFrames
             (ts_pushError (ErrorText ''tsfifo_receive_lin_msgs failed'' [uint ch, uint r]) t, x)
         else if bufferSize \<le> 0 then receive_channels api cs hasFrames (t, x)
         else
           let bufferSize = min bufferSize 64;
               t = fold (\<lambda>msg. dispatchLIN (ts_now api x) msg (ucast ch)) (take (nat bufferSize) linBuffer) t
           in receive_channels api cs True (t, x))"

definition receiveLoop_round :: "'x TSLib \<Rightarrow> TSMaster \<times> 'x \<Rightarrow> TSMaster \<times> 'x" where
  "receiveLoop_round api s =
     (let (hasFrames, t, x) = receive_channels api (ts_channels (fst s)) False s
      in if hasFrames then (t, x) else (t, ts_sleep api (2 * Millisecond) x))"

text \<open>
  What happens while a reader waits: the callbacks for the messages that have arrived, and a round of
  the receive loop, or just time when the loop does not run.
\<close>

definition ts_turn :: "'x TSLib \<Rightarrow> TSMaster \<times> 'x \<Rightarrow> TSMaster \<times> 'x" where
  "ts_turn api s =
     (let (t, x) = s;
          (msgs, x) = (if ts_linCb t then ts_callbacks api x else ([], x));
          t = fold (onLinEvent (ts_now api x)) msgs t
      in if ts_running t \<and> \<not> ts_cancelled t then receiveLoop_round api (t, x)
         else (t, ts_sleep api (2 * Millisecond) x))"

subsection \<open>Opening and closing\<close>

definition ts_status :: "string \<Rightarrow> int list \<Rightarrow> u64 \<times> 'x \<Rightarrow> error option \<times> 'x" where
  "ts_status what args r = (let (code, x) = r in
     (if code \<noteq> 0 then (Some (ErrorText what (args @ [uint code])), x) else (None, x)))"

definition configure_channel ::
    "'x TSLib \<Rightarrow> string \<Rightarrow> string \<Rightarrow> int \<Rightarrow> u32 \<Rightarrow> 'x \<Rightarrow> error option \<times> 'x" where
  "configure_channel api appName devName deviceType ch =
     call_all
       [\<lambda>x. ts_status ''tsapp_set_mapping_verbose failed'' [uint ch]
              (ts_set_mapping api appName ch devName deviceType x),
        \<lambda>x. ts_status ''tsapp_configure_baudrate_lin failed'' [uint ch] (ts_configure_baudrate api ch x)]"

definition ts_enumerate_devices :: "'x TSLib \<Rightarrow> 'x \<Rightarrow> error option \<times> 'x" where
  "ts_enumerate_devices api x =
     (let (r, deviceCount, x) = ts_enumerate api x
      in if r \<noteq> 0 then (Some (ErrorText ''tsapp_enumerate_hw_devices failed'' [uint r]), x)
         else if deviceCount \<le> 0 then (Some (ErrorText ''no TSMaster devices found'' []), x)
         else (None, x))"

text \<open>The callback stays registered when the library accepts it; without it frames arrive by polling.\<close>

definition registerLinEvent :: "'x TSLib \<Rightarrow> TSMaster \<Rightarrow> 'x \<Rightarrow> error option \<times> TSMaster \<times> 'x" where
  "registerLinEvent api t x =
     (let (r, x) = ts_register_event api x
      in if r \<noteq> 0
         then (Some (ErrorText ''tsapp_register_event_lin failed'' [uint r]), t\<lparr>ts_linCb := False\<rparr>, x)
         else (None, t\<lparr>ts_linCb := True\<rparr>, x))"

definition callInitProcedures :: "'x TSLib \<Rightarrow> TSMaster \<Rightarrow> 'x \<Rightarrow> error option \<times> TSMaster \<times> 'x" where
  "callInitProcedures api t x =
     (let appName = ''linbuskit''
      in case call_all
           [\<lambda>x. ts_status ''initialize_lib_tsmaster failed'' [] (ts_initialize api appName x),
            ts_enumerate_devices api,
            \<lambda>x. ts_status ''tsapp_show_tsmaster_window failed'' [] (ts_show_window api ''Hardware'' x),
            \<lambda>x. ts_status ''tsapp_set_can_channel_count failed'' [] (ts_set_can_count api 0 x),
            \<lambda>x. ts_status ''tsapp_set_lin_channel_count failed'' []
                   (ts_set_lin_count api (length (ts_channels t)) x)] x of
           (Some err, x) \<Rightarrow> (Some err, t, x)
         | (None, x) \<Rightarrow>
             (case deviceNameFromType TSMasterMap (ts_deviceType t) of
                Inl err \<Rightarrow> (Some err, t, x)
              | Inr devName \<Rightarrow>
                  (case call_all
                     (map (configure_channel api appName devName (ts_deviceType t)) (ts_channels t) @
                      [\<lambda>x. ts_status ''tsapp_connect failed'' [] (ts_connect api x)]) x of
                     (Some err, x) \<Rightarrow> (Some err, t, x)
                   | (None, x) \<Rightarrow>
                       let t = t\<lparr>ts_connected := True\<rparr>;
                           x = ts_enable_fifo api x;
                           (_, t, x) = registerLinEvent api t x;
                           (err, x) = call_all (map (\<lambda>ch x.
                             ts_status ''tslin_set_node_functiontype failed'' [uint ch]
                               (ts_set_node_master api ch x)) (ts_channels t)) x
                       in (err, t, x))))"

definition ts_open :: "'x TSLib \<Rightarrow> TSMaster \<Rightarrow> 'x \<Rightarrow> error option \<times> TSMaster \<times> 'x" where
  "ts_open api t x =
     (case ts_load api x of
        (Some err, x) \<Rightarrow> (Some err, t, x)
      | (None, x) \<Rightarrow>
          let t = t\<lparr>ts_loader := True\<rparr>
          in case callInitProcedures api t x of
               (Some err, t, x) \<Rightarrow> (Some err, t, x)
             | (None, t, x) \<Rightarrow>
                 let t = t\<lparr>ts_transmitProc := True\<rparr>
                 in if \<not> ts_has_transmit api x
                    then (Some (ErrorText ''tsapp_transmit_lin_async not found'' []), t, x)
                    else (None, t\<lparr>ts_running := True\<rparr>, x))"

text \<open>\<open>Close\<close> waits for the receive loop to end before it closes the queues.\<close>

definition TSMaster_Close :: "'x TSLib \<Rightarrow> TSMaster \<Rightarrow> 'x \<Rightarrow> TSMaster \<times> 'x" where
  "TSMaster_Close api t x =
     (if ts_closeOnce t then (t, x)
      else
        let loader = ts_loader t;
            connected = ts_connected t;
            linCb = ts_linCb t;
            t = t\<lparr>ts_closeOnce := True, ts_loader := False, ts_connected := False, ts_linCb := False\<rparr>;
            t = t\<lparr>ts_cancelled := True\<rparr>;
            t = t\<lparr>ts_running := False\<rparr>;
            x = (if loader \<and> connected then
                   let x = (if linCb then ts_unregister_event api x else x);
                       x = ts_disable_fifo api x
                   in ts_disconnect api x
                 else x);
            t = t\<lparr>ts_eventChans := (\<lambda>c. map_option close_chan (ts_eventChans t c))\<rparr>;
            t = t\<lparr>ts_errCh := close_chan (ts_errCh t)\<rparr>
        in (t, x))"

definition NewTSMaster :: "'x TSLib \<Rightarrow> int \<Rightarrow> Channel list \<Rightarrow> 'x \<Rightarrow> (error + TSMaster) \<times> 'x" where
  "NewTSMaster api deviceType channels x =
     (let configuredChannels =
            (if length channels > 0 then map ucast channels else defaultTSMasterChannels);
          t = \<lparr>ts_loader = False, ts_channels = configuredChannels, ts_eventChans = (\<lambda>_. None),
               ts_errCh = make_chan 32, ts_transmitProc = False, ts_linCb = False,
               ts_cancelled = False, ts_running = False, ts_connected = False,
               ts_deviceType = deviceType, ts_closeOnce = False, ts_lastFrame = zeroLastFrame,
               ts_masterReadLocks = \<lparr>locks = (\<lambda>_. None)\<rparr>, ts_panicked = False\<rparr>
      in case ts_open api t x of
           (Some err, t, x) \<Rightarrow> (Inl err, snd (TSMaster_Close api t x))
         | (None, t, x) \<Rightarrow> (Inr t, x))"

subsection \<open>Operations\<close>

definition ts_validateChannel :: "Channel \<Rightarrow> TSMaster \<Rightarrow> error option" where
  "ts_validateChannel channel t =
     (if \<not> ts_connected t then Some ErrDriverClosed
      else if ucast channel \<in> set (ts_channels t) then None
      else Some (Wrapped '''' [uint channel] ErrInvalidChannel))"

text \<open>
  A receive from an event queue: an event, nothing, or the queue is closed and empty.
\<close>

definition ts_dequeue :: "Channel \<Rightarrow> TSMaster \<Rightarrow> LinEvent received \<times> TSMaster" where
  "ts_dequeue channel t =
     (let (q, t) = ts_eventChannel channel t;
          (q, result) = try_recv q
      in (result, t\<lparr>ts_eventChans := (ts_eventChans t)(channel \<mapsto> q)\<rparr>))"

text \<open>
  The \<^verbatim>\<open>select\<close> of \<open>ReadEvent\<close>, round by round: an event, or the timer; when both are
  ready \<open>late\<close> chooses; when neither is, the rest of the program has a turn.
\<close>

definition ts_round ::
    "'x TSLib \<Rightarrow> (TSMaster \<times> 'x \<Rightarrow> bool) \<Rightarrow> int \<Rightarrow> Channel \<Rightarrow> int \<Rightarrow> TSMaster \<times> 'x \<Rightarrow>
     ((error + LinEvent option) \<times> TSMaster \<times> 'x) + TSMaster \<times> 'x" where
  "ts_round api late timeout channel deadline s =
     (let (t, x) = s;
          expired = (timeout > 0 \<and> deadline \<le> ts_now api x)
      in if expired \<and> late s then Inl (Inr None, s)
         else case ts_dequeue channel t of
                (Received evt, t) \<Rightarrow> Inl (Inr (Some evt), t, x)
              | (Closed, t) \<Rightarrow> Inl (Inl (ErrorText ''tsmaster driver closed'' []), t, x)
              | (Empty, t) \<Rightarrow>
                  if timeout \<le> 0 \<or> expired then Inl (Inr None, t, x)
                  else Inr (ts_turn api (t, x)))"

definition ts_ReadEvent ::
    "'x TSLib \<Rightarrow> (TSMaster \<times> 'x \<Rightarrow> bool) \<Rightarrow> int \<Rightarrow> Channel \<Rightarrow> TSMaster \<times> 'x \<Rightarrow>
     ((error + LinEvent option) \<times> TSMaster \<times> 'x) option" where
  "ts_ReadEvent api late timeout channel s =
     (case ts_validateChannel channel (fst s) of
        Some err \<Rightarrow> Some (Inl err, s)
      | None \<Rightarrow>
          let t = snd (ts_eventChannel channel (fst s))
          in loop (ts_round api late timeout channel (ts_now api (snd s) + timeout)) (t, snd s))"

text \<open>
  \<open>WriteMessage\<close> hands the frame to the adapter under the call mutex and then, without it, queues a
  copy for the readers.
\<close>

definition ts_write ::
    "'x TSLib \<Rightarrow> LinEvent option \<Rightarrow> Channel \<Rightarrow> TSMaster \<times> 'x \<Rightarrow> error option \<times> TSMaster \<times> 'x" where
  "ts_write api event channel s =
     (case event of
        None \<Rightarrow> (Some (ErrorText ''nil LIN event'' []), s)
      | Some e \<Rightarrow>
          if length (EventPayload e) > 8
          then (Some (ErrorText ''invalid LIN payload length'' [int (length (EventPayload e))]), s)
          else if \<not> ts_transmitProc (fst s)
          then (Some (ErrorText ''tsapp_transmit_lin_async not initialized'' []), s)
          else
            let msg = \<lparr>FIdxChn = channel, FErrStatus = 0, FProperties = linPropertyDirTxMask,
                       FDLC = of_nat (length (EventPayload e)), FIdentifier = EventID e,
                       FChecksum = 0, FStatus = 0, FTimeUs = replicate 8 0,
                       FData = copy_at 0 (EventPayload e) (replicate 8 0)\<rparr>;
                (t, x) = s
            in case ts_validateChannel channel t of
                 Some err \<Rightarrow> (Some err, s)
               | None \<Rightarrow>
                   let (r, x) = ts_transmit api msg x
                   in if r \<noteq> 0
                      then (Some (ErrorText ''tsapp_transmit_lin_async failed'' [uint r]), t, x)
                      else (None, t, x))"

definition ts_echo :: "'x TSLib \<Rightarrow> LinEvent \<Rightarrow> Channel \<Rightarrow> TSMaster \<times> 'x \<Rightarrow> TSMaster \<times> 'x" where
  "ts_echo api e channel s =
     (let (t, x) = s;
          txCopy = e\<lparr>ev_Channel := channel, ev_Direction := TX, ev_Timestamp := ts_now api x\<rparr>
      in (ts_enqueue channel txCopy t, x))"

definition ts_WriteMessage ::
    "'x TSLib \<Rightarrow> LinEvent option \<Rightarrow> Channel \<Rightarrow> TSMaster \<times> 'x \<Rightarrow> error option \<times> TSMaster \<times> 'x" where
  "ts_WriteMessage api event channel s =
     (case ts_write api event channel s of
        (Some err, s) \<Rightarrow> (Some err, s)
      | (None, s) \<Rightarrow> (None, ts_echo api (the event) channel s))"

definition ts_MasterWrite ::
    "'x TSLib \<Rightarrow> byte \<Rightarrow> byte list \<Rightarrow> Channel \<Rightarrow> TSMaster \<times> 'x \<Rightarrow> error option \<times> TSMaster \<times> 'x" where
  "ts_MasterWrite api frameID data channel s =
     (let (t, x) = s
      in if length data > 8
         then (Some (ErrorText ''tsmaster MasterWrite: data length exceeds 8'' [int (length data)]), s)
         else if \<not> ts_transmitProc t
         then (Some (ErrorText ''tsapp_transmit_lin_async not initialized'' []), s)
         else case ts_validateChannel channel t of
                Some err \<Rightarrow> (Some err, s)
              | None \<Rightarrow>
                  let msg = \<lparr>FIdxChn = channel, FErrStatus = 0, FProperties = linPropertyDirTxMask,
                             FDLC = of_nat (length data), FIdentifier = frameID, FChecksum = 0,
                             FStatus = 0, FTimeUs = replicate 8 0,
                             FData = copy_at 0 data (replicate 8 0)\<rparr>;
                      (r, x) = ts_transmit api msg x
                  in if r \<noteq> 0
                     then (Some (ErrorText ''tsapp_transmit_lin_async failed'' [uint r]), t, x)
                     else (None, t, x))"

definition ts_RequestSlaveResponse ::
    "'x TSLib \<Rightarrow> byte \<Rightarrow> Channel \<Rightarrow> TSMaster \<times> 'x \<Rightarrow> error option \<times> TSMaster \<times> 'x" where
  "ts_RequestSlaveResponse api frameID channel s =
     (let (t, x) = s
      in case ts_validateChannel channel t of
           Some err \<Rightarrow> (Some err, s)
         | None \<Rightarrow>
             if \<not> ts_transmitProc t
             then (Some (ErrorText ''tsapp_transmit_lin_async not initialized'' []), s)
             else
               let msg = \<lparr>FIdxChn = channel, FErrStatus = 0, FProperties = 0, FDLC = 8,
                          FIdentifier = frameID, FChecksum = 0, FStatus = 0,
                          FTimeUs = replicate 8 0, FData = replicate 8 0\<rparr>;
                   (r, x) = ts_transmit api msg x
               in if r \<noteq> 0
                  then (Some (ErrorText ''tsapp_transmit_lin_async (header) failed'' [uint r]), t, x)
                  else (None, t, x))"

definition ts_ScheduleSlaveResponse ::
    "LinEvent option \<Rightarrow> Channel \<Rightarrow> TSMaster \<times> 'x \<Rightarrow> error option \<times> TSMaster \<times> 'x" where
  "ts_ScheduleSlaveResponse event channel s =
     (Some (ErrorText ''tsmaster: ScheduleSlaveResponse is not supported in master mode'' []), s)"

text \<open>The driver as the transport sees it.\<close>

definition ts_driver :: "'x TSLib \<Rightarrow> (TSMaster \<times> 'x \<Rightarrow> bool) \<Rightarrow> (TSMaster \<times> 'x) Driver" where
  "ts_driver api late =
     \<lparr>ReadEvent = ts_ReadEvent api late,
      WriteMessage = ts_WriteMessage api,
      ScheduleSlaveResponse = ts_ScheduleSlaveResponse,
      RequestSlaveResponse = ts_RequestSlaveResponse api\<rparr>"

definition ts_MasterRead ::
    "'x TSLib \<Rightarrow> (TSMaster \<times> 'x \<Rightarrow> bool) \<Rightarrow> byte \<Rightarrow> Channel \<Rightarrow> TSMaster \<times> 'x \<Rightarrow>
     ((error + byte list) \<times> TSMaster \<times> 'x) option" where
  "ts_MasterRead api late frameID channel s =
     (case lock channel (ts_masterReadLocks (fst s)) of
        None \<Rightarrow> None
      | Some m \<Rightarrow>
          (case readMasterResponse (\<lambda>s. ts_now api (snd s)) frameID channel masterReadTimeout
                  (ts_RequestSlaveResponse api) (ReadEvent (ts_driver api late))
                  ((fst s)\<lparr>ts_masterReadLocks := m\<rparr>, snd s) of
             None \<Rightarrow> None
           | Some (r, t, x) \<Rightarrow>
               Some (r, t\<lparr>ts_masterReadLocks := unlock channel (ts_masterReadLocks t)\<rparr>, x)))"

text \<open>
  \<open>LinBreak\<close> sends a wake-up; the code's other way, a frame with the break property, is for a
  library that is not loaded, which a connected driver's is.
\<close>

definition ts_LinBreak :: "'x TSLib \<Rightarrow> Channel list \<Rightarrow> TSMaster \<times> 'x \<Rightarrow> error option \<times> TSMaster \<times> 'x" where
  "ts_LinBreak api channels s =
     (let (t, x) = s
      in if length (ts_channels t) = 0
         then (Some (ErrorText ''tsmaster has no configured channel'' []), s)
         else
           let channel = (if length channels > 0 then channels ! 0 else ucast (ts_channels t ! 0))
           in case ts_validateChannel channel t of
                Some err \<Rightarrow> (Some err, s)
              | None \<Rightarrow>
                  let (r, x) = ts_wakeup api (ucast channel) x
                  in if r \<noteq> 0
                     then (Some (ErrorText ''tsapp_transmit_lin_wakeup_async failed'' [uint r]), t, x)
                     else (None, t, x))"

end
