(* ===== verification/TSMaster_Properties.thy ===== *)
theory TSMaster_Properties
  imports TSMaster
begin

section \<open>What the TSMaster driver guarantees\<close>

text \<open>
  The dispatch of frames and its filter of repetitions, reads that end, queues that are never sent on
  while the driver is open, and what can go wrong when it is closed during a write.
\<close>

subsection \<open>Dispatch\<close>

text \<open>
  The events in the queues: of the channel of their queue, of at most eight bytes, and if received
  with an identifier that is not reserved, some data, and the checksum kind of the identifier.
\<close>

definition ts_frame :: "Channel \<Rightarrow> LinEvent \<Rightarrow> bool" where
  "ts_frame c e \<longleftrightarrow> ev_Channel e = c \<and> length (EventPayload e) \<le> 8 \<and>
     (ev_Direction e = RX \<longrightarrow> EventID e < 0x3E \<and> EventPayload e \<noteq> [] \<and>
        ev_ChecksumType e = checksumTypeFromID (EventID e))"

abbreviation (input) ts_good :: "TSMaster \<Rightarrow> bool" where
  "ts_good t \<equiv> all_queued ts_frame (ts_eventChans t)"

text \<open>The driver is not closed: its queues are open, of their capacity, and nothing has panicked.\<close>

definition ts_sound :: "TSMaster \<Rightarrow> bool" where
  "ts_sound t \<longleftrightarrow> \<not> ts_closeOnce t \<and> \<not> ts_panicked t \<and> \<not> chan_closed (ts_errCh t) \<and>
     (\<forall>c q. ts_eventChans t c = Some q \<longrightarrow> \<not> chan_closed q \<and> chan_cap q = 128)"

lemma ts_enqueue_chans [simp]:
  "ts_eventChans (ts_enqueue c e t) = queue_put 128 c e (ts_eventChans t)"
  by (auto simp: ts_enqueue_def ts_eventChannel_def queue_put_def Let_def split: prod.splits)

lemma ts_enqueue_other [simp]:
  "ts_lastFrame (ts_enqueue c e t) = ts_lastFrame t" "ts_connected (ts_enqueue c e t) = ts_connected t"
  "ts_channels (ts_enqueue c e t) = ts_channels t" "ts_running (ts_enqueue c e t) = ts_running t"
  "ts_cancelled (ts_enqueue c e t) = ts_cancelled t" "ts_linCb (ts_enqueue c e t) = ts_linCb t"
  "ts_closeOnce (ts_enqueue c e t) = ts_closeOnce t" "ts_errCh (ts_enqueue c e t) = ts_errCh t"
  by (simp_all add: ts_enqueue_def ts_eventChannel_def Let_def split: prod.splits)

lemma ts_enqueue_sound: "ts_sound t \<Longrightarrow> ts_sound (ts_enqueue c e t)"
  by (auto simp: ts_sound_def ts_enqueue_def ts_eventChannel_def queue_at_def try_send_def Let_def
      split: option.splits prod.splits if_splits)

text \<open>The event that a message stands for, if it is to be reported at all.\<close>

definition ts_event :: "int \<Rightarrow> Channel \<Rightarrow> tsmasterLIN \<Rightarrow> LinEvent option" where
  "ts_event now c msg =
     (let dlc = min (unat (FDLC msg)) 8; i = FIdentifier msg AND 0x3F
      in if i < 0x3E \<and> 0 < dlc \<and> (even (FProperties msg) \<or> i = 0x3D \<and> FErrStatus msg = 0)
         then Some \<lparr>ev_Channel = c, EventID = i,
                EventPayload = copy_at 0 (take dlc (FData msg)) (replicate dlc 0),
                ev_ChecksumType = checksumTypeFromID i, ev_Direction = RX, ev_Timestamp = now\<rparr>
         else None)"

lemma ts_event_frame: "ts_event now c msg = Some e \<Longrightarrow>
    ts_frame c e \<and> ev_Direction e = RX \<and> ev_Channel e = c \<and> ev_Timestamp e = now"
proof -
  have "copy_at 0 ys (replicate n 0) \<noteq> []" if "0 < n" for ys :: "byte list" and n
    using that length_copy_at [of 0 "replicate n (0 :: byte)" ys] by (metis length_0_conv length_replicate less_irrefl zero_le)
  then show "ts_event now c msg = Some e \<Longrightarrow>
      ts_frame c e \<and> ev_Direction e = RX \<and> ev_Channel e = c \<and> ev_Timestamp e = now"
    by (auto simp: ts_event_def ts_frame_def Let_def split: if_splits)
qed

text \<open>What the driver remembers of an event.\<close>

definition remember :: "LinEvent \<Rightarrow> tsmasterLastFrame" where
  "remember e = \<lparr>lf_valid = True, lf_ch = ev_Channel e, lf_id = EventID e, lf_dir = ev_Direction e,
     lf_n = length (EventPayload e), lf_data = copy_at 0 (EventPayload e) (replicate 8 0),
     lf_at = ev_Timestamp e\<rparr>"

lemma and_1_odd: "(w AND 1 \<noteq> (0 :: byte)) = odd w"
  by (simp add: and_one_eq mod_2_eq_odd)

lemma dispatchLIN_event:
  "dispatchLIN now msg c t =
     (case ts_event now c msg of
        None \<Rightarrow> t
      | Some e \<Rightarrow>
          if fst (isDuplicate now c (EventID e) RX (EventPayload e) t) then t\<lparr>ts_lastFrame := remember e\<rparr>
          else ts_enqueue c e (t\<lparr>ts_lastFrame := remember e\<rparr>))"
proof -
  define dlc where "dlc = min (unat (FDLC msg)) 8"
  define payload where "payload = copy_at 0 (take dlc (FData msg)) (replicate dlc 0)"
  define i where "i = FIdentifier msg AND 0x3F"
  define e where "e = \<lparr>ev_Channel = c, EventID = i, EventPayload = payload,
    ev_ChecksumType = checksumTypeFromID i, ev_Direction = RX, ev_Timestamp = now\<rparr>"
  define dup where "dup = fst (isDuplicate now c i RX payload t)"
  have d: "isDuplicate now c i RX payload t = (dup, t\<lparr>ts_lastFrame := remember e\<rparr>)"
    by (simp add: dup_def isDuplicate_def remember_def e_def Let_def)
  have tx: "(if FProperties msg AND linPropertyDirTxMask \<noteq> 0 \<and>
      \<not> (i = SlaveDiagnosticFrameID \<and> dlc > 0 \<and> FErrStatus msg = 0) then TX else RX) =
    (if odd (FProperties msg) \<and> \<not> (i = 0x3D \<and> dlc > 0 \<and> FErrStatus msg = 0) then TX else RX)"
    unfolding and_1_odd ..
  have ev: "ts_event now c msg = (if i < 0x3E \<and> 0 < dlc \<and> (even (FProperties msg) \<or> i = 0x3D \<and> FErrStatus msg = 0)
      then Some e else None)"
    unfolding ts_event_def Let_def dlc_def [symmetric] i_def [symmetric] payload_def [symmetric] e_def ..
  define dir where "dir = (if odd (FProperties msg) \<and> \<not> (i = 0x3D \<and> dlc > 0 \<and> FErrStatus msg = 0)
    then TX else RX)"
  have eq: "dispatchLIN now msg c t =
      (if i \<ge> 0x3E then t else if dir = TX then t else if dlc = 0 then t
       else case isDuplicate now c i dir payload t of (duplicate, t) \<Rightarrow>
         if duplicate then t
         else ts_enqueue c \<lparr>ev_Channel = c, EventID = i, EventPayload = payload,
           ev_ChecksumType = checksumTypeFromID i, ev_Direction = dir, ev_Timestamp = now\<rparr> t)"
    unfolding dispatchLIN_def dlc_def [symmetric] Let_def payload_def [symmetric] i_def [symmetric] tx
      dir_def [symmetric] ..
  show ?thesis
  proof (cases "dir = TX")
    case True
    then have "ts_event now c msg = None" unfolding ev dir_def by (auto split: if_splits)
    then show ?thesis using True by (simp add: eq)
  next
    case False
    then have dir: "dir = RX" "even (FProperties msg) \<or> i = 0x3D \<and> dlc > 0 \<and> FErrStatus msg = 0"
      by (auto simp: dir_def split: if_splits)
    show ?thesis
      unfolding eq ev dir(1) d using dir(2) not_le [of "0x3E" i] by (auto simp: dup_def e_def)
  qed
qed

lemma dispatchLIN_keeps:
  "ts_good t \<Longrightarrow> ts_good (dispatchLIN now msg c t)"
  "ts_sound t \<Longrightarrow> ts_sound (dispatchLIN now msg c t)"
  "length (queued (ts_eventChans (dispatchLIN now msg c t)) c') \<le> Suc (length (queued (ts_eventChans t) c'))"
  "ts_connected (dispatchLIN now msg c t) = ts_connected t"
  "ts_channels (dispatchLIN now msg c t) = ts_channels t"
  "ts_running (dispatchLIN now msg c t) = ts_running t"
  "ts_cancelled (dispatchLIN now msg c t) = ts_cancelled t"
  "ts_linCb (dispatchLIN now msg c t) = ts_linCb t"
proof -
  have "ts_sound (t\<lparr>ts_lastFrame := lf\<rparr>) = ts_sound t" for lf by (simp add: ts_sound_def)
  then show "ts_sound t \<Longrightarrow> ts_sound (dispatchLIN now msg c t)"
    unfolding dispatchLIN_event by (auto intro: ts_enqueue_sound split: option.split)
qed (auto simp: dispatchLIN_event all_queued_put queue_put_length le_SucI
    dest: ts_event_frame split: option.split)

subsection \<open>Repetitions\<close>

definition repeats :: "LinEvent \<Rightarrow> LinEvent \<Rightarrow> bool" where
  "repeats l e \<longleftrightarrow> ev_Channel l = ev_Channel e \<and> EventID l = EventID e \<and>
     EventPayload l = EventPayload e \<and> ev_Timestamp e - ev_Timestamp l < 8 * Millisecond"

text \<open>What the filter lets through of a sequence of events, after \<open>prev\<close>.\<close>

fun deliver :: "LinEvent option \<Rightarrow> LinEvent list \<Rightarrow> LinEvent list" where
  "deliver prev [] = []"
| "deliver prev (e # es) =
     (if (case prev of Some l \<Rightarrow> repeats l e | None \<Rightarrow> False) then deliver (Some e) es
      else e # deliver (Some e) es)"

definition ts_events :: "(int \<times> Channel \<times> tsmasterLIN) list \<Rightarrow> LinEvent list" where
  "ts_events ds = concat (map (\<lambda>(now, c, msg). case ts_event now c msg of None \<Rightarrow> [] | Some e \<Rightarrow> [e]) ds)"

text \<open>The last frame that the driver remembers, as an event.\<close>

definition remembers :: "tsmasterLastFrame \<Rightarrow> LinEvent option \<Rightarrow> bool" where
  "remembers lf prev \<longleftrightarrow>
     (case prev of None \<Rightarrow> \<not> lf_valid lf
      | Some l \<Rightarrow> lf = remember l \<and> ev_Direction l = RX \<and> length (EventPayload l) \<le> 8)"

lemma isDuplicate_repeats:
  assumes "remembers (ts_lastFrame t) prev" and "length (EventPayload e) \<le> 8"
  shows "fst (isDuplicate (ev_Timestamp e) (ev_Channel e) (EventID e) RX (EventPayload e) t) =
    (case prev of Some l \<Rightarrow> repeats l e | None \<Rightarrow> False)"
proof (cases prev)
  case None
  then show ?thesis using assms(1) by (simp add: remembers_def isDuplicate_def Let_def)
next
  case (Some l)
  then have lf: "ts_lastFrame t = remember l" "ev_Direction l = RX" and len: "length (EventPayload l) \<le> 8"
    using assms(1) by (simp_all add: remembers_def)
  have nth: "copy_at 0 (EventPayload l) (replicate 8 0) ! k = EventPayload l ! k" if "k < length (EventPayload l)" for k
    using that len by (simp add: copy_at_def nth_append)
  have "length (EventPayload l) = length (EventPayload e) \<and>
      list_all (\<lambda>k. copy_at 0 (EventPayload l) (replicate 8 0) ! k = EventPayload e ! k) [0..<length (EventPayload e)] \<longleftrightarrow>
      EventPayload l = EventPayload e" (is "?A \<longleftrightarrow> ?B")
  proof
    show "?A \<Longrightarrow> ?B" by (rule nth_equalityI) (auto simp: list_all_iff nth)
    show "?B \<Longrightarrow> ?A" using nth by (auto simp: list_all_iff)
  qed
  then show ?thesis
    by (auto simp: isDuplicate_def Let_def lf remember_def Some repeats_def)
qed

lemma dispatch_deliver:
  assumes "ts_sound t" and "remembers (ts_lastFrame t) prev"
    and "\<And>c. length (queued (ts_eventChans t) c) + length ds \<le> 128"
  shows "queued (ts_eventChans (fold (\<lambda>(now, c, msg). dispatchLIN now msg c) ds t)) c =
    queued (ts_eventChans t) c @ filter (\<lambda>e. ev_Channel e = c) (deliver prev (ts_events ds))"
  using assms
proof (induction ds arbitrary: t prev)
  case Nil
  then show ?case by (simp add: ts_events_def)
next
  case (Cons d ds)
  obtain now ch msg where d: "d = (now, ch, msg)" by (metis prod_cases3)
  let ?t = "dispatchLIN now msg ch t"
  have sound: "ts_sound ?t" using dispatchLIN_keeps(2) [OF Cons.prems(1)] .
  have room: "length (queued (ts_eventChans ?t) c) + length ds \<le> 128" for c
    using dispatchLIN_keeps(3) [of now msg ch t c] Cons.prems(3) [of c] by simp
  show ?case
  proof (cases "ts_event now ch msg")
    case None
    then have "?t = t" by (simp add: dispatchLIN_event)
    then show ?thesis using Cons.IH [OF sound _ room] Cons.prems(2) None by (simp add: d ts_events_def)
  next
    case (Some e)
    note e = ts_event_frame [OF Some]
    then have len: "length (EventPayload e) \<le> 8" by (simp add: ts_frame_def)
    have dup: "fst (isDuplicate now ch (EventID e) RX (EventPayload e) t) =
        (case prev of Some l \<Rightarrow> repeats l e | None \<Rightarrow> False)" (is "_ = ?rep")
      using isDuplicate_repeats [OF Cons.prems(2) len] e by simp
    have t: "?t = (if ?rep then t\<lparr>ts_lastFrame := remember e\<rparr> else ts_enqueue ch e (t\<lparr>ts_lastFrame := remember e\<rparr>))"
      by (simp add: dispatchLIN_event Some dup)
    have "remembers (ts_lastFrame ?t) (Some e)" using e len unfolding t by (simp add: remembers_def)
    note IH = Cons.IH [OF sound this room]
    have put: "queued (queue_put 128 ch e (ts_eventChans t)) c = queued (ts_eventChans t) c @ (if c = ch then [e] else [])"
      using Cons.prems(1) Cons.prems(3) [of ch] by (intro queued_put_room) (auto simp: ts_sound_def)
    have "queued (ts_eventChans ?t) c = queued (ts_eventChans t) c @ (if \<not> ?rep \<and> c = ch then [e] else [])"
      using put unfolding t by auto
    then show ?thesis using IH Some e by (auto simp: d ts_events_def)
  qed
qed

text \<open>
  C26: The dispatch of the TSMaster driver refines a filter on the sequence of frames. Whatever order
  callback and receive queue hand frames over in, the queue of a channel receives, in that order, the
  events of the frames that are to be reported, without those that repeat the event just before them,
  with the same channel, identifier and data within less than eight milliseconds. Not reported are
  frames with a reserved identifier, without data, and transmitted ones except answers to the slave
  diagnostic request. (The queues have room, and the filter has not seen a frame yet.)
\<close>

theorem ts_dispatch_refines:
  assumes "ts_sound t" and "\<not> lf_valid (ts_lastFrame t)"
    and "\<And>c. length (queued (ts_eventChans t) c) + length ds \<le> 128"
  shows "queued (ts_eventChans (fold (\<lambda>(now, c, msg). dispatchLIN now msg c) ds t)) c =
    queued (ts_eventChans t) c @
    filter (\<lambda>e. ev_Channel e = c)
      (deliver None (concat (map (\<lambda>(now, c, msg). case ts_event now c msg of None \<Rightarrow> [] | Some e \<Rightarrow> [e]) ds)))"
  using dispatch_deliver [OF assms(1) _ assms(3)] assms(2) by (simp add: remembers_def ts_events_def)

subsection \<open>Turns of the rest of the program\<close>

text \<open>
  What the driver needs of its adapter: polls and callbacks do not turn back the clock and take the
  messages they yield from a backlog; a sleep lasts.
\<close>

definition ts_runs_dry :: "'x TSLib \<Rightarrow> ('x \<Rightarrow> nat) \<Rightarrow> bool" where
  "ts_runs_dry api backlog \<longleftrightarrow>
     (\<forall>ch x. case ts_receive api ch 64 x of (r, len, buf, x') \<Rightarrow>
        ts_now api x \<le> ts_now api x' \<and>
        backlog x' + (if r = 0 then nat (min len 64) else 0) \<le> backlog x) \<and>
     (\<forall>x. case ts_callbacks api x of (msgs, x') \<Rightarrow>
        ts_now api x \<le> ts_now api x' \<and> backlog x' + length msgs \<le> backlog x) \<and>
     (\<forall>w x. 0 < w \<longrightarrow> ts_now api x < ts_now api (ts_sleep api w x))"

lemma ts_runs_dryD:
  assumes "ts_runs_dry api backlog"
  shows "ts_receive api ch 64 x = (r, len, buf, x') \<Longrightarrow> ts_now api x \<le> ts_now api x' \<and>
      backlog x' + (if r = 0 then nat (min len 64) else 0) \<le> backlog x"
    and "ts_callbacks api x = (msgs, x') \<Longrightarrow>
      ts_now api x \<le> ts_now api x' \<and> backlog x' + length msgs \<le> backlog x"
    and "0 < w \<Longrightarrow> ts_now api x < ts_now api (ts_sleep api w x)"
proof -
  note d = assms [unfolded ts_runs_dry_def]
  show "ts_receive api ch 64 x = (r, len, buf, x') \<Longrightarrow> ts_now api x \<le> ts_now api x' \<and>
      backlog x' + (if r = 0 then nat (min len 64) else 0) \<le> backlog x"
    using spec [OF spec [OF conjunct1 [OF d], of ch], of x] by simp
  show "ts_callbacks api x = (msgs, x') \<Longrightarrow>
      ts_now api x \<le> ts_now api x' \<and> backlog x' + length msgs \<le> backlog x"
    using spec [OF conjunct1 [OF conjunct2 [OF d]], of x] by simp
  show "0 < w \<Longrightarrow> ts_now api x < ts_now api (ts_sleep api w x)"
    using conjunct2 [OF conjunct2 [OF d]] by blast
qed

definition ts_waiting :: "('x \<Rightarrow> nat) \<Rightarrow> Channel \<Rightarrow> TSMaster \<times> 'x \<Rightarrow> nat" where
  "ts_waiting backlog c s = length (queued (ts_eventChans (fst s)) c) + 2 * backlog (snd s)"

lemma fold_dispatch_keeps:
  "ts_good t \<Longrightarrow> ts_good (fold (\<lambda>msg. dispatchLIN now msg (f msg)) msgs t)"
  "ts_sound t \<Longrightarrow> ts_sound (fold (\<lambda>msg. dispatchLIN now msg (f msg)) msgs t)"
  "length (queued (ts_eventChans (fold (\<lambda>msg. dispatchLIN now msg (f msg)) msgs t)) c) \<le>
     length (queued (ts_eventChans t) c) + length msgs"
  "ts_running (fold (\<lambda>msg. dispatchLIN now msg (f msg)) msgs t) = ts_running t"
proof -
  show "length (queued (ts_eventChans (fold (\<lambda>msg. dispatchLIN now msg (f msg)) msgs t)) c) \<le>
     length (queued (ts_eventChans t) c) + length msgs"
  proof (induction msgs arbitrary: t)
    case (Cons m ms)
    show ?case
      using Cons.IH [of "dispatchLIN now m (f m) t"] dispatchLIN_keeps(3) [of now m "f m" t c] by simp
  qed simp
  show "ts_good t \<Longrightarrow> ts_good (fold (\<lambda>msg. dispatchLIN now msg (f msg)) msgs t)"
    by (induction msgs arbitrary: t) (simp_all add: dispatchLIN_keeps)
  show "ts_sound t \<Longrightarrow> ts_sound (fold (\<lambda>msg. dispatchLIN now msg (f msg)) msgs t)"
    by (induction msgs arbitrary: t) (simp_all add: dispatchLIN_keeps)
  show "ts_running (fold (\<lambda>msg. dispatchLIN now msg (f msg)) msgs t) = ts_running t"
    by (induction msgs arbitrary: t) (simp_all add: dispatchLIN_keeps)
qed

lemma ts_pushError_keeps [simp]:
  "ts_eventChans (ts_pushError e t) = ts_eventChans t"
  "ts_sound t \<Longrightarrow> ts_sound (ts_pushError e t)"
  by (auto simp: ts_pushError_def ts_sound_def try_send_def Let_def split: prod.splits if_splits)

lemma receive_channels_keeps:
  "receive_channels api cs h s = (h', s') \<Longrightarrow>
   (ts_good (fst s) \<longrightarrow> ts_good (fst s')) \<and> (ts_sound (fst s) \<longrightarrow> ts_sound (fst s'))"
proof (induction cs arbitrary: h s)
  case (Cons ch cs)
  obtain t x where s: "s = (t, x)" by (cases s)
  obtain r len buf x1 where rcv: "ts_receive api ch 64 x = (r, len, buf, x1)" by (metis prod_cases4)
  show ?case
    using Cons.prems Cons.IH
    by (fastforce simp: s rcv Let_def fold_dispatch_keeps split: if_splits)
qed simp

lemma receive_channels_time:
  assumes dry: "ts_runs_dry api backlog"
  shows "receive_channels api cs h s = (h', s') \<Longrightarrow>
   ts_now api (snd s) \<le> ts_now api (snd s') \<and>
   (if h' \<and> \<not> h then ts_waiting backlog c s' < ts_waiting backlog c s
    else ts_waiting backlog c s' \<le> ts_waiting backlog c s)"
proof (induction cs arbitrary: h s)
  case (Cons ch cs)
  obtain t x where s: "s = (t, x)" by (cases s)
  obtain r len buf x1 where rcv: "ts_receive api ch 64 x = (r, len, buf, x1)" by (metis prod_cases4)
  have step: "ts_now api x \<le> ts_now api x1" "backlog x1 + (if r = 0 then nat (min len 64) else 0) \<le> backlog x"
    using ts_runs_dryD(1) [OF dry rcv] by simp_all
  show ?case
  proof (cases "r \<noteq> 0 \<or> len \<le> 0")
    case True
    then obtain t1 where t1: "receive_channels api cs h (t1, x1) = (h', s')"
      "ts_eventChans t1 = ts_eventChans t"
      using Cons.prems by (auto simp: s rcv Let_def split: if_splits)
    then show ?thesis using Cons.IH [OF t1(1)] step by (auto simp: s ts_waiting_def split: if_splits)
  next
    case False
    define msgs where "msgs = take (nat (min len 64)) buf"
    define t1 where "t1 = fold (\<lambda>msg. dispatchLIN (ts_now api x1) msg (ucast ch)) msgs t"
    have rest: "receive_channels api cs True (t1, x1) = (h', s')"
      using Cons.prems False by (simp add: s rcv Let_def t1_def msgs_def)
    have "length (queued (ts_eventChans t1) c) \<le> length (queued (ts_eventChans t) c) + length msgs"
      unfolding t1_def by (rule fold_dispatch_keeps)
    moreover have "length msgs \<le> nat (min len 64)" by (simp add: msgs_def)
    moreover have "0 < nat (min len 64)" using False by simp
    ultimately have "ts_waiting backlog c (t1, x1) < ts_waiting backlog c (t, x)"
      using step(2) False by (simp add: ts_waiting_def)
    then show ?thesis using Cons.IH [OF rest] step(1) by (simp add: s)
  qed
qed simp

lemma ts_turn_keeps:
  "(ts_good (fst s) \<longrightarrow> ts_good (fst (ts_turn api s))) \<and> (ts_sound (fst s) \<longrightarrow> ts_sound (fst (ts_turn api s)))"
proof -
  obtain t x where s: "s = (t, x)" by (cases s)
  obtain msgs x1 where cb: "(if ts_linCb t then ts_callbacks api x else ([], x)) = (msgs, x1)" by fastforce
  define t1 where "t1 = fold (onLinEvent (ts_now api x1)) msgs t"
  have t1: "(ts_good t \<longrightarrow> ts_good t1) \<and> (ts_sound t \<longrightarrow> ts_sound t1)"
    using fold_dispatch_keeps(1,2) [of t "ts_now api x1" FIdxChn msgs]
    by (simp add: t1_def onLinEvent_def [abs_def])
  obtain h t2 x2 where r: "receive_channels api (ts_channels t1) False (t1, x1) = (h, t2, x2)" by (metis prod_cases3)
  have "fst (ts_turn api s) = (if ts_running t1 \<and> \<not> ts_cancelled t1 then t2 else t1)"
    by (auto simp: s ts_turn_def cb t1_def [symmetric] receiveLoop_round_def r Let_def)
  then show ?thesis using t1 receive_channels_keeps [OF r] by (auto simp: s)
qed

lemma ts_turn_time:
  assumes dry: "ts_runs_dry api backlog" and turn: "ts_turn api s = s'"
  shows "ts_now api (snd s) < ts_now api (snd s') \<or>
    ts_now api (snd s) \<le> ts_now api (snd s') \<and> ts_waiting backlog c s' < ts_waiting backlog c s"
proof -
  obtain t x where s: "s = (t, x)" by (cases s)
  obtain msgs x1 where cb: "(if ts_linCb t then ts_callbacks api x else ([], x)) = (msgs, x1)" by fastforce
  define t1 where "t1 = fold (onLinEvent (ts_now api x1)) msgs t"
  have x1: "ts_now api x \<le> ts_now api x1" "backlog x1 + length msgs \<le> backlog x"
    using cb ts_runs_dryD(2) [OF dry, of x msgs x1] by (auto split: if_splits)
  have sleep: "ts_now api y < ts_now api (ts_sleep api (2 * Millisecond) y)" for y
    using ts_runs_dryD(3) [OF dry] by simp
  have "length (queued (ts_eventChans t1) c) \<le> length (queued (ts_eventChans t) c) + length msgs"
    unfolding t1_def using fold_dispatch_keeps(3) [of "ts_now api x1" FIdxChn msgs t c]
    by (simp add: onLinEvent_def [abs_def])
  then have w: "ts_waiting backlog c (t1, x1) \<le> ts_waiting backlog c s" using x1(2) by (simp add: s ts_waiting_def)
  show ?thesis
  proof (cases "ts_running t1 \<and> \<not> ts_cancelled t1")
    case True
    obtain h t2 x2 where r: "receive_channels api (ts_channels t1) False (t1, x1) = (h, t2, x2)" by (metis prod_cases3)
    have "s' = (if h then (t2, x2) else (t2, ts_sleep api (2 * Millisecond) x2))"
      using turn True r by (auto simp: s ts_turn_def cb t1_def [symmetric] receiveLoop_round_def Let_def)
    then show ?thesis
      using receive_channels_time [OF dry r, of c] x1(1) w sleep [of x2] by (auto simp: s)
  next
    case False
    then have "s' = (t1, ts_sleep api (2 * Millisecond) x1)"
      using turn by (auto simp: s ts_turn_def cb t1_def [symmetric] Let_def)
    then show ?thesis using x1(1) sleep [of x1] by (simp add: s)
  qed
qed

subsection \<open>Reads\<close>

subsection \<open>Reads\<close>

lemma ts_dequeue_cases:
  assumes "ts_dequeue c t = (r, t')"
  obtains (event) e where "r = Received e" "queue_get 128 c (ts_eventChans t) = (Some e, ts_eventChans t')"
  | (none) "r = Empty \<or> r = Closed" "queued (ts_eventChans t) c = []"
      "\<And>c'. queued (ts_eventChans t') c' = queued (ts_eventChans t) c'"
proof -
  obtain q qs where at: "queue_at 128 c (ts_eventChans t) = (q, qs)" by fastforce
  then have q: "chan_buf q = queued (ts_eventChans t) c" and qs: "queued qs c' = queued (ts_eventChans t) c'"
    "qs c' = (if c' = c then Some q else ts_eventChans t c')" for c'
    by (auto simp: queue_at_def queued_def Let_def split: option.splits if_splits)
  show thesis
  proof (cases "chan_buf q")
    case Nil
    then show thesis
      using assms none q qs
      by (auto simp: ts_dequeue_def ts_eventChannel_def at Let_def try_recv.simps queued_def split: if_splits)
  next
    case (Cons e es)
    then show thesis
      using assms event
      by (auto simp: ts_dequeue_def ts_eventChannel_def queue_get_def at Let_def try_recv.simps)
  qed
qed

lemma ts_dequeue_good:
  assumes "ts_dequeue c t = (r, t')" and "ts_good t"
  shows "ts_good t' \<and> (\<forall>e. r = Received e \<longrightarrow> ts_frame c e)"
  using assms(1)
proof (cases rule: ts_dequeue_cases)
  case (event e)
  then show ?thesis using all_queued_get [OF assms(2)] by auto
next
  case none
  then show ?thesis using assms(2) by (auto simp: all_queued_def)
qed

interpretation ts_reads: polling "ts_runs_dry api backlog" "\<lambda>s. ts_now api (snd s)"
  "ts_waiting backlog" "\<lambda>s. ts_good (fst s)" ts_frame "ts_round api late" for api backlog late
proof
  fix timeout c deadline and s s' :: "TSMaster \<times> 'a" and r :: "error + LinEvent option" and ev
  obtain t x where s: "s = (t, x)" by (cases s)
  obtain d t1 where d: "ts_dequeue c t = (d, t1)" by fastforce
  have same: "queued (ts_eventChans t1) c' = queued (ts_eventChans t) c'" if "d = Empty" for c'
    using d by (cases rule: ts_dequeue_cases) (use that in auto)
  have again: "d = Empty \<and> 0 < timeout \<and> ts_now api x < deadline \<and> s' = ts_turn api (t1, x)"
    if "ts_round api late timeout c deadline s = Inr s'"
    using that by (cases d) (auto simp: s d ts_round_def Let_def split: if_splits)
  show "ts_good (fst s')" if "ts_round api late timeout c deadline s = Inr s'" "ts_good (fst s)"
    using again [OF that(1)] ts_dequeue_good [OF d] that(2) ts_turn_keeps [of "(t1, x)" api] by (simp add: s)
  show "ts_good (fst s') \<and> (\<forall>ev. r = Inr (Some ev) \<longrightarrow> ts_frame c ev)"
    if "ts_round api late timeout c deadline s = Inl (r, s')" "ts_good (fst s)"
    using that ts_dequeue_good [OF d] by (cases d) (auto simp: s d ts_round_def Let_def split: if_splits)
  show "deadline \<le> ts_now api (snd s')"
    if "ts_round api late timeout c deadline s = Inl (Inr None, s')" "0 < timeout"
    using that by (cases d) (auto simp: s d ts_round_def Let_def split: if_splits)
  show "ts_now api (snd s) < ts_now api (snd s') \<and> ts_now api (snd s) < deadline \<or>
      ts_now api (snd s) \<le> ts_now api (snd s') \<and> ts_waiting backlog c s' < ts_waiting backlog c s"
    if "ts_runs_dry api backlog" "ts_round api late timeout c deadline s = Inr s'"
  proof -
    have w: "ts_waiting backlog c (t1, x) = ts_waiting backlog c s"
      using same again [OF that(2)] by (simp add: s ts_waiting_def)
    from ts_turn_time [OF that(1), of "(t1, x)" s' c] again [OF that(2)] show ?thesis
      unfolding w by (auto simp: s)
  qed
  show "ts_now api (snd s) \<le> ts_now api (snd s') \<and>
      (ts_now api (snd s') = ts_now api (snd s) \<longrightarrow> ts_waiting backlog c s' < ts_waiting backlog c s)"
    if "ts_runs_dry api backlog" "ts_round api late timeout c deadline s = Inl (Inr (Some ev), s')"
  proof -
    have r: "d = Received ev" "s' = (t1, x)"
      using that(2) by (cases d; auto simp: s d ts_round_def Let_def split: if_splits)+
    have "queue_get 128 c (ts_eventChans t) = (Some ev, ts_eventChans t1)"
      using d by (cases rule: ts_dequeue_cases) (use r in auto)
    then have "queued (ts_eventChans t) c = ev # queued (ts_eventChans t1) c" using queue_get_Some by blast
    then show ?thesis by (simp add: s r ts_waiting_def)
  qed
qed

lemma ts_ReadEvent_good:
  assumes "ts_ReadEvent api late timeout c s = Some (r, s')" and "ts_good (fst s)"
  shows "ts_good (fst s') \<and> (\<forall>e. r = Inr (Some e) \<longrightarrow> ts_frame c e)"
  using assms
  by (intro ts_reads.polled_read_good [where q = "(snd (ts_eventChannel c (fst s)), snd s)"
        and err = "ts_validateChannel c (fst s)" and s = s])
     (simp_all add: ts_ReadEvent_def [unfolded Let_def] ts_eventChannel_def Let_def case_prod_beta)

lemma ts_polled:
  "\<exists>err q. ts_now api (snd q) = ts_now api (snd s) \<and> ts_waiting backlog c q = ts_waiting backlog c s \<and>
    ReadEvent (ts_driver api late) timeout c s = (case err of Some err \<Rightarrow> Some (Inl err, s)
      | None \<Rightarrow> loop (ts_round api late timeout c (ts_now api (snd s) + timeout)) q)"
  by (intro exI [of _ "ts_validateChannel c (fst s)"] exI [of _ "(snd (ts_eventChannel c (fst s)), snd s)"])
     (simp add: ts_driver_def ts_ReadEvent_def [unfolded Let_def] ts_waiting_def ts_eventChannel_def
        Let_def case_prod_beta)

lemma ts_timed:
  "ts_runs_dry api backlog \<Longrightarrow>
   timed_reader (\<lambda>s. ts_now api (snd s)) (ReadEvent (ts_driver api late)) (ts_waiting backlog)"
  by (rule ts_reads.polled_timed [OF _ ts_polled])

lemma ts_write_state: "fst (snd (ts_write api event c s)) = fst s"
  by (auto simp: ts_write_def Let_def split: option.splits prod.splits)

lemma ts_write_valid: "ts_write api event c s = (None, s') \<Longrightarrow>
    \<exists>e. event = Some e \<and> length (EventPayload e) \<le> 8 \<and> ts_validateChannel c (fst s) = None"
  by (auto simp: ts_write_def Let_def split: option.splits prod.splits if_splits)

lemma ts_WriteMessage_good:
  assumes "ts_good (fst s)"
  shows "ts_good (fst (snd (ts_WriteMessage api event c s)))"
proof -
  obtain r t x where w: "ts_write api event c s = (r, t, x)" by (metis prod_cases3)
  have t: "t = fst s" using ts_write_state [of api event c s] by (simp add: w)
  show ?thesis
  proof (cases r)
    case None
    then obtain e where e: "event = Some e" "length (EventPayload e) \<le> 8" using ts_write_valid w by blast
    then have "ts_frame c (e\<lparr>ev_Channel := c, ev_Direction := TX, ev_Timestamp := n\<rparr>)" for n
      by (simp add: ts_frame_def)
    then show ?thesis using assms w by (simp add: ts_WriteMessage_def e None ts_echo_def Let_def t all_queued_put)
  qed (use assms t in \<open>simp add: ts_WriteMessage_def w\<close>)
qed

lemma ts_request_state: "fst (snd (ts_RequestSlaveResponse api i c s)) = fst s"
  by (auto simp: ts_RequestSlaveResponse_def Let_def split: option.splits prod.splits)

lemma ts_driver_good:
  "ts_good (fst s) \<Longrightarrow> ReadEvent (ts_driver api late) timeout c s = Some (r, s') \<Longrightarrow>
   ts_good (fst s') \<and> (\<forall>ev. r = Inr (Some ev) \<longrightarrow> ts_frame c ev)"
  by (auto simp: ts_driver_def dest: ts_ReadEvent_good)

interpretation ts_frames: frame_driver "ts_driver api late" "\<lambda>s. ts_good (fst s)" for api late
  by unfold_locales
     (auto simp: ts_driver_def ts_WriteMessage_good ts_request_state ts_frame_def ts_ScheduleSlaveResponse_def
       dest: ts_driver_good [unfolded ts_driver_def, simplified])

lemma ts_dequeue_sound: "ts_sound t \<Longrightarrow> ts_dequeue c t = (r, t') \<Longrightarrow> ts_sound t' \<and> r \<noteq> Closed"
  by (auto simp: ts_sound_def ts_dequeue_def ts_eventChannel_def queue_at_def try_recv.simps Let_def
      split: option.splits list.splits if_splits)

lemma ts_round_sound:
  assumes "ts_sound (fst s)"
  shows "case ts_round api late timeout c deadline s of
      Inl (r, s') \<Rightarrow> ts_sound (fst s') \<and> (\<forall>e. r \<noteq> Inl e) | Inr s' \<Rightarrow> ts_sound (fst s')"
proof -
  obtain t x where s: "s = (t, x)" by (cases s)
  obtain d t1 where d: "ts_dequeue c t = (d, t1)" by fastforce
  have "ts_sound t1" "d \<noteq> Closed" using ts_dequeue_sound [OF _ d] assms by (simp_all add: s)
  then show ?thesis
    using assms ts_turn_keeps [of "(t1, x)" api] by (cases d) (simp_all add: s d ts_round_def Let_def)
qed

text \<open>An adapter without traffic: its clock moves only while the receive loop sleeps.\<close>

definition silent_ts :: "int TSLib" where
  "silent_ts =
     \<lparr>ts_load = \<lambda>x. (None, x), ts_initialize = \<lambda>a x. (0, x), ts_enumerate = \<lambda>x. (0, 1, x),
      ts_show_window = \<lambda>w x. (0, x), ts_set_can_count = \<lambda>n x. (0, x), ts_set_lin_count = \<lambda>n x. (0, x),
      ts_set_mapping = \<lambda>a c n d x. (0, x), ts_configure_baudrate = \<lambda>c x. (0, x), ts_connect = \<lambda>x. (0, x),
      ts_enable_fifo = \<lambda>x. x, ts_register_event = \<lambda>x. (0, x), ts_set_node_master = \<lambda>c x. (0, x),
      ts_has_transmit = \<lambda>x. True, ts_transmit = \<lambda>m x. (0, x), ts_receive = \<lambda>c n x. (0, 0, [], x),
      ts_callbacks = \<lambda>x. ([], x), ts_unregister_event = \<lambda>x. x, ts_disable_fifo = \<lambda>x. x,
      ts_disconnect = \<lambda>x. x, ts_wakeup = \<lambda>c x. (0, x), ts_now = \<lambda>x. x, ts_sleep = \<lambda>w x. x + w\<rparr>"

lemma silent_ts_dry: "ts_runs_dry silent_ts (\<lambda>x. 0)"
  by (simp add: ts_runs_dry_def silent_ts_def)

text \<open>A driver of device type 3 (TC1001) on channel 0.\<close>

definition silent_tsmaster :: TSMaster where
  "silent_tsmaster = projr (fst (NewTSMaster silent_ts 3 [0] 0))"

lemma silent_tsmaster_eq:
  "silent_tsmaster = \<lparr>ts_loader = True, ts_channels = [0], ts_eventChans = (\<lambda>_. None),
     ts_errCh = make_chan 32, ts_transmitProc = True, ts_linCb = True, ts_cancelled = False,
     ts_running = True, ts_connected = True, ts_deviceType = 3, ts_closeOnce = False,
     ts_lastFrame = zeroLastFrame, ts_masterReadLocks = \<lparr>locks = (\<lambda>_. None)\<rparr>, ts_panicked = False\<rparr>"
proof -
  have "deviceNameFromType TSMasterMap 3 = Inr ''TC1001''"
    by (simp add: TSMasterMap_def ts_device_names_def upt_rec)
  then show ?thesis
    by (simp add: silent_tsmaster_def NewTSMaster_def ts_open_def callInitProcedures_def registerLinEvent_def silent_ts_def
        ts_status_def ts_enumerate_devices_def configure_channel_def Let_def)
qed

text \<open>
  C27: A read of the TSMaster driver ends, on time and without an error. Over an adapter whose messages
  are finitely many between two sleeps, \<open>ReadEvent\<close> on an open driver returns for every channel
  and timeout, whatever callbacks and receive loop do meanwhile and whichever case of the
  \<^verbatim>\<open>select\<close> is taken. An error it returns is that of the channel check. An event is of that
  channel, with at most eight bytes, and if received it has some data and no reserved identifier. It
  returns no event only when the timeout has passed. The driver stays open, its queued events valid.
\<close>

theorem ts_ReadEvent_correct:
  assumes "ts_runs_dry api backlog" and "all_queued ts_frame (ts_eventChans t)" and "ts_sound t"
  shows "\<exists>r t' x'. ts_ReadEvent api late timeout c (t, x) = Some (r, t', x') \<and>
    all_queued ts_frame (ts_eventChans t') \<and> ts_sound t' \<and>
    (case r of
       Inr (Some ev) \<Rightarrow> ev_Channel ev = c \<and> length (EventPayload ev) \<le> 8 \<and>
         (ev_Direction ev = RX \<longrightarrow> EventID ev < 0x3E \<and> EventPayload ev \<noteq> [])
     | Inr None \<Rightarrow> timeout \<le> 0 \<or> ts_now api x + timeout \<le> ts_now api x'
     | Inl err \<Rightarrow> ts_validateChannel c t = Some err)"
proof (cases "ts_validateChannel c t")
  case None
  let ?s = "(snd (ts_eventChannel c t), x)" and ?d = "ts_now api x + timeout"
  obtain r t' x' where l: "loop (ts_round api late timeout c ?d) ?s = Some (r, t', x')"
    using ts_reads.read_returns [OF assms(1)] by (metis prod.collapse)
  then have run: "ts_ReadEvent api late timeout c (t, x) = Some (r, t', x')"
    using None by (simp add: ts_ReadEvent_def)
  have late: "timeout \<le> 0 \<or> ?d \<le> ts_now api x'" if "r = Inr None"
    using ts_reads.read_late [of api late timeout c ?d ?s "(t', x')"] l that by fastforce
  have start: "ts_sound (fst ?s)"
    using assms(3) by (auto simp: ts_sound_def ts_eventChannel_def queue_at_def Let_def split: option.splits if_splits)
  let ?Q = "\<lambda>(r :: error + LinEvent option, s). ts_sound (fst s) \<and> (\<forall>e. r \<noteq> Inl e)"
  have "?Q (r, t', x')"
  proof (rule loop_keeps [OF l, where P = "\<lambda>s. ts_sound (fst s)" and Q = ?Q])
    show "ts_sound (fst s')" if "ts_round api late timeout c ?d s = Inr s'" "ts_sound (fst s)" for s s'
      using ts_round_sound [OF that(2), of api late timeout c ?d] by (simp add: that(1))
    show "?Q r" if "ts_round api late timeout c ?d s = Inl r" "ts_sound (fst s)" for s r
      using ts_round_sound [OF that(2), of api late timeout c ?d] by (simp add: that(1))
  qed (rule start)
  then show ?thesis
    using run late ts_ReadEvent_good [OF run] assms(2)
    by (cases r rule: read_result_cases) (auto simp: ts_frame_def)
next
  case (Some err)
  then show ?thesis using assms by (simp add: ts_ReadEvent_def)
qed

theorem ts_ReadEvent_correct_witness:
  "\<exists>r t' x'. ts_ReadEvent silent_ts (\<lambda>_. False) Millisecond 0 (silent_tsmaster, 0) = Some (r, t', x') \<and>
     (r = Inr None \<longrightarrow> Millisecond \<le> x')"
proof -
  have "all_queued ts_frame (ts_eventChans silent_tsmaster)" "ts_sound silent_tsmaster"
    by (simp_all add: silent_tsmaster_eq ts_sound_def)
  from ts_ReadEvent_correct [OF silent_ts_dry this, of "\<lambda>_. False" Millisecond 0 0] show ?thesis
    by (auto simp: silent_ts_def)
qed

subsection \<open>Closing during a write\<close>

text \<open>
  C28: A write of the TSMaster driver can crash when \<open>Close\<close> runs between its two parts. The write has
  handed its frame to the adapter and released the mutex; if the driver is still open when it queues
  the copy for the readers, nothing panics, but if \<open>Close\<close> has run meanwhile, the send is on a
  closed queue and panics, whenever the channel has been read or written before.
\<close>

theorem ts_write_close_race:
  assumes "ts_sound t" and "ts_write api (Some e) c (t, x) = (None, t1, x1)"
    and "ts_eventChans t c \<noteq> None"
  shows "\<not> ts_panicked (fst (ts_echo api e c (t1, x1))) \<and>
    ts_panicked (fst (ts_echo api e c (TSMaster_Close api t1 x1)))"
proof -
  have t1: "t1 = t" using ts_write_state [of api "Some e" c "(t, x)"] by (simp add: assms(2))
  obtain q where q: "ts_eventChans t c = Some q" using assms(3) by blast
  obtain t2 x2 where c: "TSMaster_Close api t x1 = (t2, x2)" by fastforce
  then have "ts_eventChans t2 c = Some (close_chan q)"
    using assms(1) q by (auto simp: TSMaster_Close_def ts_sound_def Let_def)
  then have "ts_panicked (fst (ts_echo api e c (t2, x2)))"
    by (simp add: ts_echo_def ts_enqueue_def ts_eventChannel_def queue_at_def try_send_def close_chan_def Let_def)
  moreover have "\<not> ts_panicked (fst (ts_echo api e c (t, x1)))"
    using ts_enqueue_sound [OF assms(1)] by (simp add: ts_echo_def Let_def ts_sound_def)
  ultimately show ?thesis by (simp add: t1 c)
qed

theorem ts_write_close_race_witness:
  "\<exists>t1 x1. ts_write silent_ts (Some (rx_event 0x10 [1])) 0
       (snd (ts_eventChannel 0 silent_tsmaster), 0) = (None, t1, x1) \<and>
     ts_panicked (fst (ts_echo silent_ts (rx_event 0x10 [1]) 0 (TSMaster_Close silent_ts t1 x1)))"
proof -
  let ?t = "snd (ts_eventChannel 0 silent_tsmaster)"
  have t: "ts_sound ?t" "ts_eventChans ?t 0 \<noteq> None"
    by (auto simp: silent_tsmaster_eq ts_sound_def ts_eventChannel_def queue_at_def Let_def split: if_splits)
  have "\<exists>t1 x1. ts_write silent_ts (Some (rx_event 0x10 [1])) 0 (?t, 0) = (None, t1, x1)"
    by (simp add: ts_write_def silent_tsmaster_eq ts_eventChannel_def queue_at_def rx_event_def
        ts_validateChannel_def silent_ts_def Let_def)
  then obtain t1 x1 where w: "ts_write silent_ts (Some (rx_event 0x10 [1])) 0 (?t, 0) = (None, t1, x1)" by blast
  from ts_write_close_race [OF t(1) w t(2)] w show ?thesis by blast
qed

text \<open>
  Two frames that arrive by the callback and again, in the same order, by the receive queue are
  reported twice: the filter remembers the last frame only.
\<close>

definition rx_lin :: "byte \<Rightarrow> byte \<Rightarrow> tsmasterLIN" where
  "rx_lin i d = \<lparr>FIdxChn = 0, FErrStatus = 0, FProperties = 0, FDLC = 1, FIdentifier = i,
     FChecksum = 0, FStatus = 0, FTimeUs = replicate 8 0, FData = [d, 0, 0, 0, 0, 0, 0, 0]\<rparr>"

theorem ts_dispatch_refines_witness:
  "map EventPayload (queued (ts_eventChans (fold (\<lambda>(now, c, msg). dispatchLIN now msg c)
     [(0, 0, rx_lin 0x10 1), (1, 0, rx_lin 0x10 1), (2, 0, rx_lin 0x11 2)] silent_tsmaster)) 0) = [[1], [2]]"
proof -
  have t: "ts_sound silent_tsmaster" "\<not> lf_valid (ts_lastFrame silent_tsmaster)"
    "length (queued (ts_eventChans silent_tsmaster) c) + length [(0 :: int, 0 :: Channel, rx_lin 0x10 1),
      (1, 0, rx_lin 0x10 1), (2, 0, rx_lin 0x11 2)] \<le> 128" for c
    by (simp_all add: silent_tsmaster_eq ts_sound_def zeroLastFrame_def queued_def)
  have q: "queued (ts_eventChans silent_tsmaster) 0 = []" by (simp add: silent_tsmaster_eq queued_def)
  show ?thesis
    unfolding ts_dispatch_refines [OF t] q
    by (simp add: rx_lin_def ts_event_def repeats_def copy_at_def)
qed

lemma copies_in_turn_reported_twice:
  "map EventPayload (queued (ts_eventChans (fold (\<lambda>(now, c, msg). dispatchLIN now msg c)
     [(0, 0, rx_lin 0x10 1), (0, 0, rx_lin 0x11 2), (1, 0, rx_lin 0x10 1), (1, 0, rx_lin 0x11 2)]
     silent_tsmaster)) 0) = [[1], [2], [1], [2]]"
proof -
  have "ts_sound silent_tsmaster" "remembers (ts_lastFrame silent_tsmaster) None"
    "queued (ts_eventChans silent_tsmaster) c = []" for c
    by (simp_all add: silent_tsmaster_eq ts_sound_def zeroLastFrame_def queued_def remembers_def)
  then show ?thesis
    by (subst dispatch_deliver [where prev = None])
       (simp_all add: rx_lin_def ts_event_def ts_events_def repeats_def copy_at_def)
qed

subsection \<open>Device names\<close>

lemma deviceNameFromType_Inr:
  "deviceNameFromType es d = Inr name \<Longrightarrow>
   (name, d) \<in> set es \<and> name \<noteq> ''TS_UNKNOWN_DEVICE'' \<and> name \<noteq> ''TS_DEV_END''"
  by (induction es d rule: deviceNameFromType.induct) (auto split: if_splits)

lemma deviceNameFromType_Inl:
  "deviceNameFromType es d = Inl err \<Longrightarrow>
   err = ErrorText ''unsupported TSMaster device type'' [d] \<and>
   (\<forall>name. (name, d) \<in> set es \<longrightarrow> name = ''TS_UNKNOWN_DEVICE'' \<or> name = ''TS_DEV_END'')"
  by (induction es d rule: deviceNameFromType.induct) (auto split: if_splits)

lemma TSMasterMap_iff: "(name, d) \<in> set TSMasterMap \<longleftrightarrow> 0 \<le> d \<and> d < 72 \<and> name = ts_device_names ! nat d"
proof -
  have n: "length ts_device_names = 72" by (simp add: ts_device_names_def)
  show ?thesis
    unfolding TSMasterMap_def n set_zip by (auto simp: n)
qed

lemma distinct_device_names: "distinct ts_device_names"
  by code_simp

text \<open>
  The name of a device type is the one with its position in the list of device types, for types
  1 to 70, and no other type has one; the order in which Go visits the entries of the map does not
  matter.
\<close>

theorem deviceNameFromType_exact:
  assumes "set entries = set TSMasterMap"
  shows "deviceNameFromType entries d =
    (if 0 < d \<and> d < 71 then Inr (ts_device_names ! nat d)
     else Inl (ErrorText ''unsupported TSMaster device type'' [d]))"
proof -
  have n: "length ts_device_names = 72" and ends: "ts_device_names ! 0 = ''TS_UNKNOWN_DEVICE''"
    "ts_device_names ! 71 = ''TS_DEV_END''"
    by (simp_all add: ts_device_names_def)
  have in_map: "(name, d) \<in> set entries \<longleftrightarrow> 0 \<le> d \<and> d < 72 \<and> name = ts_device_names ! nat d" for name
    using TSMasterMap_iff assms by simp
  have only: "ts_device_names ! nat d = ''TS_UNKNOWN_DEVICE'' \<or> ts_device_names ! nat d = ''TS_DEV_END'' \<longleftrightarrow>
      d = 0 \<or> d = 71" if "0 \<le> d" "d < 72"
    using that nth_eq_iff_index_eq [OF distinct_device_names, of "nat d" 0]
      nth_eq_iff_index_eq [OF distinct_device_names, of "nat d" 71]
    by (auto simp: n ends)
  show ?thesis
  proof (cases "deviceNameFromType entries d")
    case (Inl err)
    have "\<not> (0 < d \<and> d < 71)" using deviceNameFromType_Inl [OF Inl] in_map only by auto
    then show ?thesis using Inl deviceNameFromType_Inl [OF Inl] by auto
  next
    case (Inr name)
    have "0 < d \<and> d < 71" using deviceNameFromType_Inr [OF Inr] in_map only ends by fastforce
    then show ?thesis using Inr deviceNameFromType_Inr [OF Inr] in_map by auto
  qed
qed

theorem deviceNameFromType_exact_witness:
  "deviceNameFromType (rev TSMasterMap) 4 = Inr ''TL1001''"
proof -
  have "set (rev TSMasterMap) = set TSMasterMap" by simp
  from deviceNameFromType_exact [OF this] show ?thesis by (simp add: ts_device_names_def)
qed

end
