(* ===== verification/Hardware_System.thy ===== *)
theory Hardware_System
  imports Hardware_Master Pcan_Properties Vector_Properties Toomoss_Platforms TSMaster_Properties
begin

section \<open>Masters over the adapters\<close>

text \<open>
  The drivers under a master, as instances of \<open>master_hardware\<close>: the adapter runs dry (as in the
  theorems on reads), and no call of the vendor's library turns back the clock. Then every request of
  a master over the adapter returns, whatever the adapter and the bus do.
\<close>

subsection \<open>PCAN\<close>

definition plin_forward :: "'x PLIN \<Rightarrow> bool" where
  "plin_forward api \<longleftrightarrow> (\<forall>x.
     (\<forall>m. lin_now api x \<le> lin_now api (snd (snd (lin_CalculateChecksum api m x)))) \<and>
     (\<forall>c h m. lin_now api x \<le> lin_now api (snd (lin_Write api c h m x))) \<and>
     (\<forall>c h e. lin_now api x \<le> lin_now api (snd (lin_SetFrameEntry api c h e x))) \<and>
     (\<forall>c h i bs. lin_now api x \<le> lin_now api (snd (lin_UpdateByteArray api c h i bs x))))"

lemma plin_forwardD:
  assumes "plin_forward api"
  shows "lin_CalculateChecksum api m x = (code, m', x') \<Longrightarrow> lin_now api x \<le> lin_now api x'"
    and "lin_Write api c h m x = (code, x') \<Longrightarrow> lin_now api x \<le> lin_now api x'"
    and "lin_SetFrameEntry api c h e x = (code, x') \<Longrightarrow> lin_now api x \<le> lin_now api x'"
    and "lin_UpdateByteArray api c h i bs x = (code, x') \<Longrightarrow> lin_now api x \<le> lin_now api x'"
  using assms unfolding plin_forward_def by (metis snd_conv)+

lemma plin_read_clock:
  assumes "plin_runs_dry api backlog" and "lin_Read api client x = (code, m, x')"
  shows "lin_now api x \<le> lin_now api x'"
  using runs_dryD(1) [OF assms(1) [unfolded plin_runs_dry_def, THEN spec], of client x] assms(2)
  by (simp add: plin_poll_def)

lemma pcan_round_clock:
  assumes "plin_runs_dry api backlog" and "pcan_round api timeout c deadline s = Inl (r, s')"
  shows "lin_now api (snd s) \<le> lin_now api (snd s')"
  using assms(2)
  by (cases s)
     (auto simp: pcan_round_def readOne_def Let_def split: option.splits prod.splits if_splits sum.splits
       dest: plin_read_clock [OF assms(1)])

interpretation pcan_quick: quick_polling "plin_runs_dry api backlog" "\<lambda>s. lin_now api (snd s)"
  "pcan_waiting backlog" "\<lambda>s. pcan_good (fst s)" lin_frame "pcan_round api" for api backlog
proof unfold_locales
  fix timeout c deadline and s s' :: "PCAN \<times> 'a" and r :: "error + LinEvent option" and ev
  assume dry: "plin_runs_dry api backlog"
  note run = dry [unfolded plin_runs_dry_def, THEN spec]
  obtain p x where s: "s = (p, x)" by (cases s)
  show "lin_now api (snd s) \<le> lin_now api (snd s')" if "pcan_round api timeout c deadline s = Inl (r, s')"
    for s s' :: "PCAN \<times> 'a" and r
    by (rule pcan_round_clock [OF dry that])
  show "pcan_waiting backlog c s' < pcan_waiting backlog c s"
    if "pcan_round api timeout c deadline s = Inl (Inr (Some ev), s')"
    using that [unfolded s]
  proof (cases rule: pcan_round_cases)
    case (queued e q)
    then have "length (queued (pc_eventChans q) c) < length (queued (pc_eventChans p) c)"
      using queue_get_Some by (fastforce simp: dequeueEvent_def Let_def split: prod.splits)
    then show ?thesis using queued by (simp add: pcan_waiting_def s)
  next
    case (frame q m x')
    then show ?thesis
      using runs_dryD(2) [OF run] dequeueEvent_None [OF frame(1)] by (simp add: pcan_waiting_def s)
  qed auto
qed

lemma pcan_write_forward:
  assumes "plin_forward api" and "pcan_write api m c s = (r, p', x')"
  shows "lin_now api (snd s) \<le> lin_now api x'"
  using assms(2)
  by (cases s)
     (auto simp: pcan_write_def Let_def pcanCall_def split: option.splits prod.splits if_splits
       dest!: plin_forwardD [OF assms(1)])

lemma pcan_calls_forward:
  assumes "plin_forward api"
  shows "lin_now api (snd s) \<le> lin_now api (snd (snd (pcan_WriteMessage api e c s)))"
    and "lin_now api (snd s) \<le> lin_now api (snd (snd (pcan_RequestSlaveResponse api i c s)))"
    and "lin_now api (snd s) \<le> lin_now api (snd (snd (pcan_ScheduleSlaveResponse api e c s)))"
  by (auto simp: pcan_WriteMessage_def pcan_RequestSlaveResponse_def pcan_ScheduleSlaveResponse_def
      pcanCall_def Let_def split: option.splits prod.splits if_splits
      dest!: plin_forwardD [OF assms] pcan_write_forward [OF assms])

lemma pcan_master_hardware:
  assumes "plin_runs_dry api backlog" and "plin_forward api"
  shows "master_hardware (pcan_driver api) (\<lambda>s. lin_now api (snd s)) (pcan_waiting backlog)
    (\<lambda>s. (fst s, lin_sleep api (10 * Millisecond) (snd s)))"
proof
  fix timeout c e i d d' ev r
  show "ReadEvent (pcan_driver api) 0 c d \<noteq> None"
    by (rule pcan_quick.polled_reads(1) [OF assms(1) pcan_polled])
  show "lin_now api (snd d) \<le> lin_now api (snd d')" if "ReadEvent (pcan_driver api) timeout c d = Some (r, d')"
    by (rule pcan_quick.polled_reads(2) [OF assms(1) pcan_polled that])
  show "pcan_waiting backlog c d' < pcan_waiting backlog c d"
    if "ReadEvent (pcan_driver api) 0 c d = Some (Inr (Some ev), d')"
    using pcan_quick.polled_reads(3) [OF assms(1) pcan_polled that] .
  show "lin_now api (snd d) < lin_now api (snd (fst d, lin_sleep api (10 * Millisecond) (snd d)))"
    using runs_dryD(3) [OF assms(1) [unfolded plin_runs_dry_def, THEN spec]] by simp
qed (simp_all add: pcan_driver_def pcan_calls_forward [OF assms(2)])

subsection \<open>Vector\<close>

definition xl_forward :: "'x XL \<Rightarrow> bool" where
  "xl_forward api \<longleftrightarrow> (\<forall>x port msk i.
     (\<forall>data n chk. xl_now api x \<le> xl_now api (snd (xlLinSetSlave api port msk i data n chk x))) \<and>
     (\<forall>mode. xl_now api x \<le> xl_now api (snd (xlLinSwitchSlave api port msk i mode x))) \<and>
     xl_now api x \<le> xl_now api (snd (xlLinSendRequest api port msk i x)))"

lemma statusArgs_state: "statusArgs operation r = (e, x) \<Longrightarrow> x = snd r"
  by (auto simp: statusArgs_def split_def Let_def split: if_splits)

lemma xl_forwardD:
  assumes "xl_forward api"
  shows "linSetSlaveData api port msk i payload chk x = (e, x') \<Longrightarrow> xl_now api x \<le> xl_now api x'"
    and "linSwitchSlaveMode api port msk i mode x = (e, x') \<Longrightarrow> xl_now api x \<le> xl_now api x'"
    and "linSendRequestForID api port msk i x = (e, x') \<Longrightarrow> xl_now api x \<le> xl_now api x'"
  using assms
  by (auto simp: xl_forward_def linSetSlaveData_def linSwitchSlaveMode_def linSendRequestForID_def Let_def
      dest!: statusArgs_state)

lemma xl_read_clock:
  assumes "xl_runs_dry api backlog" and "xlReceive api port x = (code, n, raw, x')"
  shows "xl_now api x \<le> xl_now api x'"
  using runs_dryD(1) [OF assms(1) [unfolded xl_runs_dry_def, THEN spec], of port x] assms(2)
  by (simp add: xl_poll_def)

lemma vector_round_clock:
  assumes "xl_runs_dry api backlog" and "vector_round api timeout c deadline s = Inl (r, s')"
  shows "xl_now api (snd s) \<le> xl_now api (snd s')"
  using assms(2)
  by (cases s)
     (auto simp: vector_round_def vector_readOne_def Let_def split: option.splits prod.splits if_splits sum.splits
       dest: xl_read_clock [OF assms(1)])

interpretation vector_quick: quick_polling "xl_runs_dry api backlog" "\<lambda>s. xl_now api (snd s)"
  "vector_waiting backlog" "\<lambda>s. vector_good (fst s)" lin_frame "vector_round api" for api backlog
proof unfold_locales
  fix timeout c deadline and s s' :: "Vector \<times> 'a" and r :: "error + LinEvent option" and ev
  assume dry: "xl_runs_dry api backlog"
  note run = dry [unfolded xl_runs_dry_def, THEN spec]
  obtain v x where s: "s = (v, x)" by (cases s)
  show "xl_now api (snd s) \<le> xl_now api (snd s')" if "vector_round api timeout c deadline s = Inl (r, s')"
    for s s' :: "Vector \<times> 'a" and r
    by (rule vector_round_clock [OF dry that])
  show "vector_waiting backlog c s' < vector_waiting backlog c s"
    if "vector_round api timeout c deadline s = Inl (Inr (Some ev), s')"
    using that [unfolded s]
  proof (cases rule: vector_round_cases)
    case (queued e q)
    then have "length (queued (v_eventChans q) c) < length (queued (v_eventChans v) c)"
      using queue_get_Some by (fastforce simp: vector_dequeueEvent_def Let_def split: prod.splits)
    then show ?thesis using queued by (simp add: vector_waiting_def s)
  next
    case (frame q m x')
    then show ?thesis
      using runs_dryD(2) [OF run] vector_dequeueEvent_None [OF frame(1)] by (simp add: vector_waiting_def s)
  qed auto
qed

lemma vector_calls_forward:
  assumes "xl_forward api"
  shows "xl_now api (snd s) \<le> xl_now api (snd (snd (vector_WriteMessage api e c s)))"
    and "xl_now api (snd s) \<le> xl_now api (snd (snd (vector_RequestSlaveResponse api i c s)))"
    and "xl_now api (snd s) \<le> xl_now api (snd (snd (vector_ScheduleSlaveResponse api e c s)))"
  by (auto simp: vector_WriteMessage_def vector_RequestSlaveResponse_def vector_ScheduleSlaveResponse_def
      Let_def split: option.splits prod.splits if_splits dest!: xl_forwardD [OF assms])

lemma vector_master_hardware:
  assumes "xl_runs_dry api backlog" and "xl_forward api"
  shows "master_hardware (vector_driver api) (\<lambda>s. xl_now api (snd s)) (vector_waiting backlog)
    (\<lambda>s. (fst s, xl_sleep api (10 * Millisecond) (snd s)))"
proof
  fix timeout c e i d d' ev r
  show "ReadEvent (vector_driver api) 0 c d \<noteq> None"
    by (rule vector_quick.polled_reads(1) [OF assms(1) vector_polled])
  show "xl_now api (snd d) \<le> xl_now api (snd d')" if "ReadEvent (vector_driver api) timeout c d = Some (r, d')"
    by (rule vector_quick.polled_reads(2) [OF assms(1) vector_polled that])
  show "vector_waiting backlog c d' < vector_waiting backlog c d"
    if "ReadEvent (vector_driver api) 0 c d = Some (Inr (Some ev), d')"
    using vector_quick.polled_reads(3) [OF assms(1) vector_polled that] .
  show "xl_now api (snd d) < xl_now api (snd (fst d, xl_sleep api (10 * Millisecond) (snd d)))"
    using runs_dryD(3) [OF assms(1) [unfolded xl_runs_dry_def, THEN spec]] by simp
qed (simp_all add: vector_driver_def vector_calls_forward [OF assms(2)])

subsection \<open>Toomoss\<close>

text \<open>The operations that both platforms share, over the calls of a platform.\<close>

definition calls_forward :: "('z, 'w) ToomossCalls \<Rightarrow> bool" where
  "calls_forward api \<longleftrightarrow>
     (\<forall>msg out c d w. tc_now api w \<le> tc_now api (snd (snd (tc_sync api msg out c d w))))"

lemma calls_forwardD:
  "calls_forward api \<Longrightarrow> tc_sync api msg out c d w = (ret, out', w') \<Longrightarrow> tc_now api w \<le> tc_now api w'"
  unfolding calls_forward_def by (metis snd_conv)

interpretation toomoss_quick: quick_polling "calls_run_dry api backlog" "\<lambda>s. tc_now api (snd s)"
  "toomoss_waiting backlog" "\<lambda>s. toomoss_good (fst s)" toomoss_frame "toomoss_round api" for api backlog
proof unfold_locales
  fix timeout c deadline and s s' :: "'a Toomoss_scheme \<times> 'b" and r :: "error + LinEvent option" and ev
  assume dry: "calls_run_dry api backlog"
  have data: "tc_now api w \<le> tc_now api w'" "r = Inr ms \<Longrightarrow> backlog w' + length ms \<le> backlog w"
    if "tc_data api c d w = (r, w')" for c d w r w' ms
    using dry that unfolding calls_run_dry_def by blast+
  obtain d w where s: "s = (d, w)" by (cases s)
  show "tc_now api (snd s) \<le> tc_now api (snd s')" if "toomoss_round api timeout c deadline s = Inl (r, s')"
    using that [unfolded s] by (cases rule: toomoss_round_cases) (auto simp: s dest: data(1))
  show "toomoss_waiting backlog c s' < toomoss_waiting backlog c s"
    if "toomoss_round api timeout c deadline s = Inl (Inr (Some ev), s')"
    using that [unfolded s]
  proof (cases rule: toomoss_round_cases)
    case (queued e d1)
    then show ?thesis using toomoss_dequeue_Some [of c d e d1] by (simp add: s toomoss_waiting_def)
  next
    case (batch d1 m ms w1)
    then show ?thesis
      using data(2) [OF batch(2) refl] enqueue_all_length [of c "tc_now api w1" ms d1]
        toomoss_dequeue_None [of c d d1 c]
      by (auto simp: s toomoss_waiting_def)
  qed simp_all
qed

lemma toomoss_polled:
  "\<exists>err q. tc_now api (snd q) = tc_now api (snd s) \<and> toomoss_waiting backlog c q = toomoss_waiting backlog c s \<and>
    ReadEvent (toomoss_driver api) timeout c s = (case err of Some err \<Rightarrow> Some (Inl err, s)
      | None \<Rightarrow> loop (toomoss_round api timeout c (tc_now api (snd s) + timeout)) q)"
  by (intro exI [of _ "toomoss_validateChannel c (fst s)"] exI [of _ "(snd (toomoss_eventChannel c (fst s)), snd s)"])
     (simp add: toomoss_driver_def toomoss_ReadEvent_def [unfolded Let_def] toomoss_waiting_def)

lemma toomoss_calls_forward:
  assumes "calls_forward api"
  shows "tc_now api (snd s) \<le> tc_now api (snd (snd (toomoss_WriteMessage api e c s)))"
    and "tc_now api (snd s) \<le> tc_now api (snd (snd (toomoss_RequestSlaveResponse api i c s)))"
  by (auto simp: toomoss_WriteMessage_def toomoss_RequestSlaveResponse_def Let_def
      split: option.splits prod.splits dest!: calls_forwardD [OF assms])

lemma toomoss_master_hardware:
  assumes "calls_run_dry api backlog" and "calls_forward api"
  shows "master_hardware (toomoss_driver api) (\<lambda>s. tc_now api (snd s)) (toomoss_waiting backlog)
    (\<lambda>s. (fst s, tc_sleep api (10 * Millisecond) (snd s)))"
proof
  fix timeout c e i ev r and d d' :: "'a Toomoss_scheme \<times> 'b"
  show "ReadEvent (toomoss_driver api) 0 c d \<noteq> None"
    by (rule toomoss_quick.polled_reads(1) [OF assms(1) toomoss_polled])
  show "tc_now api (snd d) \<le> tc_now api (snd d')" if "ReadEvent (toomoss_driver api) timeout c d = Some (r, d')"
    by (rule toomoss_quick.polled_reads(2) [OF assms(1) toomoss_polled that])
  show "toomoss_waiting backlog c d' < toomoss_waiting backlog c d"
    if "ReadEvent (toomoss_driver api) 0 c d = Some (Inr (Some ev), d')"
    using toomoss_quick.polled_reads(3) [OF assms(1) toomoss_polled that] .
  have "tc_now api w + 10 * Millisecond \<le> tc_now api (tc_sleep api (10 * Millisecond) w)" for w
    using assms(1) unfolding calls_run_dry_def by simp
  then show "tc_now api (snd d) < tc_now api (snd (fst d, tc_sleep api (10 * Millisecond) (snd d)))"
    by (smt (verit) snd_conv)
qed (simp_all add: toomoss_driver_def toomoss_calls_forward [OF assms(2)] toomoss_ScheduleSlaveResponse_def)

subsection \<open>TSMaster\<close>

text \<open>Between two cycles the callbacks and the receive loop of the driver run.\<close>

definition ts_forward :: "'x TSLib \<Rightarrow> bool" where
  "ts_forward api \<longleftrightarrow> (\<forall>m x. ts_now api x \<le> ts_now api (snd (ts_transmit api m x)))"

definition ts_pause :: "'x TSLib \<Rightarrow> TSMaster \<times> 'x \<Rightarrow> TSMaster \<times> 'x" where
  "ts_pause api s = (let s = ts_turn api s in (fst s, ts_sleep api (10 * Millisecond) (snd s)))"

interpretation ts_quick: quick_polling "ts_runs_dry api backlog" "\<lambda>s. ts_now api (snd s)"
  "ts_waiting backlog" "\<lambda>s. ts_good (fst s)" ts_frame "ts_round api late" for api backlog late
proof unfold_locales
  fix timeout c deadline and s s' :: "TSMaster \<times> 'a" and r :: "error + LinEvent option" and ev
  assume dry: "ts_runs_dry api backlog"
  obtain t x where s: "s = (t, x)" by (cases s)
  obtain q t1 where d: "ts_dequeue c t = (q, t1)" by fastforce
  show "ts_now api (snd s) \<le> ts_now api (snd s')" if "ts_round api late timeout c deadline s = Inl (r, s')"
    using that by (cases q) (auto simp: s d ts_round_def Let_def split: if_splits)
  show "ts_waiting backlog c s' < ts_waiting backlog c s"
    if "ts_round api late timeout c deadline s = Inl (Inr (Some ev), s')"
    using that ts_reads.return_dry [OF dry that]
    by (cases q) (auto simp: s d ts_round_def Let_def split: if_splits)
qed

lemma ts_calls_forward:
  assumes "ts_forward api"
  shows "ts_now api (snd s) \<le> ts_now api (snd (snd (ts_WriteMessage api e c s)))"
    and "ts_now api (snd s) \<le> ts_now api (snd (snd (ts_RequestSlaveResponse api i c s)))"
proof -
  have t: "ts_now api x \<le> ts_now api x'" if "ts_transmit api m x = (r, x')" for m x r x'
    using assms that unfolding ts_forward_def by (metis snd_conv)
  show "ts_now api (snd s) \<le> ts_now api (snd (snd (ts_WriteMessage api e c s)))"
    by (auto simp: ts_WriteMessage_def ts_write_def ts_echo_def Let_def
        split: option.splits prod.splits if_splits dest!: t)
  show "ts_now api (snd s) \<le> ts_now api (snd (snd (ts_RequestSlaveResponse api i c s)))"
    by (auto simp: ts_RequestSlaveResponse_def Let_def split: option.splits prod.splits dest!: t)
qed

lemma ts_master_hardware:
  assumes "ts_runs_dry api backlog" and "ts_forward api"
  shows "master_hardware (ts_driver api late) (\<lambda>s. ts_now api (snd s)) (ts_waiting backlog) (ts_pause api)"
proof
  fix timeout c e i d d' ev r
  show "ReadEvent (ts_driver api late) 0 c d \<noteq> None"
    by (rule ts_quick.polled_reads(1) [OF assms(1) ts_polled])
  show "ts_now api (snd d) \<le> ts_now api (snd d')" if "ReadEvent (ts_driver api late) timeout c d = Some (r, d')"
    by (rule ts_quick.polled_reads(2) [OF assms(1) ts_polled that])
  show "ts_waiting backlog c d' < ts_waiting backlog c d"
    if "ReadEvent (ts_driver api late) 0 c d = Some (Inr (Some ev), d')"
    using ts_quick.polled_reads(3) [OF assms(1) ts_polled that] .
  have "ts_now api (snd d) \<le> ts_now api (snd (ts_turn api d))"
    using ts_turn_time [OF assms(1) refl, of d undefined] by auto
  moreover have "ts_now api x < ts_now api (ts_sleep api (10 * Millisecond) x)" for x
    using ts_runs_dryD(3) [OF assms(1)] by simp
  ultimately show "ts_now api (snd d) < ts_now api (snd (ts_pause api d))"
    by (smt (verit) ts_pause_def snd_conv)
qed (simp_all add: ts_driver_def ts_calls_forward [OF assms(2)] ts_ScheduleSlaveResponse_def)

subsection \<open>Requests return\<close>

text \<open>A caller of a master over an adapter: the goroutine of the master, then ten milliseconds.\<close>

definition pcan_env :: "'x PLIN \<Rightarrow> (PCAN \<times> 'x \<Rightarrow> nat) \<Rightarrow> (PCAN \<times> 'x) Env" where
  "pcan_env api = hardware_env (pcan_driver api) (\<lambda>s. lin_now api (snd s))
     (\<lambda>s. (fst s, lin_sleep api (10 * Millisecond) (snd s)))"

definition vector_env :: "'x XL \<Rightarrow> (Vector \<times> 'x \<Rightarrow> nat) \<Rightarrow> (Vector \<times> 'x) Env" where
  "vector_env api = hardware_env (vector_driver api) (\<lambda>s. xl_now api (snd s))
     (\<lambda>s. (fst s, xl_sleep api (10 * Millisecond) (snd s)))"

definition toomoss_env ::
    "('z, 'w) ToomossCalls \<Rightarrow> ('z Toomoss_scheme \<times> 'w \<Rightarrow> nat) \<Rightarrow> ('z Toomoss_scheme \<times> 'w) Env" where
  "toomoss_env api = hardware_env (toomoss_driver api) (\<lambda>s. tc_now api (snd s))
     (\<lambda>s. (fst s, tc_sleep api (10 * Millisecond) (snd s)))"

definition ts_env ::
    "'x TSLib \<Rightarrow> (TSMaster \<times> 'x \<Rightarrow> bool) \<Rightarrow> (TSMaster \<times> 'x \<Rightarrow> nat) \<Rightarrow> (TSMaster \<times> 'x) Env" where
  "ts_env api late = hardware_env (ts_driver api late) (\<lambda>s. ts_now api (snd s)) (ts_pause api)"

text \<open>
  C8: Over a PCAN adapter that runs dry, and whose clock no call turns back that a write, a request or a
  scheduled response makes (\<open>plin_forward\<close>), every request of a
  master returns with a response or an error: \<open>ReadByIdentifier\<close>, \<open>AssignSlaveNad\<close>, and a UDS request
  whose context has a deadline, whatever the adapter reports, whichever calls fail, in every state of
  the transport and of the driver. A request that waits on a read of the driver that never returns does
  not return either (it is \<open>None\<close>), so this rests on the end of each such read.
\<close>

theorem pcan_requests_return:
  assumes "plin_runs_dry api backlog" and "plin_forward api"
  shows "(\<exists>r. ReadByIdentifier (pcan_env api pick) identifier supplierID functionID nad timeout m s = Some r) \<and>
    (\<exists>r. AssignSlaveNad (pcan_env api pick) newNad supplierID functionID nad timeout m s = Some r) \<and>
    (\<exists>r. SendAndRecWithContext (pcan_env api pick) (ctx\<lparr>ctx_deadline := Some deadline\<rparr>) payload c s = Some r)"
  unfolding pcan_env_def
  by (rule master_hardware.hardware_requests_return [OF pcan_master_hardware [OF assms]])

theorem pcan_requests_return_witness:
  "\<exists>r. ReadByIdentifier (pcan_env silent_plin (\<lambda>_. 0)) 0 0x7FFF 0xFFFF 0x7F Second (NewMaster [])
     (projr (fst (NewPCAN silent_plin [0] 0)), 0) = Some r"
proof -
  have "plin_runs_dry silent_plin (\<lambda>x. 0)" "plin_forward silent_plin"
    by (simp_all add: plin_runs_dry_def runs_dry_def plin_poll_def plin_forward_def silent_plin_def)
  from pcan_requests_return [OF this] show ?thesis by blast
qed

text \<open>
  The same over a Toomoss adapter on Windows and macOS, over the calls of the platform.
\<close>

theorem toomoss_requests_return:
  assumes "calls_run_dry api backlog" and "calls_forward api"
  shows "(\<exists>r. ReadByIdentifier (toomoss_env api pick) identifier supplierID functionID nad timeout m s = Some r) \<and>
    (\<exists>r. AssignSlaveNad (toomoss_env api pick) newNad supplierID functionID nad timeout m s = Some r) \<and>
    (\<exists>r. SendAndRecWithContext (toomoss_env api pick) (ctx\<lparr>ctx_deadline := Some deadline\<rparr>) payload c s = Some r)"
  unfolding toomoss_env_def
  by (rule master_hardware.hardware_requests_return [OF toomoss_master_hardware [OF assms]])

definition silent_calls :: "(unit, int) ToomossCalls" where
  "silent_calls = \<lparr>tc_sync = \<lambda>msg out c d w. (0, out, w), tc_data = \<lambda>c d w. (Inr [], w),
     tc_now = \<lambda>w. w, tc_sleep = \<lambda>t w. w + t\<rparr>"

theorem toomoss_requests_return_witness:
  "\<exists>r. ReadByIdentifier (toomoss_env silent_calls (\<lambda>_. 0)) 0 0x7FFF 0xFFFF 0x7F Second (NewMaster [])
     (\<lparr>tm_closed = False, tm_closeOnce = False, tm_channels = [0], tm_eventChans = \<lambda>_. None,
       tm_panicked = False, \<dots> = ()\<rparr>, 0) = Some r"
proof -
  have "calls_run_dry silent_calls (\<lambda>x. 0)" "calls_forward silent_calls"
    by (simp_all add: calls_run_dry_def calls_forward_def silent_calls_def)
  from toomoss_requests_return [OF this] show ?thesis by blast
qed

text \<open>The same over a Vector adapter.\<close>

theorem vector_requests_return:
  assumes "xl_runs_dry api backlog" and "xl_forward api"
  shows "(\<exists>r. ReadByIdentifier (vector_env api pick) identifier supplierID functionID nad timeout m s = Some r) \<and>
    (\<exists>r. AssignSlaveNad (vector_env api pick) newNad supplierID functionID nad timeout m s = Some r) \<and>
    (\<exists>r. SendAndRecWithContext (vector_env api pick) (ctx\<lparr>ctx_deadline := Some deadline\<rparr>) payload c s = Some r)"
  unfolding vector_env_def
  by (rule master_hardware.hardware_requests_return [OF vector_master_hardware [OF assms]])

text \<open>
  The same over a TSMaster adapter, whose callbacks and receive loop deliver the frames between the
  cycles of the master.
\<close>

theorem ts_requests_return:
  assumes "ts_runs_dry api backlog" and "ts_forward api"
  shows "(\<exists>r. ReadByIdentifier (ts_env api late pick) identifier supplierID functionID nad timeout m s = Some r) \<and>
    (\<exists>r. AssignSlaveNad (ts_env api late pick) newNad supplierID functionID nad timeout m s = Some r) \<and>
    (\<exists>r. SendAndRecWithContext (ts_env api late pick) (ctx\<lparr>ctx_deadline := Some deadline\<rparr>) payload c s = Some r)"
  unfolding ts_env_def
  by (rule master_hardware.hardware_requests_return [OF ts_master_hardware [OF assms]])

theorem ts_requests_return_witness:
  "\<exists>r. AssignSlaveNad (ts_env silent_ts (\<lambda>_. True) (\<lambda>_. 0)) 0x22 0x7FFF 0xFFFF 0x7F Second (NewMaster [])
     (silent_tsmaster, 0) = Some r"
proof -
  have "ts_runs_dry silent_ts (\<lambda>x. 0)" "ts_forward silent_ts"
    by (simp_all add: ts_runs_dry_def ts_forward_def silent_ts_def)
  from ts_requests_return [OF this] show ?thesis by blast
qed

end
