(* ===== verification/Log_Text.thy ===== *)
theory Log_Text
  imports Pcan Vector TSMaster
begin

section \<open>Logging and texts\<close>

text \<open>
  The device log of \<^verbatim>\<open>driver/common.go\<close> (\<^verbatim>\<open>SetPrintLog\<close> and the log functions), and the texts of
  the error and mode types: \<^verbatim>\<open>PCANError.Error\<close>, \<^verbatim>\<open>NegativeResponseError.Error\<close>, the
  \<^verbatim>\<open>String\<close> methods of the modes and versions, and the texts that the vendor libraries supply. The
  part of \<^verbatim>\<open>fmt.Sprintf\<close> that they use is modelled (\<open>sprintf\<close>), so that the formats stand here as in
  the code. The log is the list of the lines written; the time stamp that the \<^verbatim>\<open>log\<close> package may put
  before a line is not part of it. The drivers are modelled without their log calls, which change
  nothing else.
\<close>

subsection \<open>Printing\<close>

definition digit :: "nat \<Rightarrow> char" where
  "digit n = ''0123456789ABCDEF'' ! n"

fun show_nat :: "nat \<Rightarrow> string" where
  "show_nat n = (if n < 10 then [digit n] else show_nat (n div 10) @ [digit (n mod 10)])"

declare show_nat.simps [simp del]

definition show_int :: "int \<Rightarrow> string" where
  "show_int i = (if i < 0 then CHR ''-'' # show_nat (nat (- i)) else show_nat (nat i))"

definition hex2 :: "byte \<Rightarrow> string" where
  "hex2 b = [digit (unat b div 16), digit (unat b mod 16)]"

text \<open>\<^verbatim>\<open>% X\<close> of a slice: the bytes in hexadecimal with spaces between.\<close>

fun hex_dump :: "byte list \<Rightarrow> string" where
  "hex_dump [] = []"
| "hex_dump [b] = hex2 b"
| "hex_dump (b # bs) = hex2 b @ '' '' @ hex_dump bs"

datatype fmt_arg = FString string | FInt int | FByte byte | FBytes "byte list"

text \<open>
  The verbs \<^verbatim>\<open>%s\<close>, \<^verbatim>\<open>%d\<close>, \<^verbatim>\<open>%02X\<close> of a byte and \<^verbatim>\<open>% X\<close>. Every format of the code has the
  arguments its verbs ask for; where they do not fit, the verb is printed as it is.
\<close>

fun sprintf :: "string \<Rightarrow> fmt_arg list \<Rightarrow> string" where
  "sprintf [] as = []"
| "sprintf (c # f) [] = c # sprintf f []"
| "sprintf (c # f) (a # as) =
     (if c \<noteq> CHR ''%'' then c # sprintf f (a # as)
      else case a of
        FString s \<Rightarrow> if take 1 f = ''s'' then s @ sprintf (drop 1 f) as else c # sprintf f (a # as)
      | FInt i \<Rightarrow> if take 1 f = ''d'' then show_int i @ sprintf (drop 1 f) as else c # sprintf f (a # as)
      | FByte b \<Rightarrow> if take 3 f = ''02X'' then hex2 b @ sprintf (drop 3 f) as else c # sprintf f (a # as)
      | FBytes bs \<Rightarrow> if take 2 f = '' X'' then hex_dump bs @ sprintf (drop 2 f) as else c # sprintf f (a # as))"

subsection \<open>The device log\<close>

abbreviation (input) logDevicePCAN :: string where "logDevicePCAN \<equiv> ''PCAN''"
abbreviation (input) logDeviceToomoss :: string where "logDeviceToomoss \<equiv> ''TOOMOSS''"
abbreviation (input) logDeviceTSMaster :: string where "logDeviceTSMaster \<equiv> ''TSMASTER''"
abbreviation (input) logDeviceVector :: string where "logDeviceVector \<equiv> ''VECTOR''"

record Log =
  printLog :: bool
  log_lines :: "string list"

definition SetPrintLog :: "bool \<Rightarrow> Log \<Rightarrow> Log" where
  "SetPrintLog enabled l = l\<lparr>printLog := enabled\<rparr>"

definition printLogEnabled :: "Log \<Rightarrow> bool" where
  "printLogEnabled l = printLog l"

definition logDriverf :: "string \<Rightarrow> string \<Rightarrow> fmt_arg list \<Rightarrow> Log \<Rightarrow> Log" where
  "logDriverf device format as l =
     (if \<not> printLogEnabled l then l
      else l\<lparr>log_lines := log_lines l @ [sprintf (''[%s] '' @ format) (FString device # as)]\<rparr>)"

definition logLINMessage :: "string \<Rightarrow> string \<Rightarrow> Channel \<Rightarrow> byte \<Rightarrow> byte \<Rightarrow> byte list \<Rightarrow> Log \<Rightarrow> Log" where
  "logLINMessage device direction channel i checksum data =
     logDriverf device ''LIN direction=%s channel=%d id=0x%02X length=%d checksum=0x%02X data=% X''
       [FString direction, FInt (uint channel), FByte i, FInt (int (length data)), FByte checksum,
        FBytes data]"

definition logLINHeader :: "string \<Rightarrow> Channel \<Rightarrow> byte \<Rightarrow> byte \<Rightarrow> Log \<Rightarrow> Log" where
  "logLINHeader device channel i len =
     logDriverf device ''LIN direction=TX_HEADER channel=%d id=0x%02X length=%d''
       [FInt (uint channel), FByte i, FInt (uint len)]"

definition logLINNoResponse :: "string \<Rightarrow> Channel \<Rightarrow> byte \<Rightarrow> Log \<Rightarrow> Log" where
  "logLINNoResponse device channel i =
     logDriverf device ''LIN direction=RX channel=%d id=0x%02X status=no_response''
       [FInt (uint channel), FByte i]"

subsection \<open>Texts of errors and modes\<close>

definition NegativeResponseError_Error :: "byte \<Rightarrow> byte \<Rightarrow> string" where
  "NegativeResponseError_Error requestedSID nrc =
     sprintf ''negative response: SID=0x%02X, NRC=0x%02X'' [FByte requestedSID, FByte nrc]"

definition PCANError_Error :: "u32 \<Rightarrow> string" where
  "PCANError_Error e =
     (case pcanErrorNames e of
        Some name \<Rightarrow> sprintf ''%s (%d)'' [FString name, FInt (uint e)]
      | None \<Rightarrow> sprintf ''PLIN error %d'' [FInt (uint e)])"

definition PCANMode_String :: "PCANMode \<Rightarrow> string" where
  "PCANMode_String m =
     (if m = PCANMaster then ''master'' else if m = PCANSlave then ''slave''
      else sprintf ''mode(%d)'' [FInt (uint m)])"

definition VectorLINMode_String :: "VectorLINMode \<Rightarrow> string" where
  "VectorLINMode_String m =
     (if m = VectorLINMaster then ''master'' else if m = VectorLINSlave then ''slave''
      else sprintf ''mode(%d)'' [FInt (uint m)])"

definition VectorLINVersion_String :: "VectorLINVersion \<Rightarrow> string" where
  "VectorLINVersion_String v =
     (if v = VectorLINVersion13 then ''1.3'' else if v = VectorLINVersion20 then ''2.0''
      else if v = VectorLINVersion21 then ''2.1'' else sprintf ''version(%d)'' [FInt (uint v)])"

text \<open>
  The text of a status of the XL library: \<open>getErrorString\<close> is the library's function when it was
  found, and gives no text for a null pointer.
\<close>

definition vector_errorString :: "(XLstatus \<Rightarrow> string option) option \<Rightarrow> XLstatus \<Rightarrow> string" where
  "vector_errorString getErrorString status =
     (case getErrorString of
        None \<Rightarrow> sprintf ''XLstatus %d'' [FInt (sint status)]
      | Some call \<Rightarrow>
          (case call status of
             None \<Rightarrow> sprintf ''XLstatus %d'' [FInt (sint status)]
           | Some description \<Rightarrow> sprintf ''%s (XLstatus %d)'' [FString description, FInt (sint status)]))"

text \<open>The same for TSMaster: the procedure reports its own code and a description, or a null pointer.\<close>

definition ts_errorText :: "(u64 \<Rightarrow> u64 \<times> string option) option \<Rightarrow> TSMaster \<Rightarrow> u64 \<Rightarrow> string" where
  "ts_errorText proc t code =
     (if \<not> ts_loader t \<or> code = 0 then ''''
      else case proc of
             None \<Rightarrow> ''''
           | Some call \<Rightarrow>
               (case call code of
                  (r, Some description) \<Rightarrow> if r \<noteq> 0 then '''' else description
                | (r, None) \<Rightarrow> ''''))"

definition ts_Errors :: "TSMaster \<Rightarrow> error chan" where
  "ts_Errors t = ts_errCh t"

subsection \<open>Reading the log back\<close>

definition decimal :: "char \<Rightarrow> bool" where
  "decimal c \<longleftrightarrow> c \<in> set ''0123456789''"

definition digit_value :: "char \<Rightarrow> nat" where
  "digit_value c = (if decimal c then of_char c - 48 else of_char c - 55)"

definition read_nat :: "string \<Rightarrow> nat" where
  "read_nat = foldl (\<lambda>n c. 10 * n + digit_value c) 0"

lemma digit_cases: "n < 16 \<Longrightarrow> digit_value (digit n) = n \<and> (decimal (digit n) \<longleftrightarrow> n < 10)"
proof -
  have "list_all (\<lambda>n. digit_value (digit n) = n \<and> (decimal (digit n) \<longleftrightarrow> n < 10)) [0..<16]"
    by code_simp
  moreover assume "n < 16"
  ultimately show ?thesis by (simp add: list_all_iff)
qed

lemma read_nat_snoc: "read_nat (s @ [c]) = 10 * read_nat s + digit_value c"
  by (simp add: read_nat_def)

lemma show_nat_decimal: "c \<in> set (show_nat n) \<Longrightarrow> decimal c"
proof (induction n rule: show_nat.induct)
  case (1 n)
  then show ?case
    by (subst (asm) (2) show_nat.simps) (auto simp: digit_cases split: if_splits)
qed

lemma read_show_nat: "read_nat (show_nat n) = n"
proof (induction n rule: show_nat.induct)
  case (1 n)
  then show ?case
    by (subst show_nat.simps) (simp add: read_nat_snoc digit_cases, simp add: read_nat_def digit_cases)
qed

lemma show_nat_prefix:
  assumes "show_nat m @ x = show_nat n @ y" and "x = [] \<or> \<not> decimal (hd x)" and "y = [] \<or> \<not> decimal (hd y)"
  shows "m = n \<and> x = y"
proof -
  have take: "takeWhile decimal (show_nat k @ z) = show_nat k" if "z = [] \<or> \<not> decimal (hd z)" for k z
    using that by (cases z) (auto simp: takeWhile_append2 show_nat_decimal takeWhile_eq_all_conv)
  have "show_nat m = show_nat n"
    using take [OF assms(2), of m] take [OF assms(3), of n] assms(1) by simp
  then show ?thesis using assms(1) read_show_nat by (metis same_append_eq)
qed

lemma digit_inj: "m < 16 \<Longrightarrow> n < 16 \<Longrightarrow> digit m = digit n \<Longrightarrow> m = n"
  using digit_cases by metis

lemma hex2_inj: "hex2 a = hex2 b \<longleftrightarrow> a = b"
proof
  assume eq: "hex2 a = hex2 b"
  have "unat a div 16 < 16" "unat b div 16 < 16"
    using unat_byte_less [of a] unat_byte_less [of b] by linarith+
  then have "unat a div 16 = unat b div 16"
    using eq by (intro digit_inj) (simp_all add: hex2_def)
  moreover have "unat a mod 16 = unat b mod 16"
    using eq by (intro digit_inj) (simp_all add: hex2_def)
  ultimately have "unat a = unat b" by (metis div_mult_mod_eq)
  then show "a = b" using unsigned_word_eqI by blast
qed simp

lemma length_hex2 [simp]: "length (hex2 b) = 2"
  by (simp add: hex2_def)

lemma hex_dump_Cons: "hex_dump (b # bs) = hex2 b @ (if bs = [] then [] else CHR '' '' # hex_dump bs)"
  by (cases bs) simp_all

lemma hex_dump_inj: "hex_dump bs = hex_dump cs \<Longrightarrow> bs = cs"
proof (induction bs arbitrary: cs)
  case Nil
  then show ?case by (cases cs) (simp_all add: hex_dump_Cons hex2_def)
next
  case (Cons b bs)
  then obtain c cs' where cs: "cs = c # cs'" by (cases cs) (simp_all add: hex_dump_Cons hex2_def)
  then have "hex2 b = hex2 c" and
    "(if bs = [] then [] else CHR '' '' # hex_dump bs) = (if cs' = [] then [] else CHR '' '' # hex_dump cs')"
    using Cons.prems by (simp_all add: hex_dump_Cons append_eq_append_conv)
  then show ?case using Cons.IH [of cs'] cs by (auto simp: hex2_inj split: if_splits)
qed

lemma show_byte: "show_int (uint (b :: byte)) = show_nat (unat b)" "show_int (int n) = show_nat n"
  by (simp_all add: show_int_def)

text \<open>A line of the log, spelled out.\<close>

lemma sprintf_lit: "sprintf [] as = []" "c \<noteq> CHR ''%'' \<Longrightarrow> sprintf (c # f) as = c # sprintf f as"
  by (cases as; simp)+

lemma sprintf_verb:
  "sprintf (CHR ''%'' # CHR ''s'' # f) (FString s # as) = s @ sprintf f as"
  "sprintf (CHR ''%'' # CHR ''d'' # f) (FInt i # as) = show_int i @ sprintf f as"
  "sprintf (CHR ''%'' # CHR ''0'' # CHR ''2'' # CHR ''X'' # f) (FByte b # as) = hex2 b @ sprintf f as"
  "sprintf (CHR ''%'' # CHR '' '' # CHR ''X'' # f) (FBytes bs # as) = hex_dump bs @ sprintf f as"
  by simp_all

declare sprintf.simps [simp del]

lemmas sprintf_run = sprintf_verb sprintf_lit

lemma logLINMessage_line:
  "printLog l \<Longrightarrow> log_lines (logLINMessage device direction c i k data l) = log_lines l @
     [''['' @ device @ ''] LIN direction='' @ direction @ '' channel='' @ show_nat (unat c) @
      '' id=0x'' @ hex2 i @ '' length='' @ show_nat (length data) @ '' checksum=0x'' @ hex2 k @
      '' data='' @ hex_dump data]"
  by (simp add: logLINMessage_def logDriverf_def printLogEnabled_def show_byte sprintf_run)

text \<open>
  C20: The log of a frame can be read back: while logging is on, two frames of one device and one
  direction are logged as the same line only if channel, identifier, checksum and data are the same.
  While logging is off, nothing is logged.
\<close>

theorem log_line_identifies_frame:
  "log_lines (logLINMessage device direction c i k data l) =
     log_lines (logLINMessage device direction c' i' k' data' l) \<longleftrightarrow>
   printLog l = False \<or> (c = c' \<and> i = i' \<and> k = k' \<and> data = data')"
proof (cases "printLog l")
  case False
  then show ?thesis by (simp add: logLINMessage_def logDriverf_def printLogEnabled_def)
next
  case True
  have "c = c' \<and> i = i' \<and> k = k' \<and> data = data'"
    if eq: "log_lines (logLINMessage device direction c i k data l) =
      log_lines (logLINMessage device direction c' i' k' data' l)"
  proof -
    let ?tail = "\<lambda>k data. '' checksum=0x'' @ hex2 k @ '' data='' @ hex_dump data"
    let ?mid = "\<lambda>i k data. '' id=0x'' @ hex2 i @ '' length='' @ show_nat (length data) @ ?tail k data"
    have "show_nat (unat c) @ ?mid i k data = show_nat (unat c') @ ?mid i' k' data'"
      using eq by (simp add: logLINMessage_line [OF True])
    then have "unat c = unat c' \<and> ?mid i k data = ?mid i' k' data'"
      by (rule show_nat_prefix) (simp_all add: decimal_def)
    then have "c = c'" and mid: "?mid i k data = ?mid i' k' data'"
      using unsigned_word_eqI by blast+
    then have "hex2 i = hex2 i'" and
      "show_nat (length data) @ ?tail k data = show_nat (length data') @ ?tail k' data'"
      by (simp_all add: hex2_def)
    then have "i = i'" and "?tail k data = ?tail k' data'"
      using show_nat_prefix [of "length data" "?tail k data" "length data'" "?tail k' data'"]
      by (simp_all add: hex2_inj decimal_def)
    then show ?thesis using \<open>c = c'\<close> hex_dump_inj by (auto simp: hex2_inj append_eq_append_conv)
  qed
  then show ?thesis using True by blast
qed

text \<open>The line that the test of the repository expects.\<close>

lemma log_line_example:
  "log_lines (logLINMessage logDevicePCAN ''RX'' 2 0x3D 0xA5 [1, 2] (SetPrintLog True \<lparr>printLog = False, log_lines = []\<rparr>)) =
   [''[PCAN] LIN direction=RX channel=2 id=0x3D length=2 checksum=0xA5 data=01 02'']"
  by (simp add: SetPrintLog_def logLINMessage_line hex2_def digit_def show_nat.simps)

text \<open>
  Negative responses with different services or codes have different texts, and the text of a PCAN
  error tells its code when the code has no name.
\<close>

lemma NegativeResponseError_Error_inj:
  "NegativeResponseError_Error s n = NegativeResponseError_Error s' n' \<longleftrightarrow> s = s' \<and> n = n'"
proof -
  have "NegativeResponseError_Error s n = ''negative response: SID=0x'' @ hex2 s @ '', NRC=0x'' @ hex2 n" for s n
    by (simp add: NegativeResponseError_Error_def sprintf_run)
  then show ?thesis by (simp add: hex2_inj append_eq_append_conv)
qed

end
