(* ===== verification/Toomoss_Libraries.thy ===== *)
theory Toomoss_Libraries
  imports Toomoss_Platforms "HOL-Library.Multiset"
begin

section \<open>The libraries of the Toomoss driver on macOS\<close>

text \<open>
  The handles of the two dynamic libraries: whatever is missing and whichever call fails, the driver
  keeps both or none, and gives back what it does not keep.
\<close>

text \<open>What the dynamic loader does: it counts the handles given out; no other call does.\<close>

definition tracks_handles :: "'x USB2XXX_dylib \<Rightarrow> ('x \<Rightarrow> u64 multiset) \<Rightarrow> bool" where
  "tracks_handles api held \<longleftrightarrow>
     (\<forall>p x h x'. dl_open api p x = (h, x') \<longrightarrow> held x' = (if h = 0 then held x else add_mset h (held x))) \<and>
     (\<forall>h x. held (dl_close api h x) = held x - {#h#}) \<and>
     (\<forall>h n x a e x'. dl_sym api h n x = (a, e, x') \<longrightarrow> held x' = held x) \<and>
     (\<forall>x r h x'. c_ScanDevice api x = (r, h, x') \<longrightarrow> held x' = held x) \<and>
     (\<forall>h x r x'. c_OpenDevice api h x = (r, x') \<longrightarrow> held x' = held x) \<and>
     (\<forall>h x r x'. c_CloseDevice api h x = (r, x') \<longrightarrow> held x' = held x) \<and>
     (\<forall>h c b m x r x'. c_Init api h c b m x = (r, x') \<longrightarrow> held x' = held x)"

text \<open>
  The two handles are kept or not at the same time, the flag says which, and while they are kept
  every function has its address; \<open>rest\<close> are the handles of the rest of the program.
\<close>

definition handle :: "u64 \<Rightarrow> u64 multiset" where
  "handle h = (if h = 0 then {#} else {#h#})"

definition all_symbols :: "DarwinGlobals \<Rightarrow> bool" where
  "all_symbols g \<longleftrightarrow> pUSB_ScanDevice g \<noteq> 0 \<and> pUSB_OpenDevice g \<noteq> 0 \<and> pUSB_CloseDevice g \<noteq> 0 \<and>
     pLIN_EX_Init g \<noteq> 0 \<and> pLIN_EX_MasterSync g \<noteq> 0 \<and> pLIN_EX_SlaveGetData g \<noteq> 0"

definition libraries_balanced :: "('x \<Rightarrow> u64 multiset) \<Rightarrow> u64 multiset \<Rightarrow> DarwinGlobals \<times> 'x \<Rightarrow> bool" where
  "libraries_balanced held rest w \<longleftrightarrow>
     (let (g, x) = w in held x = rest + handle (g_libusb g) + handle (g_usb2xxx g) \<and>
        (g_libusb g = 0 \<longleftrightarrow> g_usb2xxx g = 0) \<and> (toomossLoaded g \<longleftrightarrow> g_usb2xxx g \<noteq> 0) \<and>
        (toomossLoaded g \<longrightarrow> all_symbols g))"

lemma tracks_handlesD:
  assumes "tracks_handles api held"
  shows "dl_open api p x = (h, x') \<Longrightarrow> held x' = held x + handle h"
    and "held (dl_close api h x) = held x - {#h#}"
    and "dl_sym api h n x = (a, e, x') \<Longrightarrow> held x' = held x"
    and "c_ScanDevice api x = (r, h', x') \<Longrightarrow> held x' = held x"
    and "c_OpenDevice api h' x = (ok, x') \<Longrightarrow> held x' = held x"
    and "c_CloseDevice api h' x = (ok, x') \<Longrightarrow> held x' = held x"
    and "c_Init api h' c b m x = (r, x') \<Longrightarrow> held x' = held x"
  using assms unfolding tracks_handles_def handle_def by simp_all

lemma unload_balanced:
  assumes "tracks_handles api held" and "held x = rest + handle (g_libusb g) + handle (g_usb2xxx g)"
    and "lin_toomoss_unload api (g, x) = (g', x')"
  shows "held x' = rest \<and> g_libusb g' = 0 \<and> g_usb2xxx g' = 0 \<and> toomossLoaded g' = toomossLoaded g"
  using assms(2,3)
  by (auto simp: lin_toomoss_unload_def handle_def tracks_handlesD(2) [OF assms(1)] Let_def split: if_splits)

definition library_part :: "DarwinGlobals \<Rightarrow> u64 \<times> u64 \<times> bool" where
  "library_part g = (g_libusb g, g_usb2xxx g, toomossLoaded g)"

lemma load_symbols_cases:
  assumes "tracks_handles api held" and "load_symbols api syms (g, x) = (r, g', x')"
    and "\<And>s a g. s \<in> set syms \<Longrightarrow> library_part (snd s a g) = library_part g"
  shows "if r = None
    then held x' = held x \<and> library_part g' = library_part g \<and>
      (\<exists>as. length as = length syms \<and> 0 \<notin> set as \<and> g' = fold (\<lambda>(s, a). snd s a) (zip syms as) g)
    else \<exists>g1 x1. lin_toomoss_unload api (g1, x1) = (g', x') \<and> held x1 = held x \<and>
      library_part g1 = library_part g"
  using assms(2,3)
proof (induction syms arbitrary: g x)
  case (Cons s syms)
  obtain name store where s: "s = (name, store)" by (cases s)
  obtain a e y where d: "dl_sym api (g_usb2xxx g) name x = (a, e, y)" by (metis surj_pair)
  have h: "held y = held x" by (rule tracks_handlesD(3) [OF assms(1) d])
  have l: "library_part (store a g) = library_part g" using Cons.prems(2) [of s a g] by (simp add: s)
  show ?case
  proof (cases "e \<or> a = 0")
    case True
    then have "r \<noteq> None \<and> lin_toomoss_unload api (store a g, y) = (g', x')"
      using Cons.prems(1) by (auto simp: s d Let_def)
    then show ?thesis using h l by auto
  next
    case False
    then have run: "load_symbols api syms (store a g, y) = (r, g', x')"
      using Cons.prems(1) by (simp add: s d Let_def)
    note IH = Cons.IH [OF run Cons.prems(2)]
    show ?thesis
    proof (cases r)
      case None
      with IH obtain as where as: "held x' = held y" "library_part g' = library_part (store a g)"
        "length as = length syms" "0 \<notin> set as" "g' = fold (\<lambda>(s, a). snd s a) (zip syms as) (store a g)" by auto
      then have "length (a # as) = length (s # syms) \<and> 0 \<notin> set (a # as) \<and>
        g' = fold (\<lambda>(s, a). snd s a) (zip (s # syms) (a # as)) g" using False by (simp add: s)
      then show ?thesis using None as(1,2) h l by (simp only: if_True refl) blast
    qed (use IH h l in auto)
  qed
qed simp

lemma load_balanced:
  assumes "tracks_handles api held" and "libraries_balanced held rest (g, x)" and "\<not> toomossLoaded g"
    and "lin_toomoss_load api p q (g, x) = (r, g', x')"
  shows "held x' = rest + handle (g_libusb g') + handle (g_usb2xxx g') \<and>
    (g_libusb g' = 0 \<longleftrightarrow> g_usb2xxx g' = 0) \<and> \<not> toomossLoaded g' \<and>
    (if r = None then g_usb2xxx g' \<noteq> 0 \<and> all_symbols g' else g_usb2xxx g' = 0)"
proof -
  have b: "held x = rest" "g_libusb g = 0" "g_usb2xxx g = 0"
    using assms(2,3) by (auto simp: libraries_balanced_def handle_def)
  obtain h1 y where h1: "dl_open api p x = (h1, y)" by (metis surj_pair)
  obtain h2 z where h2: "dl_open api q y = (h2, z)" by (metis surj_pair)
  have y: "held y = rest + handle h1" and z: "held z = held y + handle h2"
    using tracks_handlesD(1) [OF assms(1) h1] tracks_handlesD(1) [OF assms(1) h2] b(1) by simp_all
  note close = tracks_handlesD(2) [OF assms(1)]
  show ?thesis
  proof (cases "h1 = 0 \<or> h2 = 0")
    case True
    then show ?thesis
      using assms(3,4) b y z h1 h2 by (auto simp: lin_toomoss_load_def Let_def handle_def close split: if_splits)
  next
    case False
    let ?g = "g\<lparr>g_libusb := h1, g_usb2xxx := h2\<rparr>"
    have run: "load_symbols api toomoss_symbols (?g, z) = (r, g', x')"
      using assms(4) b h1 h2 False by (simp add: lin_toomoss_load_def Let_def)
    have six_syms: "length toomoss_symbols = 6" by (simp add: toomoss_symbols_def)
    have "library_part (snd s a g) = library_part g" if "s \<in> set toomoss_symbols" for s a g
      using that by (auto simp: toomoss_symbols_def library_part_def)
    from load_symbols_cases [OF assms(1) run this] show ?thesis
    proof (cases r)
      case None
      with load_symbols_cases [OF assms(1) run \<open>\<And>s a g. s \<in> set toomoss_symbols \<Longrightarrow> library_part (snd s a g) = library_part g\<close>]
      obtain as where as: "held x' = held z" "library_part g' = library_part ?g" "length as = 6" "0 \<notin> set as"
        "g' = fold (\<lambda>(s, a). snd s a) (zip toomoss_symbols as) ?g" by (auto simp: six_syms)
      then have "all_symbols g'" by (auto simp: six toomoss_symbols_def all_symbols_def)
      then show ?thesis using None as(1,2) False y z assms(3) by (simp add: library_part_def)
    next
      case (Some err)
      with load_symbols_cases [OF assms(1) run \<open>\<And>s a g. s \<in> set toomoss_symbols \<Longrightarrow> library_part (snd s a g) = library_part g\<close>]
      obtain g1 x1 where u: "lin_toomoss_unload api (g1, x1) = (g', x')" "held x1 = held z"
        "library_part g1 = library_part ?g" by auto
      have "held x1 = rest + handle (g_libusb g1) + handle (g_usb2xxx g1)"
        using u(2,3) y z by (simp add: library_part_def)
      from unload_balanced [OF assms(1) this u(1)] show ?thesis
        using Some u(3) assms(3) by (simp add: library_part_def handle_def)
    qed
  qed
qed

lemma ensure_balanced:
  assumes "tracks_handles api held" and "libraries_balanced held rest w"
    and "darwin_ensureToomossLoaded api w = (r, w')"
  shows "libraries_balanced held rest w' \<and> (r = None \<longleftrightarrow> toomossLoaded (fst w'))"
proof (cases "toomossLoaded (fst w)")
  case False
  obtain g x where w: "w = (g, x)" by (cases w)
  obtain r1 g1 x1 where l: "lin_toomoss_load api toomossLibusbPath toomossUSB2XXX (g, x) = (r1, g1, x1)"
    by (metis surj_pair)
  from load_balanced [OF assms(1) assms(2) [unfolded w] _ l] show ?thesis
    using assms(3) False
    by (cases r1) (auto simp: w l darwin_ensureToomossLoaded_def libraries_balanced_def all_symbols_def)
qed (use assms in \<open>auto simp: darwin_ensureToomossLoaded_def\<close>)

lemma close_balanced:
  assumes "tracks_handles api held" and "libraries_balanced held rest w" and "darwin_usbClose api w = (r, w')"
  shows "libraries_balanced held rest w' \<and> (r = None \<longrightarrow> \<not> toomossLoaded (fst w') \<and> held (snd w') = rest)"
proof (cases "toomossLoaded (fst w)")
  case True
  obtain g x where w: "w = (g, x)" by (cases w)
  obtain ret g1 x1 where c: "lin_toomoss_usb_close_device api (g, x) = (ret, g1, x1)" by (metis surj_pair)
  have same: "g1 = g" "held x1 = held x"
    using c tracks_handlesD(6) [OF assms(1)]
    by (auto simp: lin_toomoss_usb_close_device_def split: if_splits prod.splits)
  obtain g2 x2 where u: "lin_toomoss_unload api (g, x1) = (g2, x2)" by (metis surj_pair)
  have "held x1 = rest + handle (g_libusb g) + handle (g_usb2xxx g)"
    using assms(2) same by (simp add: w libraries_balanced_def)
  from unload_balanced [OF assms(1) this u] show ?thesis
    using assms(2,3) True same
    by (auto simp: w c same u darwin_usbClose_def libraries_balanced_def darwin_resetToomossState_def handle_def Let_def
        split: if_splits)
qed (use assms in \<open>auto simp: darwin_usbClose_def libraries_balanced_def handle_def split: prod.splits\<close>)

lemma call_balanced:
  assumes "tracks_handles api held" and "libraries_balanced held rest w"
  shows "libraries_balanced held rest (snd (lin_toomoss_usb_scan_device api w))"
    and "libraries_balanced held rest (snd (lin_toomoss_usb_open_device api w))"
    and "libraries_balanced held rest (snd (lin_toomoss_lin_ex_init api c b mode w))"
proof -
  obtain g x where w: "w = (g, x)" by (cases w)
  note h = tracks_handlesD(4,5,7) [OF assms(1)]
  show "libraries_balanced held rest (snd (lin_toomoss_usb_scan_device api w))"
    using assms(2) h(1)
    by (auto simp: w lin_toomoss_usb_scan_device_def libraries_balanced_def all_symbols_def split: prod.splits)
  show "libraries_balanced held rest (snd (lin_toomoss_usb_open_device api w))"
    using assms(2) h(2)
    by (auto simp: w lin_toomoss_usb_open_device_def libraries_balanced_def split: prod.splits)
  show "libraries_balanced held rest (snd (lin_toomoss_lin_ex_init api c b mode w))"
    using assms(2) h(3)
    by (auto simp: w lin_toomoss_lin_ex_init_def libraries_balanced_def split: prod.splits)
qed

lemma scan_open_balanced:
  assumes "tracks_handles api held" and "libraries_balanced held rest w"
  shows "libraries_balanced held rest (snd (darwin_UsbScan api w))"
    and "libraries_balanced held rest (snd (darwin_UsbOpen api w))"
proof -
  obtain r w1 where e: "darwin_ensureToomossLoaded api w = (r, w1)" by (metis surj_pair)
  have b: "libraries_balanced held rest w1" using ensure_balanced [OF assms e] by simp
  note calls = call_balanced [OF assms(1) b]
  show "libraries_balanced held rest (snd (darwin_UsbScan api w))"
    using b calls(1)
    by (cases r) (auto simp: darwin_UsbScan_def darwin_usbScan_def e Let_def split_beta split: sum.splits prod.splits if_splits)
  show "libraries_balanced held rest (snd (darwin_UsbOpen api w))"
    using b calls(2)
    by (cases r) (auto simp: darwin_UsbOpen_def darwin_usbOpen_def e Let_def split_beta split: sum.splits prod.splits)
qed

lemma init_balanced:
  assumes "tracks_handles api held"
  shows "libraries_balanced held rest w \<Longrightarrow> libraries_balanced held rest (snd (darwin_init_channels api mode cs w))"
proof (induction cs arbitrary: w)
  case (Cons c cs)
  obtain ret w1 where i: "lin_toomoss_lin_ex_init api c darwin_Bt mode w = (ret, w1)" by (metis surj_pair)
  obtain r w2 where c: "darwin_usbClose api w1 = (r, w2)" by (metis surj_pair)
  have "libraries_balanced held rest w1"
    using call_balanced(3) [OF assms Cons.prems, of c darwin_Bt mode] by (simp add: i)
  then show ?case using Cons.IH close_balanced [OF assms _ c] by (simp add: i c Let_def)
qed simp

lemma balanced_instance [simp]:
  "libraries_balanced held rest (darwin_instanceActive_update f g, x) = libraries_balanced held rest (g, x)"
  by (simp add: libraries_balanced_def all_symbols_def)

text \<open>
  C30: The libraries on macOS are loaded once and given back. If the driver holds the handles of both
  libraries or none, and has an address for every function while it holds them, then this is
  so after \<open>NewToomoss\<close> and after \<open>Close\<close>, whatever is missing or fails on the
  way; and a \<open>Close\<close> that reports no error has given both back.
\<close>

theorem darwin_libraries_balanced:
  assumes "tracks_handles api held" and "libraries_balanced held rest w"
  shows "libraries_balanced held rest (snd (darwin_NewToomoss api cs mode w)) \<and>
    (case darwin_Close api d w of (err, d', w') \<Rightarrow> libraries_balanced held rest w' \<and>
       (err = None \<and> \<not> tm_closeOnce d \<longrightarrow> held (snd w') = rest \<and> \<not> toomossLoaded (fst w')))"
proof
  obtain r1 w1 where e: "darwin_ensureToomossLoaded api w = (r1, w1)" by (metis surj_pair)
  obtain ok2 w2 where s: "darwin_UsbScan api w1 = (ok2, w2)" by (metis surj_pair)
  obtain ok3 w3 where p: "darwin_UsbOpen api w2 = (ok3, w3)" by (metis surj_pair)
  obtain r4 g4 x4 where i: "darwin_init_channels api mode cs w3 = (r4, g4, x4)" by (metis surj_pair)
  have b1: "libraries_balanced held rest w1" using ensure_balanced [OF assms e] by simp
  have b2: "libraries_balanced held rest w2" using scan_open_balanced(1) [OF assms(1) b1] by (simp add: s)
  have b3: "libraries_balanced held rest w3" using scan_open_balanced(2) [OF assms(1) b2] by (simp add: p)
  have b4: "libraries_balanced held rest (g4, x4)" using init_balanced [OF assms(1) b3, of mode cs] by (simp add: i)
  show "libraries_balanced held rest (snd (darwin_NewToomoss api cs mode w))"
    using assms(2) b1 b2 b3 b4
    by (cases r1; cases ok2; cases ok3; cases r4)
       (simp_all add: darwin_NewToomoss_def darwin_ensureLinReady_def e s p i Let_def)
next
  obtain r g1 x1 where c: "darwin_usbClose api w = (r, g1, x1)" by (metis surj_pair)
  from close_balanced [OF assms c] assms(2)
  show "case darwin_Close api d w of (err, d', w') \<Rightarrow> libraries_balanced held rest w' \<and>
      (err = None \<and> \<not> tm_closeOnce d \<longrightarrow> held (snd w') = rest \<and> \<not> toomossLoaded (fst w'))"
    by (auto simp: darwin_Close_def c Let_def)
qed

lemma mac_adapter_tracks: "tracks_handles (mac_adapter code) mset"
  by (simp add: tracks_handles_def mac_adapter_def)

theorem darwin_libraries_balanced_witness:
  "case darwin_Close (mac_adapter 0) open_toomoss_mac (ready_darwin, [5, 5]) of
     (err, d', w') \<Rightarrow> libraries_balanced mset {#} w' \<and> (err = None \<longrightarrow> mset (snd w') = {#})"
proof -
  have "libraries_balanced mset {#} (ready_darwin, [5, 5])"
    by (simp add: libraries_balanced_def ready_darwin_def handle_def all_symbols_def)
  from darwin_libraries_balanced [OF mac_adapter_tracks this, of 0 "[]" 0 open_toomoss_mac] show ?thesis
    by (auto simp: open_toomoss_mac_def)
qed

end
