(* ===== verification/Toomoss_Instance.thy ===== *)
theory Toomoss_Instance
  imports Toomoss_Platforms
begin

section \<open>Opening and closing the Toomoss adapter on Windows\<close>

text \<open>
  Which calls on the device \<open>NewToomoss\<close> and \<open>Close\<close> make. \<open>logged\<close> turns any library into one that
  also records them, with the device handle and the codes returned; a call that is neither part of
  opening nor of closing is a \<open>Traffic_call\<close>. Calls of the loader are not recorded (\<open>Toomoss_Platforms\<close>
  has what they establish).
\<close>

datatype usb_call =
    Scan_call
  | Open_call u64 u64 u64
  | Init_call u64 Channel u64 byte u64
  | Stop_call u64 Channel
  | Close_call u64 u64 u64
  | Traffic_call

definition logged_system :: "'x Windows \<Rightarrow> ('x \<times> 'l) Windows" where
  "logged_system w =
     \<lparr>GOARCH = GOARCH w, Getenv = (\<lambda>name (x, l). Getenv w name x), SharedDlls = (\<lambda>view (x, l). SharedDlls w view x),
      Uninstall = (\<lambda>view (x, l). Uninstall w view x), OpenSubkey = (\<lambda>view name (x, l). OpenSubkey w view name x),
      TSMasterValue = (\<lambda>view name (x, l). TSMasterValue w view name x), Stat = (\<lambda>path (x, l). Stat w path x),
      SetDllDirectory = (\<lambda>path (x, l). let (r, x) = SetDllDirectory w path x in (r, x, l)),
      sys_LoadLibrary = (\<lambda>path (x, l). let (r, x) = sys_LoadLibrary w path x in (r, x, l)),
      sys_GetProcAddress = (\<lambda>h name (x, l). let (a, e, x) = sys_GetProcAddress w h name x in (a, e, x, l)),
      sys_FreeLibrary = (\<lambda>h (x, l). let (r, x) = sys_FreeLibrary w h x in (r, x, l))\<rparr>"

definition logged :: "'x USB2XXX \<Rightarrow> ('x \<times> usb_call list) USB2XXX" where
  "logged api =
     \<lparr>usb_system = logged_system (usb_system api),
      USB_ScanDevice = (\<lambda>(x, l). let (r, e, h, x) = USB_ScanDevice api x in (r, e, h, x, l @ [Scan_call])),
      USB_OpenDevice = (\<lambda>h (x, l). let (r, e, x) = USB_OpenDevice api h x in (r, e, x, l @ [Open_call h r e])),
      USB_CloseDevice = (\<lambda>h (x, l). let (r, e, x) = USB_CloseDevice api h x in (r, e, x, l @ [Close_call h r e])),
      LIN_EX_Init = (\<lambda>h c b m (x, l). let (r, e, x) = LIN_EX_Init api h c b m x in (r, e, x, l @ [Init_call h c b m r])),
      LIN_EX_MasterSync = (\<lambda>h c msg out (x, l).
        let (r, e, out, x) = LIN_EX_MasterSync api h c msg out x in (r, e, out, x, l @ [Traffic_call])),
      LIN_EX_SlaveGetData = (\<lambda>h c buf (x, l).
        let (r, e, buf, x) = LIN_EX_SlaveGetData api h c buf x in (r, e, buf, x, l @ [Traffic_call])),
      LIN_EX_CtrlPowerOut = (\<lambda>h c v (x, l). let (r, e, x) = LIN_EX_CtrlPowerOut api h c v x in (r, e, x, l @ [Traffic_call])),
      elins_init = (\<lambda>h c b m re v (x, l). let (r, e, x) = elins_init api h c b m re v x in (r, e, x, l @ [Traffic_call])),
      elins_set_rev_time = (\<lambda>h c t (x, l). let (r, e, x) = elins_set_rev_time api h c t x in (r, e, x, l @ [Traffic_call])),
      elins_stop = (\<lambda>h c (x, l). (elins_stop api h c x, l @ [Stop_call h c])),
      elins_get_msg = (\<lambda>h c buf (x, l). let (r, e, buf, x) = elins_get_msg api h c buf x in (r, e, buf, x, l @ [Traffic_call])),
      usb_now = (\<lambda>(x, l). usb_now api x), usb_sleep = (\<lambda>t (x, l). (usb_sleep api t x, l))\<rparr>"

lemma logged_device:
  "USB_ScanDevice (logged api) (x, l) = (let (r, e, h, x) = USB_ScanDevice api x in (r, e, h, x, l @ [Scan_call]))"
  "USB_OpenDevice (logged api) h (x, l) = (let (r, e, x) = USB_OpenDevice api h x in (r, e, x, l @ [Open_call h r e]))"
  "LIN_EX_Init (logged api) h c b m (x, l) =
     (let (r, e, x) = LIN_EX_Init api h c b m x in (r, e, x, l @ [Init_call h c b m r]))"
  by (simp_all add: logged_def)

subsection \<open>Loading makes no call on the device\<close>

abbreviation (input) log_of :: "USBGlobals \<times> 'x \<times> usb_call list \<Rightarrow> usb_call list" where
  "log_of w \<equiv> snd (snd w)"

lemma loader_log:
  "LoadLibrary (logged api) path y = (h, y') \<Longrightarrow> snd y' = snd y"
  "GetProcAddress (logged api) dll name y = (a, e, y') \<Longrightarrow> snd y' = snd y"
  "FreeLibrary (logged api) dll y = (r, y') \<Longrightarrow> snd y' = snd y"
  by (auto simp: LoadLibrary_def GetProcAddress_def FreeLibrary_def logged_def logged_system_def Let_def
      split: prod.splits)

lemma loadDLLs_log: "loadDLLs (logged api) w = (r, w') \<Longrightarrow> log_of w' = log_of w"
  by (auto simp: loadDLLs_def load_from_registry_def Let_def split: prod.splits sum.splits if_splits
      dest!: loader_log(1))

lemma getProc_log: "getProc (logged api) name w = (r, w') \<Longrightarrow> log_of w' = log_of w"
  by (auto simp: getProc_def Let_def split: prod.splits if_splits dest!: loader_log(2))

lemma load_required_log: "load_required (logged api) name store (es, w) = (es', w') \<Longrightarrow> log_of w' = log_of w"
  by (auto simp: load_required_def split: prod.splits sum.splits dest!: getProc_log)

lemma loadOptionalProc_log: "log_of (loadOptionalProc (logged api) name dest w) = log_of w"
  by (auto simp: loadOptionalProc_def split: prod.splits sum.splits dest!: getProc_log)

lemma load_all_required_log:
  "fold (\<lambda>(name, store). load_required (logged api) name store) procs (es, w) = (es', w') \<Longrightarrow> log_of w' = log_of w"
proof (induction procs arbitrary: es w)
  case (Cons p procs)
  obtain name store where p: "p = (name, store)" by fastforce
  obtain es1 w1 where s: "load_required (logged api) name store (es, w) = (es1, w1)" by (metis surj_pair)
  show ?case using Cons load_required_log [OF s] by (simp add: p s)
qed simp

lemma load_all_optional_log:
  "log_of (fold (\<lambda>(name, dest). loadOptionalProc (logged api) name dest) procs w) = log_of w"
  by (induction procs arbitrary: w) (auto simp: loadOptionalProc_log)

lemma loadProcAddresses_log: "loadProcAddresses (logged api) w = (r, w') \<Longrightarrow> log_of w' = log_of w"
  by (auto simp: loadProcAddresses_def Let_def load_all_optional_log split: prod.splits if_splits
      dest: load_all_required_log)

lemma ensure_log:
  assumes "ensureToomossLoaded (logged api) w = (r, w')"
  shows "log_of w' = log_of w"
proof -
  let ?w = "(resetToomossState (fst w), snd w)"
  obtain r1 w1 where l: "loadDLLs (logged api) ?w = (r1, w1)" by (metis surj_pair)
  obtain r2 g x where p: "loadProcAddresses (logged api) w1 = (r2, g, x)" by (metis surj_pair)
  obtain r3 y where f: "FreeLibrary (logged api) (UsbDeviceDLL g) x = (r3, y)" by (metis surj_pair)
  show ?thesis
    using assms loadDLLs_log [OF l] loadProcAddresses_log [OF p] loader_log(3) [OF f]
    by (auto simp: ensureToomossLoaded_def l p f Let_def split: option.splits if_splits)
qed

subsection \<open>The calls of opening and closing\<close>

lemma UsbScan_log:
  assumes "toomossReady g" and "UsbScan (logged api) (g, x, l) = (ok, g', x', l')"
  shows "toomossReady g' \<and> l' = l @ [Scan_call] \<and> g' = g\<lparr>DevHandle := DevHandle g'\<rparr>"
  using assms
  by (auto simp: UsbScan_def usbScan_def logged_def toomossReady_def ensureToomossLoaded_def Let_def
      split: prod.splits if_splits)

lemma UsbOpen_log:
  assumes "toomossReady g" and "UsbOpen (logged api) (g, x, l) = (ok, g', x', l')"
  shows "g' = g \<and> (\<exists>s e. l' = l @ [Open_call (DevHandle g) s e] \<and> (ok \<longleftrightarrow> e = 0 \<and> 1 \<le> s))"
  using assms
  by (auto simp: UsbOpen_def usbOpen_def logged_def toomossReady_def ensureToomossLoaded_def Let_def
      split: prod.splits if_splits)

lemma usbClose_log:
  assumes "usbClose (logged api) (g, x, l) = (err, g', x', l')"
  shows "DevHandle g' = DevHandle g \<and> (err = None \<longrightarrow> UsbDeviceDLL g' = 0) \<and>
    (if UsbDeviceDLL g = 0 \<or> UsbCloseDevice g = 0 then l' = l
     else \<exists>r e. l' = l @ [Close_call (DevHandle g) r e] \<and> (err = None \<longrightarrow> e = 0 \<and> r \<noteq> 0))"
proof -
  obtain r e y where c: "USB_CloseDevice api (DevHandle g) x = (r, e, y)" by (metis surj_pair)
  obtain f z where f: "sys_FreeLibrary (usb_system api) (UsbDeviceDLL g) y = (f, z)" by (metis surj_pair)
  show ?thesis
    using assms
    by (cases f)
       (auto simp: usbClose_def logged_def logged_system_def FreeLibrary_def c f Let_def not_less
         resetToomossState_def split: if_splits)
qed

definition inits :: "u64 \<Rightarrow> byte \<Rightarrow> Channel list \<Rightarrow> usb_call list" where
  "inits h mode cs = map (\<lambda>c. Init_call h c Bt mode 0) cs"

lemma init_lin_channels_log:
  assumes "init_lin_channels (logged api) mode cs (g, x, l) = (r, g', x', l')" and "toomossReady g"
  shows "case r of None \<Rightarrow> g' = g \<and> l' = l @ inits (DevHandle g) mode cs
    | Some err \<Rightarrow> DevHandle g' = DevHandle g \<and> (\<exists>k code s e. k < length cs \<and> code \<noteq> 0 \<and>
        l' = l @ inits (DevHandle g) mode (take k cs) @ [Init_call (DevHandle g) (cs ! k) Bt mode code, Close_call (DevHandle g) s e])"
  using assms(1)
proof (induction cs arbitrary: x l)
  case (Cons c cs)
  obtain code errno y where i: "LIN_EX_Init api (DevHandle g) c Bt mode x = (code, errno, y)" by (metis surj_pair)
  have il: "LIN_EX_Init (logged api) (DevHandle g) c Bt mode (x, l) =
      (code, errno, y, l @ [Init_call (DevHandle g) c Bt mode code])"
    by (simp add: logged_def i)
  show ?case
  proof (cases "code = 0")
    case True
    then have "init_lin_channels (logged api) mode cs (g, y, l @ [Init_call (DevHandle g) c Bt mode 0]) = (r, g', x', l')"
      using Cons.prems il by simp
    from Cons.IH [OF this] show ?thesis
    proof (cases r)
      case (Some err)
      with Cons.IH [OF \<open>init_lin_channels (logged api) mode cs _ = _\<close>] obtain k code s e where
        "DevHandle g' = DevHandle g" "k < length cs" "code \<noteq> 0"
        "l' = l @ inits (DevHandle g) mode (take (Suc k) (c # cs)) @
          [Init_call (DevHandle g) ((c # cs) ! Suc k) Bt mode code, Close_call (DevHandle g) s e]"
        by (auto simp: inits_def)
      then show ?thesis unfolding Some option.case by (metis Suc_less_eq length_Cons)
    qed (simp add: inits_def)
  next
    case False
    obtain u g2 z l2 where u: "usbClose (logged api) (g, y, l @ [Init_call (DevHandle g) c Bt mode code]) = (u, g2, z, l2)"
      by (metis surj_pair)
    have "r \<noteq> None" "g' = g2" "l' = l2" using Cons.prems False il u by auto
    moreover obtain s e where "l2 = l @ [Init_call (DevHandle g) c Bt mode code, Close_call (DevHandle g) s e]"
      using usbClose_log [OF u] assms(2) by (auto simp: toomossReady_def)
    ultimately show ?thesis
      using usbClose_log [OF u] False by (auto simp: inits_def intro!: exI [of _ 0])
  qed
qed (simp add: inits_def)

lemma stop_elins_log:
  "stop_elins (logged api) g cs (x, l) = (x', l') \<Longrightarrow>
   l' = l @ (if ELINS_Stop g = 0 then [] else map (Stop_call (DevHandle g)) cs)"
proof (induction cs arbitrary: x l)
  case (Cons c cs)
  have "stop_elins (logged api) g cs (elins_stop api (DevHandle g) c x, l @ [Stop_call (DevHandle g) c]) = (x', l')"
    if "ELINS_Stop g \<noteq> 0"
    using Cons.prems that by (simp add: stop_elins_def logged_def)
  from Cons.IH [OF this] Cons.prems show ?case by (cases "ELINS_Stop g = 0") (simp_all add: stop_elins_def)
qed (simp add: stop_elins_def split: if_splits)

subsection \<open>One instance\<close>

text \<open>The calls of an opening that fails: how far it came, and that it closes what it has opened.\<close>

definition failed_opening :: "u64 \<Rightarrow> byte \<Rightarrow> Channel list \<Rightarrow> usb_call list \<Rightarrow> bool" where
  "failed_opening h mode cs calls \<longleftrightarrow>
     calls = [] \<or> calls = [Scan_call] \<or>
     (\<exists>s e. calls = [Scan_call, Open_call h s e] \<and> (e \<noteq> 0 \<or> s < 1)) \<or>
     (\<exists>s k code r e. 1 \<le> s \<and> k < length cs \<and> code \<noteq> 0 \<and>
        calls = [Scan_call, Open_call h s 0] @ inits h mode (take k cs) @
          [Init_call h (cs ! k) Bt mode code, Close_call h r e])"

lemma open_calls:
  assumes "NewToomoss (logged api) cs mode (g, x, l) = (r, g', x', l')"
  shows "case r of
      Inr d \<Rightarrow> \<not> toomossInstanceActive g \<and> cs \<noteq> [] \<and> toomossInstanceActive g' \<and> toomossReady g' \<and>
        tm_channels d = cs \<and> \<not> tm_closed d \<and> \<not> tm_closeOnce d \<and>
        (\<exists>s. 1 \<le> s \<and> l' = l @ [Scan_call, Open_call (DevHandle g') s 0] @ inits (DevHandle g') mode cs)
    | Inl err \<Rightarrow> toomossInstanceActive g' = toomossInstanceActive g \<and>
        (\<exists>calls. l' = l @ calls \<and> failed_opening (DevHandle g') mode cs calls)"
proof (cases "toomossInstanceActive g \<or> cs = []")
  case False
  obtain r1 g1 x1 l1 where e: "ensureToomossLoaded (logged api) (g, x, l) = (r1, g1, x1, l1)" by (metis surj_pair)
  obtain ok2 g2 x2 l2 where s: "UsbScan (logged api) (g1, x1, l1) = (ok2, g2, x2, l2)" by (metis surj_pair)
  obtain ok3 g3 x3 l3 where p: "UsbOpen (logged api) (g2, x2, l2) = (ok3, g3, x3, l3)" by (metis surj_pair)
  obtain r4 g4 x4 l4 where i: "init_lin_channels (logged api) mode cs (g3, x3, l3) = (r4, g4, x4, l4)"
    by (metis surj_pair)
  have l1: "l1 = l" and act1: "toomossInstanceActive g1 = toomossInstanceActive g"
    and ready1: "r1 = None \<longrightarrow> toomossReady g1"
    using ensure_log [OF e] ensure_active [OF e] by simp_all
  show ?thesis
  proof (cases r1)
    case None
    note s' = UsbScan_log [OF ready1 [rule_format, OF None] s]
    then have act2: "toomossInstanceActive g2 = toomossInstanceActive g" and ready2: "toomossReady g2"
      using act1 by (metis USBGlobals.select_convs(14) USBGlobals.surjective USBGlobals.update_convs(13), simp)
    obtain st er where p': "g3 = g2" "l3 = l @ [Scan_call, Open_call (DevHandle g2) st er]" "ok3 \<longleftrightarrow> er = 0 \<and> 1 \<le> st"
      using UsbOpen_log [OF ready2 p] s' l1 by auto
    have act4: "toomossInstanceActive g4 = toomossInstanceActive g"
      using init_lin_channels_keeps [OF i] act2 p'(1) by simp
    note res = assms [unfolded NewToomoss_def ensureLinReady_def]
    consider "\<not> ok2" | "ok2" "\<not> ok3" | "ok2" "ok3" by blast
    then show ?thesis
    proof cases
      case 3
      then have run: "(r, g', x', l') = (case r4 of Some err \<Rightarrow> (Inl err, g4, x4, l4)
          | None \<Rightarrow> (Inr \<lparr>tm_closed = False, tm_closeOnce = False, tm_channels = cs,
              tm_eventChans = (\<lambda>_. None), tm_panicked = False, tm_elinsChannels = [], tm_closeErr = None\<rparr>,
              g4\<lparr>toomossInstanceActive := True\<rparr>, x4, l4))"
        using res False None by (simp add: e s p i Let_def split: option.splits)
      have ok: "er = 0" "1 \<le> st" using p'(3) 3 by simp_all
      note i' = init_lin_channels_log [OF i, unfolded p' ok, OF ready2]
      show ?thesis
      proof (cases r4)
        case None
        then show ?thesis
          using i' run False ready2 ok(2) by (auto simp: toomossReady_def)
      next
        case (Some err)
        then have "r = Inl err" "g' = g4" "l' = l4" using run by simp_all
        moreover obtain k code sv er' where "DevHandle g4 = DevHandle g2" "k < length cs" "code \<noteq> 0"
          "l4 = l @ [Scan_call, Open_call (DevHandle g2) st 0] @ inits (DevHandle g2) mode (take k cs) @
            [Init_call (DevHandle g2) (cs ! k) Bt mode code, Close_call (DevHandle g2) sv er']"
          using i' Some by auto
        ultimately show ?thesis
          using act4 ok(2) unfolding failed_opening_def by fastforce
      qed
    next
      case 1
      then have "(g', x', l') = (g2, x2, l2) \<and> isl r" using res False None by (auto simp: e s Let_def)
      then show ?thesis using s' l1 act2 by (cases r) (simp_all add: failed_opening_def)
    next
      case 2
      then have "(g', x', l') = (g3, x3, l3) \<and> isl r" using res False None by (auto simp: e s p Let_def)
      moreover have "er \<noteq> 0 \<or> st < 1" using p'(3) 2 by (simp add: not_le)
      ultimately show ?thesis using p'(1,2) act2 by (cases r) (auto simp: failed_opening_def)
    qed
  next
    case (Some err)
    then show ?thesis using assms False l1 act1 by (auto simp: NewToomoss_def ensureLinReady_def e Let_def failed_opening_def)
  qed
next
  case True
  then have "(g', x', l') = (g, x, l) \<and> isl r" using assms by (auto simp: NewToomoss_def split: if_splits)
  then show ?thesis by (cases r) (simp_all add: failed_opening_def)
qed

lemma close_calls:
  assumes "Toomoss_Close (logged api) d (g, x, l) = (err, d', g', x', l')" and "\<not> tm_closeOnce d" and "toomossReady g"
  shows "\<not> toomossInstanceActive g' \<and> tm_closed d' \<and> tm_closeOnce d' \<and> tm_closeErr d' = err \<and>
    (\<exists>r e. l' = l @ (if ELINS_Stop g = 0 then [] else map (Stop_call (DevHandle g)) (tm_elinsChannels d)) @
        [Close_call (DevHandle g) r e] \<and> (err = None \<longrightarrow> e = 0 \<and> r \<noteq> 0 \<and> UsbDeviceDLL g' = 0))"
proof -
  obtain x1 l1 where st: "stop_elins (logged api) g (tm_elinsChannels d) (x, l) = (x1, l1)" by fastforce
  obtain er g2 x2 l2 where cl: "usbClose (logged api) (g, x1, l1) = (er, g2, x2, l2)" by (metis surj_pair)
  have res: "(err, d', g', x', l') = (er, d\<lparr>tm_closeOnce := True, tm_closed := True, tm_closeErr := er\<rparr>,
      g2\<lparr>toomossInstanceActive := False\<rparr>, x2, l2)"
    using assms(1,2) by (auto simp: Toomoss_Close_def st cl Let_def)
  obtain r e where "l2 = l1 @ [Close_call (DevHandle g) r e]" "er = None \<longrightarrow> e = 0 \<and> r \<noteq> 0 \<and> UsbDeviceDLL g2 = 0"
    using usbClose_log [OF cl] assms(3) by (auto simp: toomossReady_def)
  then show ?thesis using res stop_elins_log [OF st] by simp
qed

text \<open>
  C32: On Windows there is one active Toomoss instance at most, and its device is opened and closed
  once. \<open>NewToomoss\<close> succeeds only when no instance is active and a channel is asked for; then it has made
  exactly these calls on the device: a scan, one successful opening of the handle found, and a successful
  initialisation of every channel asked for, in order. The instance is active, and every further attempt
  is refused without a call. A failed attempt leaves the flag as it was, and closes the device if it
  had opened it and a channel could not be initialised. \<open>Close\<close> stops the ELINS channels and closes the
  device, each with one call, and clears the flag whatever the adapter answers; it reports no error
  only if the device was closed and the library released; a second \<open>Close\<close> gives the same result
  without a call.
\<close>

theorem toomoss_one_instance:
  assumes "NewToomoss (logged api) cs mode (g, x, l) = (r, g1, x1, l1)"
    and "Toomoss_Close (logged api) d (g2, x2, l2) = (err, d', g3, x3, l3)"
  shows "(case r of
      Inr d \<Rightarrow> \<not> toomossInstanceActive g \<and> cs \<noteq> [] \<and> toomossInstanceActive g1 \<and> toomossReady g1 \<and>
        tm_channels d = cs \<and> \<not> tm_closed d \<and> \<not> tm_closeOnce d \<and>
        (\<exists>s. 1 \<le> s \<and> l1 = l @ [Scan_call, Open_call (DevHandle g1) s 0] @ inits (DevHandle g1) mode cs) \<and>
        NewToomoss (logged api) cs2 mode2 (g1, x1, l1) =
          (Inl (ErrorText ''a Toomoss device instance is already active'' []), g1, x1, l1)
    | Inl _ \<Rightarrow> toomossInstanceActive g1 = toomossInstanceActive g \<and>
        (\<exists>calls. l1 = l @ calls \<and> failed_opening (DevHandle g1) mode cs calls)) \<and>
    (if tm_closeOnce d then (err, d', g3, x3, l3) = (tm_closeErr d, d, g2, x2, l2)
     else \<not> toomossInstanceActive g3 \<and> tm_closed d' \<and>
       (toomossReady g2 \<longrightarrow>
         (\<exists>r e. l3 = l2 @ (if ELINS_Stop g2 = 0 then [] else map (Stop_call (DevHandle g2)) (tm_elinsChannels d)) @
             [Close_call (DevHandle g2) r e] \<and> (err = None \<longrightarrow> e = 0 \<and> r \<noteq> 0 \<and> UsbDeviceDLL g3 = 0))) \<and>
       Toomoss_Close (logged api) d' w = (err, d', w))"
proof -
  have again: "NewToomoss (logged api) cs2 mode2 (g1, x1, l1) =
      (Inl (ErrorText ''a Toomoss device instance is already active'' []), g1, x1, l1)"
    if "toomossInstanceActive g1" using that by (simp add: NewToomoss_def)
  have "\<not> toomossInstanceActive g3 \<and> tm_closed d' \<and> Toomoss_Close (logged api) d' w = (err, d', w)"
    if "\<not> tm_closeOnce d" using that assms(2) by (auto simp: Toomoss_Close_def Let_def split: prod.splits)
  moreover have "(err, d', g3, x3, l3) = (tm_closeErr d, d, g2, x2, l2)" if "tm_closeOnce d"
    using that assms(2) by (auto simp: Toomoss_Close_def)
  ultimately show ?thesis
    using open_calls [OF assms(1)] again close_calls [OF assms(2)]
    by (cases r; cases "tm_closeOnce d") simp_all
qed

text \<open>Two channels of an adapter are opened, and the device is closed again.\<close>

theorem toomoss_one_instance_witness:
  "\<exists>d g1 x1 l1 err d' g3 x3 s r e.
     NewToomoss (logged (usb_adapter 0 zeroLinExMsg)) [0, 2] 1
       (ready_globals\<lparr>toomossInstanceActive := False\<rparr>, (0, {}), []) = (Inr d, g1, x1, l1) \<and>
     Toomoss_Close (logged (usb_adapter 0 zeroLinExMsg)) d (g1, x1, l1) = (err, d', g3, x3,
       [Scan_call, Open_call 7 s 0, Init_call 7 0 Bt 1 0, Init_call 7 2 Bt 1 0, Close_call 7 r e])"
proof -
  let ?api = "logged (usb_adapter 0 zeroLinExMsg)" and ?g = "ready_globals\<lparr>toomossInstanceActive := False\<rparr>"
  have ready: "toomossReady (g\<lparr>DevHandle := h\<rparr>) = toomossReady g" "toomossReady (g\<lparr>toomossInstanceActive := b\<rparr>) = toomossReady g"
    for g h b by (simp_all add: toomossReady_def)
  have g: "toomossReady ready_globals" by (simp add: toomossReady_def ready_globals_def)
  have "\<exists>d x1 l1. NewToomoss ?api [0, 2] 1 (?g, (0, {}), []) = (Inr d, ready_globals\<lparr>DevHandle := 7\<rparr>, x1, l1) \<and>
      tm_elinsChannels d = [] \<and> \<not> tm_closeOnce d"
    by (simp add: NewToomoss_def ensureLinReady_def UsbScan_def usbScan_def UsbOpen_def usbOpen_def ready g
        logged_device usb_adapter_def Let_def) (simp add: ready_globals_def)
  then obtain d x1 l1 where o: "NewToomoss ?api [0, 2] 1 (?g, (0, {}), []) = (Inr d, ready_globals\<lparr>DevHandle := 7\<rparr>, x1, l1)"
    and d: "tm_elinsChannels d = []" "\<not> tm_closeOnce d" by blast
  define g1 where "g1 = ready_globals\<lparr>DevHandle := 7\<rparr>"
  note o = o [folded g1_def]
  have g1: "DevHandle g1 = 7" "toomossReady g1" by (simp_all add: g1_def ready g)
  obtain err d' g3 x3 l3 where c: "Toomoss_Close ?api d (g1, x1, l1) = (err, d', g3, x3, l3)" by (metis surj_pair)
  obtain s where "l1 = [Scan_call, Open_call 7 s 0, Init_call 7 0 Bt 1 0, Init_call 7 2 Bt 1 0]"
    and "\<exists>r e. l3 = l1 @ [Close_call 7 r e]"
    using toomoss_one_instance [OF o c, of "[]" 0 "(g1, x1, [])"] g1 d by (auto simp: inits_def split: if_splits)
  then show ?thesis using o c by auto
qed

end
