(* ===== verification/Driver_Libraries.thy ===== *)
theory Driver_Libraries
  imports Library_Search Pcan Vector_Properties TSMaster "HOL-Library.Multiset"
begin

section \<open>The drivers and their libraries\<close>

text \<open>
  Opening the PCAN, Vector and TSMaster drivers together with the loading of their libraries: the
  handle of \<^verbatim>\<open>PLinApi.dll\<close> is kept by an open driver and given back on every other path, and a Vector
  driver has all its functions. The arguments of the Vector calls have the widths of the architecture.
\<close>

subsection \<open>Opening\<close>

text \<open>
  The functions at the addresses of a loaded API, of which the release of the library is the API's
  own \<open>close\<close>.
\<close>

definition loaded_plin :: "'x Windows \<Rightarrow> (pcanAPI \<Rightarrow> 'x PLIN) \<Rightarrow> pcanAPI \<Rightarrow> 'x PLIN" where
  "loaded_plin os functions a =
     (functions a)\<lparr>lin_FreeLibrary := (\<lambda>x. let (err, _, x) = pcanAPI_close os a x in (err, x))\<rparr>"

definition openPCAN ::
    "'x Windows \<Rightarrow> (pcanAPI \<Rightarrow> 'x PLIN) \<Rightarrow> PCANConfig \<Rightarrow> 'x \<Rightarrow> (error + pcanAPI \<times> PCAN) \<times> 'x" where
  "openPCAN os functions config x =
     (case normalizePCANConfig config of
        Inl err \<Rightarrow> (Inl err, x)
      | Inr normalized \<Rightarrow>
          (case loadPCANAPI os x of
             (Inl err, x) \<Rightarrow> (Inl err, x)
           | (Inr a, x) \<Rightarrow>
               (case NewPCANWithConfig (loaded_plin os functions a) config x of
                  (Inl err, x) \<Rightarrow> (Inl err, x)
                | (Inr p, x) \<Rightarrow> (Inr (a, p), x))))"

definition openVector ::
    "'x Windows \<Rightarrow> (vectorAPI \<Rightarrow> 'x XL) \<Rightarrow> VectorConfig \<Rightarrow> 'x \<Rightarrow> (error + vectorAPI \<times> Vector) \<times> 'x" where
  "openVector os functions config x =
     (case normalizeVectorConfig config of
        Inl err \<Rightarrow> (Inl err, x)
      | Inr (normalized, _, _) \<Rightarrow>
          (case loadVectorAPI os (vc_DLLPath normalized) x of
             (Inl err, x) \<Rightarrow> (Inl err, x)
           | (Inr a, x) \<Rightarrow>
               (case NewVectorWithConfig (functions a) config x of
                  (Inl err, x) \<Rightarrow> (Inl err, x)
                | (Inr v, x) \<Rightarrow> (Inr (a, v), x))))"

definition loaded_tslib :: "'x Windows \<Rightarrow> 'x TSLib \<Rightarrow> 'x TSLib" where
  "loaded_tslib os functions =
     functions\<lparr>ts_load := (\<lambda>x. case newTSMasterLoader os x of
        (Inl err, x) \<Rightarrow> (Some err, x)
      | (Inr loader, x) \<Rightarrow> (None, x))\<rparr>"

subsection \<open>Loading keeps one handle or none\<close>

text \<open>What the loader does: it counts the handles given out.\<close>

definition tracks_libraries :: "'x Windows \<Rightarrow> ('x \<Rightarrow> u64 multiset) \<Rightarrow> bool" where
  "tracks_libraries os held \<longleftrightarrow>
     (\<forall>p x h x'. sys_LoadLibrary os p x = (Inr h, x') \<longrightarrow> h \<noteq> 0 \<and> held x' = add_mset h (held x)) \<and>
     (\<forall>p x err x'. sys_LoadLibrary os p x = (Inl err, x') \<longrightarrow> held x' = held x) \<and>
     (\<forall>h n x. held (snd (snd (sys_GetProcAddress os h n x))) = held x) \<and>
     (\<forall>h x. held (snd (sys_FreeLibrary os h x)) = held x - {#h#})"

definition all_procedures :: "pcanAPI \<Rightarrow> bool" where
  "all_procedures a \<longleftrightarrow>
     0 \<notin> {registerClient a, removeClient a, connectClient a, disconnectClient a, resetClient a,
          setClientFilter a, api_read a, api_write a, initializeHardware a, getAvailableHW a,
          getHardwareParam a, api_setFrameEntry a, updateByteArray a, calculateChecksum a}"

lemma tracks_librariesD:
  assumes "tracks_libraries os held"
  shows "sys_LoadLibrary os p x = (Inr h, x') \<Longrightarrow> h \<noteq> 0 \<and> held x' = add_mset h (held x)"
    and "sys_LoadLibrary os p x = (Inl err, x') \<Longrightarrow> held x' = held x"
    and "held (snd (snd (sys_GetProcAddress os h n x))) = held x"
    and "held (snd (sys_FreeLibrary os h x)) = held x - {#h#}"
  using assms unfolding tracks_libraries_def by simp_all

lemma load_each_cases:
  assumes "tracks_libraries os held"
    and "load_each os procedures a x = (missing, a', x')"
    and "\<And>s v a. s \<in> set procedures \<Longrightarrow> api_dll (snd s v a) = api_dll a"
  shows "held x' = held x \<and> api_dll a' = api_dll a \<and>
    (missing = [] \<longrightarrow> (\<exists>vs. length vs = length procedures \<and> 0 \<notin> set vs \<and>
       a' = fold (\<lambda>(s, v). snd s v) (zip procedures vs) a))"
  using assms(2,3)
proof (induction procedures arbitrary: a x missing)
  case (Cons s procedures)
  obtain name dst where s: "s = (name, dst)" by (cases s)
  obtain v e y where p: "sys_GetProcAddress os (api_dll a) name x = (v, e, y)" by (metis surj_pair)
  have y: "held y = held x" using tracks_librariesD(3) [OF assms(1), of "api_dll a" name x] by (simp add: p)
  show ?case
  proof (cases "e \<noteq> None \<or> v = 0")
    case True
    then obtain ms where "load_each os procedures a y = (ms, a', x')" "missing = name # ms"
      using Cons.prems(1) by (auto simp: s p split: prod.splits)
    then show ?thesis using Cons.IH [of a y ms] Cons.prems(2) y by auto
  next
    case False
    then have run: "load_each os procedures (dst v a) y = (missing, a', x')"
      using Cons.prems(1) by (simp add: s p)
    note IH = Cons.IH [OF run Cons.prems(2)]
    have dll: "api_dll (dst v a) = api_dll a" using Cons.prems(2) [of s v a] by (simp add: s)
    have "\<exists>vs. length vs = length (s # procedures) \<and> 0 \<notin> set vs \<and>
      a' = fold (\<lambda>(s, v). snd s v) (zip (s # procedures) vs) a" if "missing = []"
    proof -
      from IH that obtain vs where "length vs = length procedures" "0 \<notin> set vs"
        "a' = fold (\<lambda>(s, v). snd s v) (zip procedures vs) (dst v a)" by auto
      then show ?thesis using False by (intro exI [of _ "v # vs"]) (simp add: s)
    qed
    then show ?thesis using IH y dll by simp
  qed
qed simp

lemma loadProcedures_cases:
  assumes "tracks_libraries os held" and "loadProcedures os (new_pcanAPI h) x = (err, a, x')"
  shows "held x' = held x \<and> api_dll a = h \<and> (err = None \<longrightarrow> all_procedures a)"
proof -
  obtain missing where run: "load_each os pcan_procedures (new_pcanAPI h) x = (missing, a, x')"
    and err: "err = None \<longleftrightarrow> missing = []"
    using assms(2) by (auto simp: loadProcedures_def split: prod.splits if_splits)
  have dll: "api_dll (snd s v a) = api_dll a" if "s \<in> set pcan_procedures" for s v a
    using that by (auto simp: pcan_procedures_def)
  note load = load_each_cases [OF assms(1) run dll]
  have fourteen: "length pcan_procedures = 14" by (simp add: pcan_procedures_def)
  have "all_procedures a" if "missing = []"
  proof -
    from load that obtain vs where vs: "length vs = 14" "0 \<notin> set vs"
      "a = fold (\<lambda>(s, v). snd s v) (zip pcan_procedures vs) (new_pcanAPI h)"
      using fourteen by auto
    obtain v1 v2 v3 v4 v5 v6 v7 v8 v9 v10 v11 v12 v13 v14
      where "vs = [v1, v2, v3, v4, v5, v6, v7, v8, v9, v10, v11, v12, v13, v14]"
      using vs(1) by (auto simp: numeral_eq_Suc length_Suc_conv)
    then show ?thesis using vs(2,3) by (auto simp: pcan_procedures_def all_procedures_def)
  qed
  then show ?thesis using load err by (auto simp: new_pcanAPI_def)
qed

lemma load_first_cases:
  assumes "tracks_libraries os held" and "load_first os candidates n x = (r, x')"
  shows "case r of
     Inl err \<Rightarrow> held x' = held x
   | Inr a \<Rightarrow> api_dll a \<noteq> 0 \<and> all_procedures a \<and> held x' = add_mset (api_dll a) (held x)"
  using assms(2)
proof (induction candidates arbitrary: n x)
  case (Cons candidate candidates)
  obtain l y where l: "sys_LoadLibrary os candidate x = (l, y)" by (metis surj_pair)
  show ?case
  proof (cases l)
    case (Inl err)
    then have "load_first os candidates (n + 1) y = (r, x')" using Cons.prems l by simp
    from Cons.IH [OF this] show ?thesis
      using l Inl tracks_librariesD(2) [OF assms(1), of candidate x err y] by (cases r) simp_all
  next
    case (Inr h)
    have h: "h \<noteq> 0" "held y = add_mset h (held x)"
      using tracks_librariesD(1) [OF assms(1), of candidate x h y] l Inr by simp_all
    obtain err a z where p: "loadProcedures os (new_pcanAPI h) y = (err, a, z)" by (metis surj_pair)
    note load = loadProcedures_cases [OF assms(1) p]
    show ?thesis
    proof (cases err)
      case None
      then show ?thesis using Cons.prems l Inr p load h by auto
    next
      case (Some e)
      then have "load_first os candidates (n + 1) (snd (sys_FreeLibrary os h z)) = (r, x')"
        using Cons.prems l Inr p by simp
      moreover have "held (snd (sys_FreeLibrary os h z)) = held x"
        using tracks_librariesD(4) [OF assms(1), of h z] load h by simp
      ultimately show ?thesis using Cons.IH [of "n + 1" "snd (sys_FreeLibrary os h z)"] by (cases r) simp_all
    qed
  qed
qed auto

subsection \<open>Opening and closing\<close>

text \<open>No other function of the library takes or gives back a handle.\<close>

definition keeps_libraries :: "'x PLIN \<Rightarrow> ('x \<Rightarrow> u64 multiset) \<Rightarrow> bool" where
  "keeps_libraries api held \<longleftrightarrow>
     (\<forall>n x. held (snd (snd (lin_RegisterClient api n x))) = held x) \<and>
     (\<forall>c x. held (snd (lin_RemoveClient api c x)) = held x) \<and>
     (\<forall>c h x. held (snd (lin_ConnectClient api c h x)) = held x) \<and>
     (\<forall>c h x. held (snd (lin_DisconnectClient api c h x)) = held x) \<and>
     (\<forall>c h m x. held (snd (lin_SetClientFilter api c h m x)) = held x) \<and>
     (\<forall>c h m b x. held (snd (lin_InitializeHardware api c h m b x)) = held x) \<and>
     (\<forall>n x. held (snd (snd (snd (lin_GetAvailableHardware api n x)))) = held x) \<and>
     (\<forall>h i x. held (snd (snd (lin_GetHardwareParam api h i x))) = held x)"

lemma keeps_librariesD:
  assumes "keeps_libraries api held"
  shows "held (snd (snd (lin_RegisterClient api n x))) = held x"
    and "held (snd (lin_RemoveClient api c x)) = held x"
    and "held (snd (lin_ConnectClient api c h x)) = held x"
    and "held (snd (lin_DisconnectClient api c h x)) = held x"
    and "held (snd (lin_SetClientFilter api c h m x)) = held x"
    and "held (snd (lin_InitializeHardware api c h o' b x)) = held x"
    and "held (snd (snd (snd (lin_GetAvailableHardware api k x)))) = held x"
    and "held (snd (snd (lin_GetHardwareParam api h i x))) = held x"
  using assms by (simp_all add: keeps_libraries_def)

text \<open>A driver that holds its library and is not closed yet.\<close>

definition holds_library :: "PCAN \<Rightarrow> bool" where
  "holds_library p \<longleftrightarrow> pc_api p \<and> \<not> pc_closeOnce p"

lemma register_client_keeps:
  assumes "keeps_libraries api held"
  shows "held (snd (snd (register_client api n p x))) = held x \<and>
    holds_library (fst (snd (register_client api n p x))) = holds_library p"
  using keeps_librariesD(1) [OF assms, of n x]
  by (auto simp: register_client_def pcanCall_def holds_library_def Let_def split: option.splits prod.splits)

lemma availableHardware_keeps:
  assumes "keeps_libraries api held"
  shows "held (snd (availableHardware api x)) = held x"
proof -
  obtain c l k y where y: "lin_GetAvailableHardware api 0 x = (c, l, k, y)" by (metis surj_pair)
  obtain c' l' k' z where z: "lin_GetAvailableHardware api (unat k) y = (c', l', k', z)" by (metis surj_pair)
  show ?thesis
    using keeps_librariesD(7) [OF assms, of 0 x] keeps_librariesD(7) [OF assms, of "unat k" y]
    by (simp add: availableHardware_def y z)
qed

lemma hardwareParameter_keeps:
  assumes "keeps_libraries api held"
  shows "held (snd (hardwareParameter api h i x)) = held x"
  using keeps_librariesD(8) [OF assms, of h i x]
  by (auto simp: hardwareParameter_def pcanCall_def Let_def split: option.splits prod.splits)

lemma mapHardware_holds: "holds_library (snd (mapHardware config available p)) = holds_library p"
proof -
  have upd: "holds_library (p\<lparr>pc_hardwareByChannel := f, pc_channelByHardware := g\<rparr>) = holds_library p" for p f g
    by (simp add: holds_library_def)
  have "holds_library (snd (mapHardware_loop config available used cs p)) = holds_library p" for used cs
    by (induction cs arbitrary: used p) (simp_all add: upd Let_def split: option.split)
  then show ?thesis by (simp add: mapHardware_def)
qed

lemma pcanCall_keeps:
  assumes "keeps_libraries api held"
  shows "pcanCall op (lin_RemoveClient api c x) = (e, y) \<Longrightarrow> held y = held x"
    and "pcanCall op (lin_ConnectClient api c h x) = (e, y) \<Longrightarrow> held y = held x"
    and "pcanCall op (lin_DisconnectClient api c h x) = (e, y) \<Longrightarrow> held y = held x"
    and "pcanCall op (lin_SetClientFilter api c h m x) = (e, y) \<Longrightarrow> held y = held x"
    and "pcanCall op (lin_InitializeHardware api c h o' b x) = (e, y) \<Longrightarrow> held y = held x"
  using keeps_librariesD [OF assms] pcanCall_state snd_conv by metis+

lemma connectAndInitialize_keeps:
  assumes "keeps_libraries api held" and "connectAndInitialize api h p x = (err, p', x')"
  shows "held x' = held x \<and> holds_library p' = holds_library p"
proof -
  have parameter: "held y = held x" if "hardwareParameter api h i x = (r, y)" for i x r y
    using hardwareParameter_keeps [OF assms(1), of h i x] that by simp
  show ?thesis
    using assms(2)
    by (auto simp: connectAndInitialize_def holds_library_def Let_def
        dest!: pcanCall_keeps [OF assms(1)] parameter
        split: prod.splits option.splits sum.splits if_splits)
qed

lemma connect_channels_keeps:
  assumes "keeps_libraries api held" and "connect_channels api cs p x = (err, p', x')"
  shows "held x' = held x \<and> holds_library p' = holds_library p"
  using assms(2)
proof (induction cs arbitrary: p x)
  case (Cons c cs)
  let ?h = "case pc_hardwareByChannel p c of None \<Rightarrow> 0 | Some h \<Rightarrow> h"
  obtain e p1 x1 where one: "connectAndInitialize api ?h p x = (e, p1, x1)" by (metis prod_cases3)
  note connectAndInitialize_keeps [OF assms(1) one]
  with Cons.prems one Cons.IH [of p1 x1] show ?case by (cases e) (auto simp: Let_def)
qed simp

lemma disconnect_all_keeps:
  assumes "keeps_libraries api held"
  shows "held (snd (disconnect_all api c hs x)) = held x"
proof (induction hs arbitrary: x)
  case (Cons h hs)
  obtain e y where "pcanCall ''LIN_DisconnectClient'' (lin_DisconnectClient api c h x) = (e, y)"
    by (metis surj_pair)
  with pcanCall_keeps(3) [OF assms this] Cons [of y] show ?case by (simp add: case_prod_beta)
qed simp

text \<open>\<open>Close\<close> releases the library of a driver that holds it.\<close>

lemma PCAN_Close_releases:
  assumes "keeps_libraries api held" and "holds_library p"
    and "\<And>x. held (snd (lin_FreeLibrary api x)) = held x - {#h#}"
  shows "held (snd (snd (PCAN_Close api p x))) = held x - {#h#} \<and> pc_closeOnce (fst (snd (PCAN_Close api p x)))"
proof -
  let ?hs = "sort (pc_connectedHardware p)"
  obtain es y where es: "disconnect_all api (pc_client p) ?hs x = (es, y)" by (metis surj_pair)
  obtain e z where e: "pcanCall ''LIN_RemoveClient'' (lin_RemoveClient api (pc_client p) y) = (e, z)"
    by (metis surj_pair)
  have "held z = held x"
    using disconnect_all_keeps [OF assms(1), of "pc_client p" ?hs x] pcanCall_keeps(1) [OF assms(1) e]
    by (simp add: es)
  then show ?thesis
    using assms(2,3) by (simp add: PCAN_Close_def holds_library_def es e Let_def case_prod_beta)
qed

lemma NewPCANWithConfig_keeps:
  assumes "keeps_libraries api held" and "\<And>x. held (snd (lin_FreeLibrary api x)) = held x - {#h#}"
    and "normalizePCANConfig config = Inr normalized"
    and "NewPCANWithConfig api config x = (r, x')"
  shows "case r of Inl err \<Rightarrow> held x' = held x - {#h#} | Inr p \<Rightarrow> held x' = held x \<and> holds_library p"
proof -
  define p0 where "p0 = \<lparr>pc_api = True, pc_client = 0, pc_mode = pcfg_Mode normalized,
    pc_baudrate = Baudrate normalized, pc_closed = False, pc_closeOnce = False,
    pc_hardwareByChannel = (\<lambda>_. None), pc_channelByHardware = (\<lambda>_. None),
    pc_connectedHardware = [], pc_eventChans = (\<lambda>_. None), pc_closeErr = [],
    pc_masterReadLocks = \<lparr>locks = (\<lambda>_. None)\<rparr>\<rparr>"
  have p0: "holds_library p0" by (simp add: p0_def holds_library_def)
  note close = PCAN_Close_releases [OF assms(1) _ assms(2), THEN conjunct1]
  obtain e1 p1 x1 where s1: "register_client api (ClientName normalized) p0 x = (e1, p1, x1)" by (metis surj_pair)
  obtain l x2 where s2: "availableHardware api x1 = (l, x2)" by (metis surj_pair)
  obtain e3 p3 where s3: "mapHardware normalized (projr l) p1 = (e3, p3)" by (metis surj_pair)
  obtain e4 p4 x4 where s4: "connect_channels api (Channels normalized) p3 x2 = (e4, p4, x4)" by (metis surj_pair)
  have k1: "held x1 = held x" "holds_library p1"
    using register_client_keeps [OF assms(1), of "ClientName normalized" p0 x] s1 p0 by simp_all
  have k2: "held x2 = held x" using availableHardware_keeps [OF assms(1), of x1] s2 k1 by simp
  have k3: "holds_library p3" using mapHardware_holds [of normalized "projr l" p1] s3 k1 by simp
  have k4: "held x4 = held x" "holds_library p4" using connect_channels_keeps [OF assms(1) s4] k2 k3 by simp_all
  show ?thesis
    using assms(4) s2 s3 s4 k1 k2 k3 k4 close [of p1 x1] close [of p1 x2] close [of p3 x2] close [of p4 x4]
    by (auto simp: NewPCANWithConfig_def assms(3) s1 [unfolded p0_def] Let_def
        split: option.splits sum.splits)
qed

text \<open>
  C31: The handle of \<^verbatim>\<open>PLinApi.dll\<close> is kept by an open driver and by nothing else. Whatever paths are
  tried, whatever functions are missing from the libraries found, and whichever call of the adapter
  fails: opening a driver that returns an error gives back every handle taken on the way; opening a
  driver that succeeds keeps the one handle of its library, of which the addresses of all fourteen functions are
  known; and closing that driver gives it back, once.
\<close>

theorem pcan_library_balanced:
  assumes "tracks_libraries os held" and "\<And>a. keeps_libraries (functions a) held"
    and "openPCAN os functions config x = (r, x')"
  shows "case r of
     Inl err \<Rightarrow> held x' = held x
   | Inr (a, p) \<Rightarrow>
       held x' = add_mset (api_dll a) (held x) \<and> all_procedures a \<and>
       (let (errs, p', y) = PCAN_Close (loaded_plin os functions a) p x'
        in held y = held x \<and> PCAN_Close (loaded_plin os functions a) p' z = (errs, p', z))"
proof (cases "normalizePCANConfig config")
  case (Inl err)
  then show ?thesis using assms(3) by (auto simp: openPCAN_def)
next
  case (Inr normalized)
  obtain l x1 where l: "loadPCANAPI os x = (l, x1)" by (metis surj_pair)
  note load = load_first_cases [OF assms(1) l [unfolded loadPCANAPI_def]]
  show ?thesis
  proof (cases l)
    case (Inl err)
    then show ?thesis using assms(3) Inr l load by (auto simp: openPCAN_def)
  next
    case a: (Inr a)
    let ?api = "loaded_plin os functions a"
    obtain s y where s: "NewPCANWithConfig ?api config x1 = (s, y)" by (metis surj_pair)
    have keep: "keeps_libraries ?api held"
      using assms(2) [of a] by (simp add: keeps_libraries_def loaded_plin_def)
    have free: "held (snd (lin_FreeLibrary ?api y)) = held y - {#api_dll a#}" for y
      using tracks_librariesD(4) [OF assms(1)] load a
      by (simp add: loaded_plin_def pcanAPI_close_def case_prod_beta)
    note open_p = NewPCANWithConfig_keeps [OF keep free Inr s]
    show ?thesis
    proof (cases s)
      case (Inl err)
      then show ?thesis using assms(3) Inr l a s open_p load by (auto simp: openPCAN_def)
    next
      case p: (Inr p)
      have final: "PCAN_Close ?api q z = (pc_closeErr q, q, z)" if "pc_closeOnce q" for q z
        using that by (simp add: PCAN_Close_def)
      have err: "pc_closeErr (fst (snd (PCAN_Close ?api p y))) = fst (PCAN_Close ?api p y)"
        by (auto simp: PCAN_Close_def Let_def split: prod.splits)
      show ?thesis
        using assms(3) Inr l a s p open_p load PCAN_Close_releases [OF keep _ free, of p y] err
        by (auto simp: openPCAN_def case_prod_beta final)
    qed
  qed
qed

text \<open>
  A system whose loader finds a library everywhere, but only the last candidate has the functions,
  and a device on it; the state is the list of the handles given out.
\<close>

definition sample_windows :: "u64 list Windows" where
  "sample_windows =
     \<lparr>GOARCH = ''amd64'', Getenv = (\<lambda>name x. ''''), SharedDlls = (\<lambda>view x. Inr []),
      Uninstall = (\<lambda>view x. Inr []), OpenSubkey = (\<lambda>view name x. Inl (ErrorText ''not found'' [])),
      TSMasterValue = (\<lambda>view name x. Inl (ErrorText ''not found'' [])),
      Stat = (\<lambda>path x. None), SetDllDirectory = (\<lambda>path x. (None, x)),
      sys_LoadLibrary = (\<lambda>path x. let h = (if path = pcanDLLName then 7 else 5) in (Inr h, h # x)),
      sys_GetProcAddress = (\<lambda>h name x.
        if h = 7 then (0x1000, None, x) else (0, Some (ErrorText ''not found'' []), x)),
      sys_FreeLibrary = (\<lambda>h x. (None, remove1 h x))\<rparr>"

definition sample_plin :: "pcanAPI \<Rightarrow> u64 list PLIN" where
  "sample_plin a =
     \<lparr>lin_RegisterClient = \<lambda>name x. (0, 1, x), lin_RemoveClient = \<lambda>c x. (0, x),
      lin_ConnectClient = \<lambda>c h x. (0, x), lin_DisconnectClient = \<lambda>c h x. (0, x),
      lin_ResetClient = \<lambda>c x. (0, x), lin_SetClientFilter = \<lambda>c h m x. (0, x),
      lin_Read = \<lambda>c x. (pcanErrorReceiveQueueEmpty, \<lparr>r_Type = 0, r_FrameID = 0, r_Length = 0,
        r_Direction = 0, r_ChecksumType = 0, r_Data = [], r_Checksum = 0, r_ErrorFlags = 0,
        r_Timestamp = 0, r_Hardware = 0\<rparr>, x),
      lin_Write = \<lambda>c h m x. (0, x), lin_InitializeHardware = \<lambda>c h m b x. (0, x),
      lin_GetAvailableHardware = \<lambda>n x. (0, take n [0x10, 0x11], 2, x),
      lin_GetHardwareParam = \<lambda>h i x. (0, 0, x), lin_SetFrameEntry = \<lambda>c h e x. (0, x),
      lin_UpdateByteArray = \<lambda>c h i d x. (0, x), lin_CalculateChecksum = \<lambda>m x. (0, m, x),
      lin_FreeLibrary = \<lambda>x. (None, x), lin_now = \<lambda>x. 0, lin_sleep = \<lambda>w x. x\<rparr>"

theorem pcan_library_balanced_witness:
  "\<exists>a p. openPCAN sample_windows sample_plin (DefaultPCANConfig [0]) [] = (Inr (a, p), [7]) \<and>
     all_procedures a \<and> snd (snd (PCAN_Close (loaded_plin sample_windows sample_plin a) p [7])) = []"
proof -
  have tracks: "tracks_libraries sample_windows mset"
    by (simp add: tracks_libraries_def sample_windows_def Let_def)
  have keeps: "keeps_libraries (sample_plin a) mset" for a
    by (simp add: keeps_libraries_def sample_plin_def)
  have "(case openPCAN sample_windows sample_plin (DefaultPCANConfig [0]) [] of
      (Inr (a, p), x) \<Rightarrow> x = [7] \<and> api_dll a = 7 | (Inl err, x) \<Rightarrow> False)" by code_simp
  then obtain a p where run: "openPCAN sample_windows sample_plin (DefaultPCANConfig [0]) [] = (Inr (a, p), [7])"
    by (cases "openPCAN sample_windows sample_plin (DefaultPCANConfig [0]) []") (auto split: sum.splits)
  from pcan_library_balanced [OF tracks keeps run, of "[]"] run show ?thesis
    by (auto simp: case_prod_beta)
qed

subsection \<open>Vector\<close>

definition vector_complete :: "vectorAPI \<Rightarrow> bool" where
  "vector_complete a \<longleftrightarrow> list_all (\<lambda>name. va_procedures a name \<noteq> None) vector_procedures"

lemma find_procedures_None:
  assumes "find_procedures os names a x = (None, a', x')"
  shows "va_dll a' = va_dll a \<and> dom (va_procedures a') = dom (va_procedures a) \<union> set names"
  using assms
proof (induction names arbitrary: a x)
  case (Cons name names)
  obtain v e y where p: "sys_GetProcAddress os (va_dll a) name x = (v, e, y)" by (metis surj_pair)
  with Cons.prems have "e = None"
    and run: "find_procedures os names (a\<lparr>va_procedures := (va_procedures a)(name \<mapsto> v)\<rparr>) y = (None, a', x')"
    by (auto split: option.splits)
  from Cons.IH [OF run] show ?case by (auto split: if_splits)
qed simp

lemma load_first_vector_complete:
  assumes "load_first_vector os candidates n x = (Inr a, x')"
  shows "vector_complete a \<and> (\<exists>path \<in> set candidates. \<exists>y z. sys_LoadLibrary os path y = (Inr (va_dll a), z))"
  using assms
proof (induction candidates arbitrary: n x)
  case (Cons candidate candidates)
  obtain l y where l: "sys_LoadLibrary os candidate x = (l, y)" by (metis surj_pair)
  show ?case
  proof (cases l)
    case (Inl err)
    then show ?thesis using Cons.IH [of "n + 1" y] Cons.prems l by auto
  next
    case (Inr h)
    obtain missing a1 z where
      f: "find_procedures os vector_procedures \<lparr>va_dll = h, va_procedures = (\<lambda>_. None)\<rparr> y = (missing, a1, z)"
      by (metis surj_pair)
    show ?thesis
    proof (cases missing)
      case None
      then have a: "a = a1" using Cons.prems l Inr f by simp
      note found = find_procedures_None [OF f [unfolded None]]
      then have "vector_complete a" by (auto simp: a vector_complete_def list_all_iff)
      then show ?thesis using found l Inr a by auto
    next
      case (Some name)
      then show ?thesis using Cons.IH [of "n + 1" z] Cons.prems l Inr f by auto
    qed
  qed
qed simp

text \<open>
  An open Vector driver runs on a supported architecture and on one library, of the file the
  configuration names or of one of the candidates, with the addresses of all its functions.
\<close>

theorem openVector_complete:
  assumes "openVector os functions config x = (Inr (a, v), x')"
  shows "GOARCH os \<in> {''amd64'', ''386''} \<and> vector_complete a \<and>
    (\<exists>path y z. sys_LoadLibrary os path y = (Inr (va_dll a), z) \<and>
       (path = vc_DLLPath config \<or> path \<in> set (vectorDLLCandidates os '''' x)))"
proof -
  obtain n d c y where n: "normalizeVectorConfig config = Inr (n, d, c)"
    and l: "loadVectorAPI os (vc_DLLPath n) x = (Inr a, y)"
    using assms by (auto simp: openVector_def split: sum.splits prod.splits)
  have path: "vc_DLLPath n = vc_DLLPath config"
    using normalizeVectorConfig_Inr [OF n] by (simp add: vector_defaults_def)
  have arch: "GOARCH os \<in> {''amd64'', ''386''}"
    and first: "load_first_vector os (vectorDLLCandidates os (vc_DLLPath n) x) 0 x = (Inr a, y)"
    using l by (auto simp: loadVectorAPI_def split: if_splits)
  have named: "vectorDLLCandidates os p x = [p]" if "p \<noteq> ''''" for p
    using that by (simp add: vectorDLLCandidates_def)
  have "path \<in> set (vectorDLLCandidates os (vc_DLLPath n) x) \<Longrightarrow>
    path = vc_DLLPath config \<or> path \<in> set (vectorDLLCandidates os '''' x)" for path
    by (cases "vc_DLLPath n = ''''") (auto simp: named path)
  then show ?thesis using load_first_vector_complete [OF first] arch by blast
qed

subsection \<open>The arguments of the Vector calls\<close>

text \<open>
  An argument of a call is a word of the architecture: 64 bits, of which a 32-bit build has the lower
  half. There a mask takes two arguments and a structure is passed by value.
\<close>

definition uintptr :: "'x Windows \<Rightarrow> u64 \<Rightarrow> u64" where
  "uintptr os w = (if GOARCH os = ''386'' then ucast (ucast w :: u32) else w)"

definition appendXLAccess :: "'x Windows \<Rightarrow> u64 list \<Rightarrow> u64 \<Rightarrow> u64 list" where
  "appendXLAccess os args accessMask =
     (let args = args @ [uintptr os accessMask]
      in if GOARCH os = ''386'' then args @ [uintptr os (drop_bit 32 accessMask)] else args)"

definition statusAccess_args :: "'x Windows \<Rightarrow> int \<Rightarrow> u64 \<Rightarrow> u64 list \<Rightarrow> u64 list" where
  "statusAccess_args os port accessMask suffix =
     (let args = [uintptr os (of_int port)];
          args = appendXLAccess os args accessMask
      in args @ suffix)"

definition linSetChannelParams_args ::
    "'x Windows \<Rightarrow> int \<Rightarrow> u64 \<Rightarrow> xlLINChannelParams \<Rightarrow> u64 \<Rightarrow> u64 list" where
  "linSetChannelParams_args os port accessMask params pointer =
     (let args = [uintptr os (of_int port)];
          args = appendXLAccess os args accessMask
      in if GOARCH os = ''386''
         then args @ [ucast (xp_Mode params), ucast (xp_Baudrate params), ucast (xp_Version params), 0]
         else args @ [pointer])"

definition api_channelMask :: "'x Windows \<Rightarrow> u64 \<Rightarrow> u64 \<Rightarrow> u64" where
  "api_channelMask os low high =
     (if GOARCH os = ''386'' then ucast (ucast low :: u32) OR push_bit 32 (ucast (ucast high :: u32)) else low)"

lemma ucast_ucast_u32: "ucast (ucast w :: u64) = (w :: u32)"
  by (rule bit_word_eqI) (simp add: bit_simps)

lemma split_mask: "ucast (ucast m :: u32) OR push_bit 32 (ucast (ucast (drop_bit 32 m) :: u32)) = (m :: u64)"
  by (rule bit_word_eqI) (auto simp: bit_simps not_less)

text \<open>
  Masks keep all their 64 bits on both architectures: a mask read from the two registers of a result
  and passed on arrives as the words that stand for it, and the rest of the arguments follows
  unchanged.
\<close>

theorem vector_masks_roundtrip:
  "(let args = statusAccess_args os port accessMask suffix
    in if GOARCH os = ''386''
       then api_channelMask os (args ! 1) (args ! 2) = accessMask \<and> drop 3 args = suffix
       else api_channelMask os (args ! 1) 0 = accessMask \<and> drop 2 args = suffix)"
  by (simp add: statusAccess_args_def appendXLAccess_def api_channelMask_def uintptr_def Let_def
      ucast_ucast_u32 split_mask)

subsection \<open>TSMaster\<close>

text \<open>
  The TSMaster driver loads the file the registry names for its architecture, with the directory of
  that file on the search path, and nothing else: without an entry it reports an error before it calls
  the system.
\<close>

theorem newTSMasterLoader_cases:
  "case newTSMasterLoader os x of
     (Inr loader, x') \<Rightarrow>
       getTSMasterDLLFromRegistry os x = Inr (tl_dllPath loader) \<and> tl_dllPath loader \<noteq> '''' \<and>
       (\<exists>y h. SetDllDirectory os (Dir (tl_dllPath loader)) x = (None, y) \<and>
          sys_LoadLibrary os (tl_dllPath loader) y = (Inr h, x') \<and> tl_dll loader = Some h)
   | (Inl err, x') \<Rightarrow>
       x' = x \<or> (\<exists>path. getTSMasterDLLFromRegistry os x = Inr path \<and> path \<noteq> '''')"
  by (auto simp: newTSMasterLoader_def Let_def split: sum.split prod.split option.split)

end
