(* ===== verification/Spec2Isabelle.thy ===== *)
theory Spec2Isabelle
  imports System_Time System_Schedule Transport_Starvation Simulation_Timer Hardware_System Log_Text Toomoss_Libraries
    Toomoss_Instance Driver_Libraries
begin

text \<open>
  A model of linbuskit, a Go library for LIN buses: the LIN transport protocol over a driver interface,
  diagnostic nodes and a UDS client on top of it, a simulated bus and four hardware drivers below
  it. This text says what the theories hold, how they correspond to the code, and what is left out.

  \<^bold>\<open>The program.\<close> A driver (\<^verbatim>\<open>liniface.Driver\<close>) reads events from and writes frames to the
  channels of an adapter. A transport (\<^verbatim>\<open>tplin.Transport\<close>) owns one channel of a driver: its
  goroutine repeats a cycle that reads events, reassembles diagnostic messages from them, and
  sends the frames of queued messages; callers queue messages with \<open>Transmit\<close> and take received
  ones with \<open>Receive\<close>. The master, the slave and the UDS client are loops over a transport; a
  preset bundles a driver, a transport and a client behind one mutex. The hardware drivers put
  vendor libraries behind the driver interface.

  \<^bold>\<open>The theories and the code.\<close>
  \<^item> \<open>Go_Prelude\<close>: errors with their wrapping, byte and word helpers, buffered channels, and the
    environment over which a goroutine waits; collections of facts that all proofs use.
  \<^item> \<open>Liniface\<close> (\<^verbatim>\<open>liniface\<close>): events, the driver interface as a record of operations over an
    explicit driver state, and the locale \<open>finite_driver\<close>. A read that never returns is \<open>None\<close>, and
    so is then the cycle of a transport and the request of a master that waits for it.
  \<^item> \<open>Transport_Base\<close>, \<open>Transport_Frames\<close>, \<open>Transport_Receive\<close>, \<open>Transport\<close>
    (\<^verbatim>\<open>tplin/adapter.go\<close>, \<^verbatim>\<open>tplin/transport.go\<close>): the transport as a record, segmentation, reassembly, and
    the cycle with the lifecycle. \<open>Transport_Cycle\<close> (locale \<open>frame_driver\<close>), \<open>Transport_Trace\<close>,
    \<open>Transport_Properties\<close> and \<open>Transport_Lifecycle\<close> hold what they guarantee: the round trip, the
    refinement of an abstract assembler, first-in first-out order over any driver, all or
    nothing of a transmission, bounds of the queues, and no send on a closed channel.
    \<open>Transport_Starvation\<close> says when the cycle of a slave does not end.
  \<^item> \<open>Simulation\<close> (\<^verbatim>\<open>tplin/simulation.go\<close>): the simulated network, an interpretation of the driver
    interface, in which a read is one step; \<open>Simulation_Timer\<close> has the read with its reused timers
    and shows that the former abstracts it. \<open>Slave\<close> and \<open>Master\<close> (\<^verbatim>\<open>tplin/slave.go\<close>, \<^verbatim>\<open>tplin/master.go\<close>): the diagnostic
    services of a node and the requests of a master.
  \<^item> \<open>Response_Code\<close> and \<open>Uds_Client\<close> (\<^verbatim>\<open>uds_client\<close>): response codes, and a request with its retries
    and pending responses. \<open>Preset\<close> (\<^verbatim>\<open>preset\<close>). \<open>System\<close>: master, slaves and UDS client over the
    simulated bus, end to end, in one fixed order of their loops; \<open>System_Schedule\<close>: an exchange under every
    interleaving of the cycles, by the stages it goes through; \<open>System_Time\<close> (locales \<open>brief_driver\<close>, \<open>timely_env\<close>): every request of the
    master ends at most one turn of the system after its deadline.
  \<^item> \<open>Driver_Common\<close> (\<^verbatim>\<open>driver/common.go\<close>): mutexes per channel, event queues, polling loops (locale
    \<open>polling\<close>) and the master read that three drivers share (locale \<open>timed_reader\<close>).
  \<^item> \<open>Pcan\<close>, \<open>Vector\<close>, \<open>TSMaster\<close> (\<^verbatim>\<open>driver/pcan.go\<close>, \<^verbatim>\<open>vector.go\<close>, \<^verbatim>\<open>tsmaster.go\<close>), each with a
    theory of properties: configuration, opening and closing, reads that end with valid frames,
    and that a transport over the driver keeps its invariant.
  \<^item> \<open>Windows_Paths\<close> and \<open>Library_Search\<close>: how the drivers find and load their DLLs on Windows, that is,
    the candidates and loaders of \<^verbatim>\<open>pcan.go\<close>, \<^verbatim>\<open>vector.go\<close> and \<^verbatim>\<open>tsmaster.go\<close> and the registry search of
    \<^verbatim>\<open>toomoss.go\<close>, over the rules of Windows paths. \<open>Driver_Libraries\<close> opens the PCAN, Vector and TSMaster
    drivers together with their libraries: no handle is lost by the PCAN driver, a Vector driver has
    all its functions, and its masks keep their width in the arguments of the calls.
  \<^item> \<open>Hardware_Master\<close> and \<open>Hardware_System\<close>: a master over a hardware driver (locales \<open>quick_polling\<close> and
    \<open>master_hardware\<close>); over each of the four adapters every request returns.
  \<^item> \<open>Log_Text\<close>: the device log of \<^verbatim>\<open>common.go\<close> over the verbs of \<^verbatim>\<open>Sprintf\<close> that it uses, whose lines can
    be read back, and the texts of the error and mode types.
  \<^item> \<open>Toomoss\<close>: the operations that \<^verbatim>\<open>driver/toomoss.go\<close> and \<^verbatim>\<open>driver/toomoss_darwin.go\<close> have in common,
    over two calls of the platform. \<open>Toomoss_Windows\<close> adds loading, the instance, ELINS
    channels and filters of the former, \<open>Toomoss_Darwin\<close> the C functions and calls of the
    latter. \<open>Toomoss_Properties\<close> has the lemmas on the shared operations (interpretations of
    \<open>polling\<close> and \<open>frame_driver\<close>, locale \<open>checked_calls\<close>), \<open>Toomoss_Platforms\<close> what they give on
    both platforms (on either a read ends, over a library that runs dry), \<open>Toomoss_Libraries\<close> the handles
    of the macOS libraries, and \<open>Toomoss_Instance\<close> which calls on the device opening and closing make on
    Windows, over a library that records its calls (\<open>logged\<close>).

  \<^bold>\<open>State and operations.\<close> A Go struct is a record whose field names have a prefix of the receiver, a
  method a function from the state to its result and the new state; the driver and the world
  behind it are one more component of the state. What a mutex protects is one step; where the
  code releases a mutex in the middle of an operation and that matters, the parts are definitions
  of their own (\<open>close_begin\<close>, \<open>ts_write\<close>), and the goroutine of a transport is a step relation.
  Time is an integer of nanoseconds. The choice of a \<^verbatim>\<open>select\<close> with several ready cases is a
  parameter, the order of a ranged map that of a list. A nil pointer is \<open>None\<close>. A run-time
  panic is a flag that the theorems show unset, or set where the code can panic. Machine
  integers are words of their width; return codes of the vendor libraries keep the width and
  sign extension at which the code compares them.

  \<^bold>\<open>Vendor libraries and the system\<close> are records of functions over an arbitrary state (\<open>TSLib\<close>, \<open>XL\<close>,
  \<open>USB2XXX\<close>, \<open>Windows\<close> with the environment, the registry and the loader, and others). A theorem says what it needs of them: that polling runs dry (\<open>runs_dry\<close> and its
  variants: clocks do not turn back, a sleep lasts, and messages come from a finite backlog), that
  stops undo initialisations (\<open>tracks_elins\<close>), that the loader counts handles
  (\<open>tracks_handles\<close>, \<open>tracks_libraries\<close>). Each such theorem has a witness over a concrete adapter.

  \<^bold>\<open>Loops.\<close> Structural loops are recursive functions. Loops that wait for the world are
  \<open>partial_function (option)\<close>, most of them instances of \<open>loop\<close>; that they return is proved with
  the measure \<open>poll_rel\<close>, the time left and then the messages left, so there is no fuel. The only
  bounds are those of the code: queue capacities, the 4094 bytes of a message, the 512 and 1024
  frames of the read buffers.

  \<^bold>\<open>Not modelled.\<close> The calls of the log within the operations (the log itself is in \<open>Log_Text\<close>), the whole
  texts of errors built in place (such an error keeps its format and the numbers it
  prints, sometimes abridged), the layout in memory of what a call of a library gets by pointer, calls
  through addresses that were not loaded, device prefixes of Windows paths and letters beyond ASCII,
  nil receivers of the hardware drivers, and data races outside the mutexes. A build for 32 bits
  appears in the choice of the library to load, in the arguments of the Vector calls, and in the return codes
  that the Toomoss driver converts to \<^verbatim>\<open>int\<close> (\<open>uintptr_int\<close>). The branch of
  TSMaster's \<open>LinBreak\<close> for a library that is not loaded cannot be reached while the driver is connected.
  Toomoss's constants are left out, as are tests and examples.
\<close>

end
